(* ===== verification/Fuse_Prelude.thy ===== *)
theory Fuse_Prelude
  imports Main "HOL-Library.Word"
begin

text \<open>
  What every component of the library shares: the machine integers of the Rust sources,
  the error values of \<^verbatim>\<open>std::io\<close> with the errno constants of \<^verbatim>\<open>libc\<close> (Linux,
  x86-64), the result type of a fallible Rust function, the type of a state-changing
  operation, and the generic lemmas on words, lists and maps that the component theories
  use.

  Conventions. A Rust \<open>uN\<close> or \<open>iN\<close> is an \<open>N word\<close>; arithmetic on it wraps, which is what
  the release profile compiles, and an \<^verbatim>\<open>as\<close> cast is \<open>ucast\<close>. A panic (\<^verbatim>\<open>unwrap\<close> on
  \<^verbatim>\<open>None\<close>, a failed \<^verbatim>\<open>assert\<close>, an index out of range) is the value \<open>Panic\<close> of the result
  type. The text of an error message is not kept; its \<^verbatim>\<open>ErrorKind\<close> is. Logging is not
  modelled.
\<close>

unbundle bit_operations_syntax

section \<open>Machine integers and byte strings\<close>

type_synonym u8 = "8 word"
type_synonym u16 = "16 word"
type_synonym u32 = "32 word"
type_synonym u64 = "64 word"
type_synonym i32 = "32 word"
type_synonym i64 = "64 word"
type_synonym usize = "64 word"
type_synonym bytes = "u8 list"

text \<open>
  The name of a directory entry is a C string: the list of its bytes without the final
  NUL, as a HOL string (a \<open>char\<close> is a byte).
\<close>

type_synonym cname = string

named_theorems fuse_defs \<open>definitions the component proofs unfold together\<close>
named_theorems fuse_frame \<open>what an operation leaves unchanged\<close>
named_theorems fuse_inv \<open>preservation of the component invariants\<close>

section \<open>Errors and results\<close>

datatype error_kind =
    NotFound | PermissionDenied | Interrupted | AlreadyExists | WouldBlock
  | InvalidInput | InvalidData | UnexpectedEof | WriteZero | BrokenPipe | TimedOut | Other

text \<open>
  \<^verbatim>\<open>std::io::Error\<close>: either a raw OS error number (\<^verbatim>\<open>from_raw_os_error\<close>) or a kind with
  a message (\<^verbatim>\<open>Error::new\<close>).
\<close>

datatype io_error = Os int | Custom error_kind

primrec raw_os_error :: "io_error \<Rightarrow> int option" where
  "raw_os_error (Os e) = Some e"
| "raw_os_error (Custom k) = None"

abbreviation EPERM :: int where "EPERM \<equiv> 1"
abbreviation ENOENT :: int where "ENOENT \<equiv> 2"
abbreviation EINTR :: int where "EINTR \<equiv> 4"
abbreviation EIO :: int where "EIO \<equiv> 5"
abbreviation EBADF :: int where "EBADF \<equiv> 9"
abbreviation EAGAIN :: int where "EAGAIN \<equiv> 11"
abbreviation ENOMEM :: int where "ENOMEM \<equiv> 12"
abbreviation EACCES :: int where "EACCES \<equiv> 13"
abbreviation EEXIST :: int where "EEXIST \<equiv> 17"
abbreviation ENOTDIR :: int where "ENOTDIR \<equiv> 20"
abbreviation EINVAL :: int where "EINVAL \<equiv> 22"
abbreviation ENOTTY :: int where "ENOTTY \<equiv> 25"
abbreviation EROFS :: int where "EROFS \<equiv> 30"
abbreviation ENAMETOOLONG :: int where "ENAMETOOLONG \<equiv> 36"
abbreviation ENOSYS :: int where "ENOSYS \<equiv> 38"
abbreviation ENOTEMPTY :: int where "ENOTEMPTY \<equiv> 39"
abbreviation ENODATA :: int where "ENODATA \<equiv> 61"
abbreviation EPROTO :: int where "EPROTO \<equiv> 71"
abbreviation EOVERFLOW :: int where "EOVERFLOW \<equiv> 75"

datatype 'a res = Ok 'a | Err io_error | Panic

fun res_bind :: "'a res \<Rightarrow> ('a \<Rightarrow> 'b res) \<Rightarrow> 'b res" where
  "res_bind (Ok x) f = f x"
| "res_bind (Err e) f = Err e"
| "res_bind Panic f = Panic"

fun res_map :: "('a \<Rightarrow> 'b) \<Rightarrow> 'a res \<Rightarrow> 'b res" where
  "res_map f (Ok x) = Ok (f x)"
| "res_map f (Err e) = Err e"
| "res_map f Panic = Panic"

fun is_ok :: "'a res \<Rightarrow> bool" where
  "is_ok (Ok x) = True"
| "is_ok (Err e) = False"
| "is_ok Panic = False"

text \<open>
  A state-changing operation returns its result with the state it leaves, on the error
  paths too.
\<close>

type_synonym ('s, 'a) op = "'s \<Rightarrow> 'a res \<times> 's"

fun op_bind :: "'a res \<times> 's \<Rightarrow> ('a \<Rightarrow> 's \<Rightarrow> 'b res \<times> 's) \<Rightarrow> 'b res \<times> 's" where
  "op_bind (Ok x, s) f = f x s"
| "op_bind (Err e, s) f = (Err e, s)"
| "op_bind (Panic, s) f = (Panic, s)"

lemma res_bind_Ok_iff [simp]: "res_bind r f = Ok y \<longleftrightarrow> (\<exists>x. r = Ok x \<and> f x = Ok y)"
  by (cases r) auto

lemma res_map_Ok_iff [simp]: "res_map f r = Ok y \<longleftrightarrow> (\<exists>x. r = Ok x \<and> f x = y)"
  by (cases r) auto

lemma op_bind_Ok_iff [simp]:
  "op_bind m f = (Ok y, t) \<longleftrightarrow> (\<exists>x s. m = (Ok x, s) \<and> f x s = (Ok y, t))"
  by (cases m; cases "fst m") auto

lemma is_ok_iff: "is_ok r \<longleftrightarrow> (\<exists>x. r = Ok x)"
  by (cases r) auto

text \<open>A fallible function with an error type of its own.\<close>

datatype ('e, 'a) xresult = XOk 'a | XErr 'e | XPanic

fun xbind :: "('e, 'a) xresult \<Rightarrow> ('a \<Rightarrow> ('e, 'b) xresult) \<Rightarrow> ('e, 'b) xresult" where
  "xbind (XOk x) f = f x"
| "xbind (XErr e) f = XErr e"
| "xbind XPanic f = XPanic"

fun xmap_err :: "('e \<Rightarrow> 'f) \<Rightarrow> ('e, 'a) xresult \<Rightarrow> ('f, 'a) xresult" where
  "xmap_err f (XOk x) = XOk x"
| "xmap_err f (XErr e) = XErr (f e)"
| "xmap_err f XPanic = XPanic"

lemma xbind_XOk_iff [simp]: "xbind r f = XOk y \<longleftrightarrow> (\<exists>x. r = XOk x \<and> f x = XOk y)"
  by (cases r) auto

lemma xmap_err_XOk_iff [simp]: "xmap_err f r = XOk y \<longleftrightarrow> r = XOk y"
  by (cases r) auto

lemma xbind_XPanic_iff: "xbind r f = XPanic \<longleftrightarrow> r = XPanic \<or> (\<exists>x. r = XOk x \<and> f x = XPanic)"
  by (cases r) auto

section \<open>Words\<close>

lemma unat_u8_less [simp]: "unat (i :: u8) < 256"
  using unsigned_less [of i] by simp

lemma unat_Suc_word:
  fixes w :: "'a::len word"
  assumes "unat w + 1 < 2 ^ LENGTH('a)"
  shows "unat (w + 1) = unat w + 1"
  using assms by (simp add: unat_word_ariths)

lemma word_less_add_one:
  fixes w :: "'a::len word"
  assumes "unat w + 1 < 2 ^ LENGTH('a)"
  shows "w < w + 1"
  using unat_Suc_word [OF assms] by (simp add: word_less_nat_alt)

text \<open>Rust's \<^verbatim>\<open>checked_add\<close>, \<^verbatim>\<open>saturating_add\<close> and \<^verbatim>\<open>saturating_sub\<close>.\<close>

definition checked_add :: "'a::len word \<Rightarrow> 'a word \<Rightarrow> 'a word option" where
  "checked_add a b = (if unat a + unat b < 2 ^ LENGTH('a) then Some (a + b) else None)"

definition saturating_add :: "'a::len word \<Rightarrow> 'a word \<Rightarrow> 'a word" where
  "saturating_add a b = (if unat a + unat b < 2 ^ LENGTH('a) then a + b else - 1)"

definition saturating_sub :: "'a::len word \<Rightarrow> 'a word \<Rightarrow> 'a word" where
  "saturating_sub a b = (if b \<le> a then a - b else 0)"

lemma checked_add_Some_iff:
  fixes a b c :: "'a::len word"
  shows "checked_add a b = Some c \<longleftrightarrow> unat c = unat a + unat b"
proof
  assume "checked_add a b = Some c"
  then show "unat c = unat a + unat b"
    by (auto simp: checked_add_def unat_word_ariths split: if_splits)
next
  assume c: "unat c = unat a + unat b"
  then have "unat a + unat b < 2 ^ LENGTH('a)"
    by (metis unsigned_less)
  moreover from this have "a + b = c"
    by (simp add: word_unat_eq_iff unat_word_ariths c)
  ultimately show "checked_add a b = Some c"
    by (simp add: checked_add_def)
qed

lemma unat_saturating_sub: "unat (saturating_sub a b) = unat a - unat b"
  by (auto simp: saturating_sub_def word_le_nat_alt unat_sub)

lemma saturating_sub_zero [simp]: "saturating_sub a 0 = a"
  by (simp add: saturating_sub_def)

section \<open>Bit sets\<close>

text \<open>
  A \<^verbatim>\<open>bitflags!\<close> type is its word of bits: \<^verbatim>\<open>contains\<close>, \<^verbatim>\<open>remove\<close>, \<^verbatim>\<open>is_empty\<close>,
  \<^verbatim>\<open>from_bits\<close> and \<^verbatim>\<open>from_bits_truncate\<close>, the last two relative to the union of the
  declared flags.
\<close>

definition flags_contains :: "'a::len word \<Rightarrow> 'a word \<Rightarrow> bool" where
  "flags_contains a b \<longleftrightarrow> a AND b = b"

definition flags_remove :: "'a::len word \<Rightarrow> 'a word \<Rightarrow> 'a word" where
  "flags_remove a b = a AND NOT b"

definition flags_is_empty :: "'a::len word \<Rightarrow> bool" where
  "flags_is_empty a \<longleftrightarrow> a = 0"

definition flags_from_bits :: "'a::len word \<Rightarrow> 'a word \<Rightarrow> 'a word option" where
  "flags_from_bits all b = (if b AND NOT all = 0 then Some b else None)"

definition flags_from_bits_truncate :: "'a::len word \<Rightarrow> 'a word \<Rightarrow> 'a word" where
  "flags_from_bits_truncate all b = b AND all"

lemma flags_contains_bit:
  "flags_contains a b \<longleftrightarrow> (\<forall>n. bit b n \<longrightarrow> bit a n)"
  unfolding flags_contains_def bit_eq_iff
  by (auto simp: bit_simps dest: bit_imp_le_length)

lemma flags_remove_contains: "flags_contains a (flags_remove a b)"
  by (auto simp: flags_contains_bit flags_remove_def bit_simps)

lemma flags_and_contains: "flags_contains b (a AND b)"
  by (auto simp: flags_contains_bit bit_simps)

lemma flags_contains_trans:
  "flags_contains a b \<Longrightarrow> flags_contains b c \<Longrightarrow> flags_contains a c"
  by (auto simp: flags_contains_bit)

section \<open>Lists and maps\<close>

text \<open>
  \<^verbatim>\<open>iter().find\<close> is \<^const>\<open>List.find\<close>; removing the first element that satisfies a
  predicate is \<^verbatim>\<open>position\<close> followed by \<^verbatim>\<open>remove\<close>.
\<close>

fun remove_first :: "('a \<Rightarrow> bool) \<Rightarrow> 'a list \<Rightarrow> 'a list option" where
  "remove_first p [] = None"
| "remove_first p (x # xs) = (if p x then Some xs else map_option ((#) x) (remove_first p xs))"

lemma remove_first_None_iff: "remove_first p xs = None \<longleftrightarrow> (\<forall>x\<in>set xs. \<not> p x)"
  by (induction xs) auto

lemma remove_first_Some_set:
  "remove_first p xs = Some ys \<Longrightarrow> set ys \<subseteq> set xs"
  by (induction xs arbitrary: ys) (auto split: if_splits)

lemma remove_first_eq_filter:
  assumes "remove_first p xs = Some ys"
    and "\<And>x y. x \<in> set xs \<Longrightarrow> y \<in> set xs \<Longrightarrow> p x \<Longrightarrow> p y \<Longrightarrow> x = y"
    and "distinct xs"
  shows "ys = filter (\<lambda>x. \<not> p x) xs"
  using assms
proof (induction xs arbitrary: ys)
  case Nil
  then show ?case by simp
next
  case (Cons x xs)
  show ?case
  proof (cases "p x")
    case True
    with Cons.prems have "\<forall>y\<in>set xs. \<not> p y" by auto
    then have "filter (\<lambda>x. \<not> p x) xs = xs" by (simp add: filter_id_conv)
    with True Cons.prems(1) show ?thesis by simp
  next
    case False
    with Cons.prems(1) obtain zs where "remove_first p xs = Some zs" "ys = x # zs"
      by auto
    with Cons False show ?thesis by auto
  qed
qed

lemma find_None_iff_map: "List.find (\<lambda>c. f c = k) xs = None \<longleftrightarrow> k \<notin> f ` set xs"
  by (auto simp: find_None_iff image_iff)

lemma find_distinct:
  assumes "distinct (map f xs)" and "x \<in> set xs"
  shows "List.find (\<lambda>c. f c = f x) xs = Some x"
  using assms by (induction xs) (auto simp: rev_image_eqI)

lemma find_append:
  "List.find p (xs @ ys) = (case List.find p xs of None \<Rightarrow> List.find p ys | Some x \<Rightarrow> Some x)"
  by (induction xs) auto

lemma find_Some_in: "List.find p xs = Some x \<Longrightarrow> x \<in> set xs \<and> p x"
  by (induction xs) (auto split: if_splits)


section \<open>Strings of the standard library\<close>

text \<open>\<^verbatim>\<open>slice::split\<close> on one separator: the pieces between its occurrences.\<close>

fun split_on :: "'a \<Rightarrow> 'a list \<Rightarrow> 'a list list" where
  "split_on d [] = [[]]"
| "split_on d (x # xs) =
     (if x = d then [] # split_on d xs
      else case split_on d xs of [] \<Rightarrow> [[x]] | y # ys \<Rightarrow> (x # y) # ys)"

lemma split_on_nonempty [simp]: "split_on d xs \<noteq> []"
  by (induction xs) (auto split: list.splits)

lemma split_on_notin: "ys \<in> set (split_on d xs) \<Longrightarrow> d \<notin> set ys"
proof (induction xs arbitrary: ys)
  case Nil
  then show ?case by simp
next
  case (Cons x xs)
  then show ?case by (auto split: if_splits list.splits)
qed

lemma split_on_append:
  "d \<notin> set xs \<Longrightarrow> split_on d (xs @ d # ys) = xs # split_on d ys"
  by (induction xs) auto

text \<open>
  Well-formed UTF-8, as \<^verbatim>\<open>std::str::from_utf8\<close> and \<^verbatim>\<open>CStr::to_str\<close> check it: the byte
  ranges of the Unicode standard, with no overlong form and no surrogate.
\<close>

definition utf8_cont :: "nat \<Rightarrow> bool" where
  "utf8_cont b \<longleftrightarrow> 0x80 \<le> b \<and> b \<le> 0xBF"

fun utf8_valid_bytes :: "nat list \<Rightarrow> bool" where
  "utf8_valid_bytes [] = True"
| "utf8_valid_bytes (b # bs) =
     (if b < 0x80 then utf8_valid_bytes bs
      else if 0xC2 \<le> b \<and> b \<le> 0xDF then
        (case bs of c # r \<Rightarrow> utf8_cont c \<and> utf8_valid_bytes r | _ \<Rightarrow> False)
      else if 0xE0 \<le> b \<and> b \<le> 0xEF then
        (case bs of
           c # d # r \<Rightarrow>
             (if b = 0xE0 then 0xA0 \<le> c \<and> c \<le> 0xBF
              else if b = 0xED then 0x80 \<le> c \<and> c \<le> 0x9F else utf8_cont c) \<and>
             utf8_cont d \<and> utf8_valid_bytes r
         | _ \<Rightarrow> False)
      else if 0xF0 \<le> b \<and> b \<le> 0xF4 then
        (case bs of
           c # d # e # r \<Rightarrow>
             (if b = 0xF0 then 0x90 \<le> c \<and> c \<le> 0xBF
              else if b = 0xF4 then 0x80 \<le> c \<and> c \<le> 0x8F else utf8_cont c) \<and>
             utf8_cont d \<and> utf8_cont e \<and> utf8_valid_bytes r
         | _ \<Rightarrow> False)
      else False)"

definition utf8_valid :: "cname \<Rightarrow> bool" where
  "utf8_valid s = utf8_valid_bytes (map of_char s)"

lemma utf8_valid_ascii: "\<forall>c\<in>set s. of_char c < (0x80::nat) \<Longrightarrow> utf8_valid s"
  unfolding utf8_valid_def by (induction s) auto

end
