(* ===== verification/Fuse_Types.thy ===== *)
theory Fuse_Types
  imports Fuse_Prelude
begin

text \<open>
  The data of the FUSE protocol and of the file system interface: the flag constants of
  \<^verbatim>\<open>abi/fuse_abi_linux.rs\<close>, the structures the file system methods exchange
  (\<^verbatim>\<open>api/filesystem/mod.rs\<close>), and the trait \<^verbatim>\<open>FileSystem\<close> of
  \<^verbatim>\<open>api/filesystem/sync_io.rs\<close> as a record of functions, with its default methods. A file
  system is a value of the state type \<open>'s\<close> together with such a record; the mutable objects
  a caller lends to a method (the reply writer, the request reader, the closure that
  collects directory entries) are one value of type \<open>'c\<close> that the method returns updated.
\<close>

section \<open>Flags\<close>

type_synonym fs_options = u64
type_synonym open_options = u32
type_synonym setattr_valid = u32

definition ASYNC_READ :: fs_options where "ASYNC_READ = 0x1"
definition POSIX_LOCKS :: fs_options where "POSIX_LOCKS = 0x2"
definition FILE_OPS :: fs_options where "FILE_OPS = 0x4"
definition ATOMIC_O_TRUNC :: fs_options where "ATOMIC_O_TRUNC = 0x8"
definition EXPORT_SUPPORT :: fs_options where "EXPORT_SUPPORT = 0x10"
definition BIG_WRITES :: fs_options where "BIG_WRITES = 0x20"
definition DONT_MASK :: fs_options where "DONT_MASK = 0x40"
definition SPLICE_WRITE :: fs_options where "SPLICE_WRITE = 0x80"
definition SPLICE_MOVE :: fs_options where "SPLICE_MOVE = 0x100"
definition SPLICE_READ :: fs_options where "SPLICE_READ = 0x200"
definition FLOCK_LOCKS :: fs_options where "FLOCK_LOCKS = 0x400"
definition HAS_IOCTL_DIR :: fs_options where "HAS_IOCTL_DIR = 0x800"
definition AUTO_INVAL_DATA :: fs_options where "AUTO_INVAL_DATA = 0x1000"
definition DO_READDIRPLUS :: fs_options where "DO_READDIRPLUS = 0x2000"
definition READDIRPLUS_AUTO :: fs_options where "READDIRPLUS_AUTO = 0x4000"
definition ASYNC_DIO :: fs_options where "ASYNC_DIO = 0x8000"
definition WRITEBACK_CACHE :: fs_options where "WRITEBACK_CACHE = 0x10000"
definition ZERO_MESSAGE_OPEN :: fs_options where "ZERO_MESSAGE_OPEN = 0x20000"
definition PARALLEL_DIROPS :: fs_options where "PARALLEL_DIROPS = 0x40000"
definition HANDLE_KILLPRIV :: fs_options where "HANDLE_KILLPRIV = 0x80000"
definition POSIX_ACL :: fs_options where "POSIX_ACL = 0x100000"
definition ABORT_ERROR :: fs_options where "ABORT_ERROR = 0x200000"
definition MAX_PAGES :: fs_options where "MAX_PAGES = 0x400000"
definition CACHE_SYMLINKS :: fs_options where "CACHE_SYMLINKS = 0x800000"
definition ZERO_MESSAGE_OPENDIR :: fs_options where "ZERO_MESSAGE_OPENDIR = 0x1000000"
definition EXPLICIT_INVAL_DATA :: fs_options where "EXPLICIT_INVAL_DATA = 0x2000000"
definition MAP_ALIGNMENT :: fs_options where "MAP_ALIGNMENT = 0x4000000"
definition SUBMOUNTS :: fs_options where "SUBMOUNTS = 0x8000000"
definition HANDLE_KILLPRIV_V2 :: fs_options where "HANDLE_KILLPRIV_V2 = 0x10000000"
definition INIT_EXT :: fs_options where "INIT_EXT = 0x40000000"
definition PERFILE_DAX :: fs_options where "PERFILE_DAX = 0x200000000"
definition HAS_RESEND :: fs_options where "HAS_RESEND = 0x8000000000"
definition FD_PASSTHROUGH :: fs_options where "FD_PASSTHROUGH = 0x8000000000000000"

lemmas fs_option_defs =
  ASYNC_READ_def POSIX_LOCKS_def FILE_OPS_def ATOMIC_O_TRUNC_def EXPORT_SUPPORT_def
  BIG_WRITES_def DONT_MASK_def SPLICE_WRITE_def SPLICE_MOVE_def SPLICE_READ_def
  FLOCK_LOCKS_def HAS_IOCTL_DIR_def AUTO_INVAL_DATA_def DO_READDIRPLUS_def
  READDIRPLUS_AUTO_def ASYNC_DIO_def WRITEBACK_CACHE_def ZERO_MESSAGE_OPEN_def
  PARALLEL_DIROPS_def HANDLE_KILLPRIV_def POSIX_ACL_def ABORT_ERROR_def MAX_PAGES_def
  CACHE_SYMLINKS_def ZERO_MESSAGE_OPENDIR_def EXPLICIT_INVAL_DATA_def MAP_ALIGNMENT_def
  SUBMOUNTS_def HANDLE_KILLPRIV_V2_def INIT_EXT_def PERFILE_DAX_def HAS_RESEND_def
  FD_PASSTHROUGH_def

text \<open>The union of the flags the \<^verbatim>\<open>bitflags!\<close> block of \<^verbatim>\<open>FsOptions\<close> declares.\<close>

definition fs_options_all :: fs_options where
  "fs_options_all =
     ASYNC_READ OR POSIX_LOCKS OR FILE_OPS OR ATOMIC_O_TRUNC OR EXPORT_SUPPORT OR
     BIG_WRITES OR DONT_MASK OR SPLICE_WRITE OR SPLICE_MOVE OR SPLICE_READ OR
     FLOCK_LOCKS OR HAS_IOCTL_DIR OR AUTO_INVAL_DATA OR DO_READDIRPLUS OR
     READDIRPLUS_AUTO OR ASYNC_DIO OR WRITEBACK_CACHE OR ZERO_MESSAGE_OPEN OR
     PARALLEL_DIROPS OR HANDLE_KILLPRIV OR POSIX_ACL OR ABORT_ERROR OR MAX_PAGES OR
     CACHE_SYMLINKS OR ZERO_MESSAGE_OPENDIR OR EXPLICIT_INVAL_DATA OR MAP_ALIGNMENT OR
     SUBMOUNTS OR HANDLE_KILLPRIV_V2 OR FD_PASSTHROUGH OR INIT_EXT OR PERFILE_DAX OR
     HAS_RESEND"

definition ROOT_ID :: u64 where "ROOT_ID = 1"

section \<open>Structures\<close>

text \<open>\<^verbatim>\<open>std::time::Duration\<close>: seconds and nanoseconds.\<close>

type_synonym duration = "u64 \<times> u32"

definition duration_from_secs :: "u64 \<Rightarrow> duration" where
  "duration_from_secs n = (n, 0)"

text \<open>\<^verbatim>\<open>libc::stat64\<close>; its signed fields are words read in two's complement.\<close>

record stat64 =
  st_dev :: u64
  st_ino :: u64
  st_mode :: u32
  st_nlink :: u64
  st_uid :: u32
  st_gid :: u32
  st_rdev :: u64
  st_size :: i64
  st_blksize :: i64
  st_blocks :: i64
  st_atime :: i64
  st_atime_nsec :: i64
  st_mtime :: i64
  st_mtime_nsec :: i64
  st_ctime :: i64
  st_ctime_nsec :: i64

definition stat64_zeroed :: stat64 where
  "stat64_zeroed =
     \<lparr>st_dev = 0, st_ino = 0, st_mode = 0, st_nlink = 0, st_uid = 0, st_gid = 0, st_rdev = 0,
      st_size = 0, st_blksize = 0, st_blocks = 0, st_atime = 0, st_atime_nsec = 0,
      st_mtime = 0, st_mtime_nsec = 0, st_ctime = 0, st_ctime_nsec = 0\<rparr>"

record attr =
  at_ino :: u64
  at_size :: u64
  at_blocks :: u64
  at_atime :: u64
  at_mtime :: u64
  at_ctime :: u64
  at_atimensec :: u32
  at_mtimensec :: u32
  at_ctimensec :: u32
  at_mode :: u32
  at_nlink :: u32
  at_uid :: u32
  at_gid :: u32
  at_rdev :: u32
  at_blksize :: u32
  at_flags :: u32

definition attr_default :: attr where
  "attr_default =
     \<lparr>at_ino = 0, at_size = 0, at_blocks = 0, at_atime = 0, at_mtime = 0, at_ctime = 0,
      at_atimensec = 0, at_mtimensec = 0, at_ctimensec = 0, at_mode = 0, at_nlink = 0,
      at_uid = 0, at_gid = 0, at_rdev = 0, at_blksize = 0, at_flags = 0\<rparr>"

definition attr_with_flags :: "stat64 \<Rightarrow> u32 \<Rightarrow> attr" where
  "attr_with_flags st flags =
     \<lparr>at_ino = st_ino st, at_size = st_size st, at_blocks = st_blocks st,
      at_atime = st_atime st, at_mtime = st_mtime st, at_ctime = st_ctime st,
      at_atimensec = ucast (st_atime_nsec st), at_mtimensec = ucast (st_mtime_nsec st),
      at_ctimensec = ucast (st_ctime_nsec st), at_mode = st_mode st,
      at_nlink = ucast (st_nlink st), at_uid = st_uid st, at_gid = st_gid st,
      at_rdev = ucast (st_rdev st), at_blksize = ucast (st_blksize st), at_flags = flags\<rparr>"

definition attr_from_stat64 :: "stat64 \<Rightarrow> attr" where
  "attr_from_stat64 st = attr_with_flags st 0"

definition stat64_from_attr :: "attr \<Rightarrow> stat64" where
  "stat64_from_attr a =
     stat64_zeroed
       \<lparr>st_ino := at_ino a, st_size := at_size a, st_blocks := at_blocks a,
        st_atime := at_atime a, st_mtime := at_mtime a, st_ctime := at_ctime a,
        st_atime_nsec := ucast (at_atimensec a), st_mtime_nsec := ucast (at_mtimensec a),
        st_ctime_nsec := ucast (at_ctimensec a), st_mode := at_mode a,
        st_nlink := ucast (at_nlink a), st_uid := at_uid a, st_gid := at_gid a,
        st_rdev := ucast (at_rdev a), st_blksize := ucast (at_blksize a)\<rparr>"

record entry =
  e_inode :: u64
  e_generation :: u64
  e_attr :: stat64
  e_attr_flags :: u32
  e_attr_timeout :: duration
  e_entry_timeout :: duration

definition entry_default :: entry where
  "entry_default =
     \<lparr>e_inode = 0, e_generation = 0, e_attr = stat64_zeroed, e_attr_flags = 0,
      e_attr_timeout = (0, 0), e_entry_timeout = (0, 0)\<rparr>"

record dir_entry =
  de_ino :: u64
  de_offset :: u64
  de_type :: u32
  de_name :: cname

record file_lock =
  fl_start :: u64
  fl_end :: u64
  fl_type :: u32
  fl_pid :: u32

record ioctl_data =
  io_result :: i32
  io_data :: "bytes option"

datatype getxattr_reply = GxValue bytes | GxCount u32
datatype listxattr_reply = LxNames bytes | LxCount u32

record fuse_context =
  ctx_uid :: u32
  ctx_gid :: u32
  ctx_pid :: i32

definition context_default :: fuse_context where
  "context_default = \<lparr>ctx_uid = 0, ctx_gid = 0, ctx_pid = 0\<rparr>"

record create_in =
  ci_flags :: u32
  ci_mode :: u32
  ci_umask :: u32
  ci_fuse_flags :: u32

record statvfs64 =
  f_bsize :: u64
  f_frsize :: u64
  f_blocks :: u64
  f_bfree :: u64
  f_bavail :: u64
  f_files :: u64
  f_ffree :: u64
  f_favail :: u64
  f_fsid :: u64
  f_flag :: u64
  f_namemax :: u64

definition statvfs64_zeroed :: statvfs64 where
  "statvfs64_zeroed =
     \<lparr>f_bsize = 0, f_frsize = 0, f_blocks = 0, f_bfree = 0, f_bavail = 0, f_files = 0,
      f_ffree = 0, f_favail = 0, f_fsid = 0, f_flag = 0, f_namemax = 0\<rparr>"

record removemapping_one =
  rm_moffset :: u64
  rm_len :: u64

section \<open>The trait FileSystem\<close>

text \<open>
  One field per method, in the order of the trait. The methods that lend a mutable object
  (\<open>read\<close>, \<open>write\<close>, \<open>readdir\<close>, \<open>readdirplus\<close>, \<open>setupmapping\<close>, \<open>removemapping\<close>) take and
  return the caller's \<open>'c\<close>.
\<close>

record ('s, 'c) fs_ops =
  fs_init :: "fs_options \<Rightarrow> ('s, fs_options) op"
  fs_destroy :: "'s \<Rightarrow> 's"
  fs_lookup :: "fuse_context \<Rightarrow> u64 \<Rightarrow> cname \<Rightarrow> ('s, entry) op"
  fs_forget :: "fuse_context \<Rightarrow> u64 \<Rightarrow> u64 \<Rightarrow> 's \<Rightarrow> 's"
  fs_batch_forget :: "fuse_context \<Rightarrow> (u64 \<times> u64) list \<Rightarrow> 's \<Rightarrow> 's"
  fs_getattr :: "fuse_context \<Rightarrow> u64 \<Rightarrow> u64 option \<Rightarrow> ('s, stat64 \<times> duration) op"
  fs_setattr :: "fuse_context \<Rightarrow> u64 \<Rightarrow> stat64 \<Rightarrow> u64 option \<Rightarrow> setattr_valid \<Rightarrow>
                   ('s, stat64 \<times> duration) op"
  fs_readlink :: "fuse_context \<Rightarrow> u64 \<Rightarrow> ('s, bytes) op"
  fs_symlink :: "fuse_context \<Rightarrow> cname \<Rightarrow> u64 \<Rightarrow> cname \<Rightarrow> ('s, entry) op"
  fs_mknod :: "fuse_context \<Rightarrow> u64 \<Rightarrow> cname \<Rightarrow> u32 \<Rightarrow> u32 \<Rightarrow> u32 \<Rightarrow> ('s, entry) op"
  fs_mkdir :: "fuse_context \<Rightarrow> u64 \<Rightarrow> cname \<Rightarrow> u32 \<Rightarrow> u32 \<Rightarrow> ('s, entry) op"
  fs_unlink :: "fuse_context \<Rightarrow> u64 \<Rightarrow> cname \<Rightarrow> ('s, unit) op"
  fs_rmdir :: "fuse_context \<Rightarrow> u64 \<Rightarrow> cname \<Rightarrow> ('s, unit) op"
  fs_rename :: "fuse_context \<Rightarrow> u64 \<Rightarrow> cname \<Rightarrow> u64 \<Rightarrow> cname \<Rightarrow> u32 \<Rightarrow> ('s, unit) op"
  fs_link :: "fuse_context \<Rightarrow> u64 \<Rightarrow> u64 \<Rightarrow> cname \<Rightarrow> ('s, entry) op"
  fs_open :: "fuse_context \<Rightarrow> u64 \<Rightarrow> u32 \<Rightarrow> u32 \<Rightarrow>
                ('s, u64 option \<times> open_options \<times> u32 option) op"
  fs_create :: "fuse_context \<Rightarrow> u64 \<Rightarrow> cname \<Rightarrow> create_in \<Rightarrow>
                  ('s, entry \<times> u64 option \<times> open_options \<times> u32 option) op"
  fs_read :: "fuse_context \<Rightarrow> u64 \<Rightarrow> u64 \<Rightarrow> 'c \<Rightarrow> u32 \<Rightarrow> u64 \<Rightarrow> u64 option \<Rightarrow> u32 \<Rightarrow>
                's \<Rightarrow> usize res \<times> 'c \<times> 's"
  fs_write :: "fuse_context \<Rightarrow> u64 \<Rightarrow> u64 \<Rightarrow> 'c \<Rightarrow> u32 \<Rightarrow> u64 \<Rightarrow> u64 option \<Rightarrow> bool \<Rightarrow> u32 \<Rightarrow> u32 \<Rightarrow>
                 's \<Rightarrow> usize res \<times> 'c \<times> 's"
  fs_flush :: "fuse_context \<Rightarrow> u64 \<Rightarrow> u64 \<Rightarrow> u64 \<Rightarrow> ('s, unit) op"
  fs_fsync :: "fuse_context \<Rightarrow> u64 \<Rightarrow> bool \<Rightarrow> u64 \<Rightarrow> ('s, unit) op"
  fs_fallocate :: "fuse_context \<Rightarrow> u64 \<Rightarrow> u64 \<Rightarrow> u32 \<Rightarrow> u64 \<Rightarrow> u64 \<Rightarrow> ('s, unit) op"
  fs_release :: "fuse_context \<Rightarrow> u64 \<Rightarrow> u32 \<Rightarrow> u64 \<Rightarrow> bool \<Rightarrow> bool \<Rightarrow> u64 option \<Rightarrow> ('s, unit) op"
  fs_statfs :: "fuse_context \<Rightarrow> u64 \<Rightarrow> ('s, statvfs64) op"
  fs_setxattr :: "fuse_context \<Rightarrow> u64 \<Rightarrow> cname \<Rightarrow> bytes \<Rightarrow> u32 \<Rightarrow> ('s, unit) op"
  fs_getxattr :: "fuse_context \<Rightarrow> u64 \<Rightarrow> cname \<Rightarrow> u32 \<Rightarrow> ('s, getxattr_reply) op"
  fs_listxattr :: "fuse_context \<Rightarrow> u64 \<Rightarrow> u32 \<Rightarrow> ('s, listxattr_reply) op"
  fs_removexattr :: "fuse_context \<Rightarrow> u64 \<Rightarrow> cname \<Rightarrow> ('s, unit) op"
  fs_opendir :: "fuse_context \<Rightarrow> u64 \<Rightarrow> u32 \<Rightarrow> ('s, u64 option \<times> open_options) op"
  fs_readdir :: "fuse_context \<Rightarrow> u64 \<Rightarrow> u64 \<Rightarrow> u32 \<Rightarrow> u64 \<Rightarrow>
                   (dir_entry \<Rightarrow> ('c, usize) op) \<Rightarrow> 'c \<Rightarrow> 's \<Rightarrow> unit res \<times> 'c \<times> 's"
  fs_readdirplus :: "fuse_context \<Rightarrow> u64 \<Rightarrow> u64 \<Rightarrow> u32 \<Rightarrow> u64 \<Rightarrow>
                       (dir_entry \<Rightarrow> entry \<Rightarrow> ('c, usize) op) \<Rightarrow> 'c \<Rightarrow> 's \<Rightarrow> unit res \<times> 'c \<times> 's"
  fs_fsyncdir :: "fuse_context \<Rightarrow> u64 \<Rightarrow> bool \<Rightarrow> u64 \<Rightarrow> ('s, unit) op"
  fs_releasedir :: "fuse_context \<Rightarrow> u64 \<Rightarrow> u32 \<Rightarrow> u64 \<Rightarrow> ('s, unit) op"
  fs_setupmapping :: "fuse_context \<Rightarrow> u64 \<Rightarrow> u64 \<Rightarrow> u64 \<Rightarrow> u64 \<Rightarrow> u64 \<Rightarrow> u64 \<Rightarrow> 'c \<Rightarrow>
                        's \<Rightarrow> unit res \<times> 'c \<times> 's"
  fs_removemapping :: "fuse_context \<Rightarrow> u64 \<Rightarrow> removemapping_one list \<Rightarrow> 'c \<Rightarrow>
                         's \<Rightarrow> unit res \<times> 'c \<times> 's"
  fs_access :: "fuse_context \<Rightarrow> u64 \<Rightarrow> u32 \<Rightarrow> ('s, unit) op"
  fs_lseek :: "fuse_context \<Rightarrow> u64 \<Rightarrow> u64 \<Rightarrow> u64 \<Rightarrow> u32 \<Rightarrow> ('s, u64) op"
  fs_getlk :: "fuse_context \<Rightarrow> u64 \<Rightarrow> u64 \<Rightarrow> u64 \<Rightarrow> file_lock \<Rightarrow> u32 \<Rightarrow> ('s, file_lock) op"
  fs_setlk :: "fuse_context \<Rightarrow> u64 \<Rightarrow> u64 \<Rightarrow> u64 \<Rightarrow> file_lock \<Rightarrow> u32 \<Rightarrow> ('s, unit) op"
  fs_setlkw :: "fuse_context \<Rightarrow> u64 \<Rightarrow> u64 \<Rightarrow> u64 \<Rightarrow> file_lock \<Rightarrow> u32 \<Rightarrow> ('s, unit) op"
  fs_ioctl :: "fuse_context \<Rightarrow> u64 \<Rightarrow> u64 \<Rightarrow> u32 \<Rightarrow> u32 \<Rightarrow> ioctl_data \<Rightarrow> u32 \<Rightarrow> ('s, ioctl_data) op"
  fs_bmap :: "fuse_context \<Rightarrow> u64 \<Rightarrow> u64 \<Rightarrow> u32 \<Rightarrow> ('s, u64) op"
  fs_poll :: "fuse_context \<Rightarrow> u64 \<Rightarrow> u64 \<Rightarrow> u64 \<Rightarrow> u32 \<Rightarrow> u32 \<Rightarrow> ('s, u32) op"
  fs_notify_reply :: "('s, unit) op"
  fs_id_remap :: "fuse_context \<Rightarrow> 's \<Rightarrow> fuse_context res"

text \<open>\<^verbatim>\<open>BackendFileSystem\<close> adds \<^verbatim>\<open>mount\<close>: the root entry and the largest inode number.\<close>

record ('s, 'c) backend_ops = "('s, 'c) fs_ops" +
  be_mount :: "('s, entry \<times> u64) op"

text \<open>
  \<^verbatim>\<open>batch_forget\<close> by default forgets the requests one by one through the file system's own
  \<^verbatim>\<open>forget\<close>, which is the parameter here.
\<close>

fun default_batch_forget ::
  "(fuse_context \<Rightarrow> u64 \<Rightarrow> u64 \<Rightarrow> 's \<Rightarrow> 's) \<Rightarrow> fuse_context \<Rightarrow> (u64 \<times> u64) list \<Rightarrow> 's \<Rightarrow> 's" where
  "default_batch_forget forget ctx [] s = s"
| "default_batch_forget forget ctx ((inode, count) # requests) s =
     default_batch_forget forget ctx requests (forget ctx inode count s)"

definition default_fs_ops :: "('s, 'c) fs_ops" where
  "default_fs_ops = \<lparr>
     fs_init = (\<lambda>capable s. (Ok 0, s)),
     fs_destroy = (\<lambda>s. s),
     fs_lookup = (\<lambda>ctx parent name s. (Err (Os ENOSYS), s)),
     fs_forget = (\<lambda>ctx inode count s. s),
     fs_batch_forget = default_batch_forget (\<lambda>ctx inode count s. s),
     fs_getattr = (\<lambda>ctx inode handle s. (Err (Os ENOSYS), s)),
     fs_setattr = (\<lambda>ctx inode attr handle valid s. (Err (Os ENOSYS), s)),
     fs_readlink = (\<lambda>ctx inode s. (Err (Os ENOSYS), s)),
     fs_symlink = (\<lambda>ctx linkname parent name s. (Err (Os ENOSYS), s)),
     fs_mknod = (\<lambda>ctx inode name mode rdev umask s. (Err (Os ENOSYS), s)),
     fs_mkdir = (\<lambda>ctx parent name mode umask s. (Err (Os ENOSYS), s)),
     fs_unlink = (\<lambda>ctx parent name s. (Err (Os ENOSYS), s)),
     fs_rmdir = (\<lambda>ctx parent name s. (Err (Os ENOSYS), s)),
     fs_rename = (\<lambda>ctx olddir oldname newdir newname flags s. (Err (Os ENOSYS), s)),
     fs_link = (\<lambda>ctx inode newparent newname s. (Err (Os ENOSYS), s)),
     fs_open = (\<lambda>ctx inode flags fuse_flags s. (Ok (None, 0, None), s)),
     fs_create = (\<lambda>ctx parent name args s. (Err (Os ENOSYS), s)),
     fs_read = (\<lambda>ctx inode handle w size offset lock_owner flags s.
                  (Err (Os ENOSYS), w, s)),
     fs_write = (\<lambda>ctx inode handle r size offset lock_owner delayed_write flags fuse_flags s.
                  (Err (Os ENOSYS), r, s)),
     fs_flush = (\<lambda>ctx inode handle lock_owner s. (Err (Os ENOSYS), s)),
     fs_fsync = (\<lambda>ctx inode datasync handle s. (Err (Os ENOSYS), s)),
     fs_fallocate = (\<lambda>ctx inode handle mode offset len s. (Err (Os ENOSYS), s)),
     fs_release = (\<lambda>ctx inode flags handle flush flock_release lock_owner s.
                     (Err (Os ENOSYS), s)),
     fs_statfs = (\<lambda>ctx inode s. (Ok (statvfs64_zeroed\<lparr>f_namemax := 255, f_bsize := 512\<rparr>), s)),
     fs_setxattr = (\<lambda>ctx inode name value flags s. (Err (Os ENOSYS), s)),
     fs_getxattr = (\<lambda>ctx inode name size s. (Err (Os ENOSYS), s)),
     fs_listxattr = (\<lambda>ctx inode size s. (Err (Os ENOSYS), s)),
     fs_removexattr = (\<lambda>ctx inode name s. (Err (Os ENOSYS), s)),
     fs_opendir = (\<lambda>ctx inode flags s. (Ok (None, 0), s)),
     fs_readdir = (\<lambda>ctx inode handle size offset add_entry c s. (Err (Os ENOSYS), c, s)),
     fs_readdirplus = (\<lambda>ctx inode handle size offset add_entry c s. (Err (Os ENOSYS), c, s)),
     fs_fsyncdir = (\<lambda>ctx inode datasync handle s. (Err (Os ENOSYS), s)),
     fs_releasedir = (\<lambda>ctx inode flags handle s. (Err (Os ENOSYS), s)),
     fs_setupmapping = (\<lambda>ctx inode handle foffset len flags moffset vu_req s.
                          (Err (Os ENOSYS), vu_req, s)),
     fs_removemapping = (\<lambda>ctx inode requests vu_req s. (Err (Os ENOSYS), vu_req, s)),
     fs_access = (\<lambda>ctx inode mask s. (Err (Os ENOSYS), s)),
     fs_lseek = (\<lambda>ctx inode handle offset whence s. (Err (Os ENOSYS), s)),
     fs_getlk = (\<lambda>ctx inode handle owner lock flags s. (Err (Os ENOSYS), s)),
     fs_setlk = (\<lambda>ctx inode handle owner lock flags s. (Err (Os ENOSYS), s)),
     fs_setlkw = (\<lambda>ctx inode handle owner lock flags s. (Err (Os ENOSYS), s)),
     fs_ioctl = (\<lambda>ctx inode handle flags cmd data out_size s. (Err (Os ENOTTY), s)),
     fs_bmap = (\<lambda>ctx inode block blocksize s. (Err (Os ENOSYS), s)),
     fs_poll = (\<lambda>ctx inode handle khandle flags events s. (Err (Os ENOSYS), s)),
     fs_notify_reply = (\<lambda>s. (Err (Os ENOSYS), s)),
     fs_id_remap = (\<lambda>ctx s. Ok ctx)\<rparr>"

section \<open>Conversions between stat64 and Attr\<close>

text \<open>
  The attributes that reach the client are the ones a \<open>stat64\<close> built from an \<open>attr\<close>
  holds: converting forth and back loses only the flags.
\<close>

lemma ucast_ucast_32_64 [simp]: "ucast (ucast (x :: u32) :: u64) = x"
  by (rule bit_word_eqI) (auto simp: bit_simps dest: bit_imp_le_length)

lemma attr_stat64_roundtrip:
  "attr_with_flags (stat64_from_attr a) flags = a\<lparr>at_flags := flags\<rparr>"
  by (cases a) (simp add: attr_with_flags_def stat64_from_attr_def stat64_zeroed_def)

end
