(* ===== verification/Fuse_Interfaces.thy ===== *)
theory Fuse_Interfaces
  imports Fuse_Prelude
begin

text \<open>
  The contracts between the components, as locales. Each fixes the operations that a client
  calls and assumes the laws that the provider promises; the lemmas about a client that uses
  only the contract are proved here once. Every locale is interpreted on the definitions of
  the component that provides it.
\<close>

section \<open>A tree of mount points\<close>

text \<open>
  The file system tree that holds mount points: \<open>mount\<close> creates the nodes of a path and
  returns the number of the last one, \<open>walk\<close> finds an existing path. Numbers are handed out
  from a finite supply: \<open>used\<close> of the tree is bounded by \<open>limit\<close>, and a path takes at
  most \<open>cost\<close> of them.
\<close>

fun mount_seq :: "(string \<Rightarrow> ('t, u64) op) \<Rightarrow> string list \<Rightarrow> ('t, u64 list) op" where
  "mount_seq mnt [] t = (Ok [], t)"
| "mount_seq mnt (p # ps) t =
     (case mnt p t of
        (Ok i, t') \<Rightarrow>
          (case mount_seq mnt ps t' of
             (Ok is, t'') \<Rightarrow> (Ok (i # is), t'')
           | (Err e, t'') \<Rightarrow> (Err e, t'')
           | (Panic, t'') \<Rightarrow> (Panic, t''))
      | (Err e, t') \<Rightarrow> (Err e, t')
      | (Panic, t') \<Rightarrow> (Panic, t'))"

locale mount_tree =
  fixes inv :: "'t \<Rightarrow> bool"
    and rooted :: "string \<Rightarrow> bool"
    and used :: "'t \<Rightarrow> nat"
    and cost :: "string \<Rightarrow> nat"
    and limit :: nat
    and mount :: "string \<Rightarrow> ('t, u64) op"
    and walk :: "string \<Rightarrow> 't \<Rightarrow> u64 option res"
  assumes mount_ok: "inv t \<Longrightarrow> rooted p \<Longrightarrow> used t + cost p < limit \<Longrightarrow>
      \<exists>i t'. mount p t = (Ok i, t') \<and> inv t' \<and> walk p t' = Ok (Some i) \<and>
        used t' \<le> used t + cost p \<and>
        (\<forall>q j. walk q t = Ok (Some j) \<longrightarrow> walk q t' = Ok (Some j))"
    and mount_existing: "walk p t = Ok (Some i) \<Longrightarrow> mount p t = (Ok i, t)"
begin

lemma mount_idempotent:
  assumes "inv t" and "rooted p" and "used t + cost p < limit"
  shows "\<exists>i t'. mount p t = (Ok i, t') \<and> mount p t' = (Ok i, t')"
  using mount_ok [OF assms] mount_existing by blast

lemma mount_seq_resolves:
  assumes "inv t" and "\<forall>p\<in>set ps. rooted p" and "used t + sum_list (map cost ps) < limit"
  shows "\<exists>is t'. mount_seq mount ps t = (Ok is, t') \<and> inv t' \<and>
      list_all2 (\<lambda>p i. walk p t' = Ok (Some i)) ps is \<and>
      (\<forall>q j. walk q t = Ok (Some j) \<longrightarrow> walk q t' = Ok (Some j))"
  using assms
proof (induction ps arbitrary: t)
  case (Cons p ps)
  then obtain i t1 where 1: "mount p t = (Ok i, t1)" "inv t1" "walk p t1 = Ok (Some i)"
    "used t1 \<le> used t + cost p" "\<forall>q j. walk q t = Ok (Some j) \<longrightarrow> walk q t1 = Ok (Some j)"
    using mount_ok [of t p] by auto
  moreover have "\<forall>q\<in>set ps. rooted q" "used t1 + sum_list (map cost ps) < limit"
    using Cons.prems 1(4) by auto
  ultimately obtain "is" t2 where 2: "mount_seq mount ps t1 = (Ok is, t2)" "inv t2"
    "list_all2 (\<lambda>p i. walk p t2 = Ok (Some i)) ps is"
    "\<forall>q j. walk q t1 = Ok (Some j) \<longrightarrow> walk q t2 = Ok (Some j)"
    using Cons.IH [of t1] by blast
  with 1 show ?case by (intro exI [of _ "i # is"] exI [of _ t2]) simp
qed simp

end

section \<open>A source of bytes\<close>

text \<open>
  What the decoding of a request needs of its reader: \<open>fetch n\<close> yields the next \<open>n\<close> bytes of
  the \<open>content\<close> and leaves the rest, or fails with \<^verbatim>\<open>UnexpectedEof\<close> when there are fewer.
\<close>

locale byte_source =
  fixes inv :: "'r \<Rightarrow> bool"
    and content :: "'r \<Rightarrow> bytes"
    and fetch :: "nat \<Rightarrow> ('r, bytes) op"
  assumes fetch_ok: "inv r \<Longrightarrow> n \<le> length (content r) \<Longrightarrow>
      \<exists>r'. fetch n r = (Ok (take n (content r)), r') \<and> inv r' \<and> content r' = drop n (content r)"
    and fetch_eof: "inv r \<Longrightarrow> length (content r) < n \<Longrightarrow>
      \<exists>r'. fetch n r = (Err (Custom UnexpectedEof), r') \<and> inv r' \<and> content r' = []"
begin

text \<open>A message that was assembled from parts is read back part by part.\<close>

lemma fetch_append:
  assumes "inv r" and "content r = bs @ rest"
  shows "\<exists>r'. fetch (length bs) r = (Ok bs, r') \<and> inv r' \<and> content r' = rest"
  using fetch_ok [OF assms(1), of "length bs"] assms(2) by simp

lemma fetch_cases:
  assumes "inv r"
  obtains (ok) r' where "n \<le> length (content r)" "fetch n r = (Ok (take n (content r)), r')" "inv r'"
      "content r' = drop n (content r)"
    | (eof) r' where "length (content r) < n" "fetch n r = (Err (Custom UnexpectedEof), r')" "inv r'"
      "content r' = []"
  using fetch_ok [OF assms, of n] fetch_eof [OF assms, of n] by (metis not_less)

end

section \<open>A sink of bytes\<close>

text \<open>
  What the encoding of a reply needs of its writer: \<open>put\<close> appends to what was \<open>written\<close> if there
  is \<open>room\<close>, and otherwise fails with \<^verbatim>\<open>InvalidData\<close> and changes nothing. \<open>put_all\<close> writes a
  sequence of chunks and stops at the first error.
\<close>

fun put_all :: "(bytes \<Rightarrow> ('w, unit) op) \<Rightarrow> bytes list \<Rightarrow> ('w, unit) op" where
  "put_all put [] w = (Ok (), w)"
| "put_all put (d # ds) w = op_bind (put d w) (\<lambda>_. put_all put ds)"

locale byte_sink =
  fixes inv :: "'w \<Rightarrow> bool"
    and room :: "'w \<Rightarrow> nat"
    and written :: "'w \<Rightarrow> bytes"
    and put :: "bytes \<Rightarrow> ('w, unit) op"
  assumes put_ok: "inv w \<Longrightarrow> length d \<le> room w \<Longrightarrow>
      \<exists>w'. put d w = (Ok (), w') \<and> inv w' \<and> written w' = written w @ d \<and> room w' = room w - length d"
    and put_full: "inv w \<Longrightarrow> room w < length d \<Longrightarrow> put d w = (Err (Custom InvalidData), w)"
begin

lemma put_all_ok:
  assumes "inv w" and "length (concat ds) \<le> room w"
  shows "\<exists>w'. put_all put ds w = (Ok (), w') \<and> inv w' \<and> written w' = written w @ concat ds \<and>
    room w' = room w - length (concat ds)"
  using assms
proof (induction ds arbitrary: w)
  case (Cons d ds)
  obtain w1 where 1: "put d w = (Ok (), w1)" "inv w1" "written w1 = written w @ d" "room w1 = room w - length d"
    using put_ok [of w d] Cons.prems by auto
  have "length (concat ds) \<le> room w1" using Cons.prems(2) 1(4) by simp
  then obtain w2 where "put_all put ds w1 = (Ok (), w2)" "inv w2" "written w2 = written w1 @ concat ds"
      "room w2 = room w1 - length (concat ds)"
    using Cons.IH [OF 1(2)] by blast
  with 1 show ?case by simp
qed simp

lemma put_all_inv: "inv w \<Longrightarrow> put_all put ds w = (res, w') \<Longrightarrow> inv w' \<and> res \<noteq> Panic"
proof (induction ds arbitrary: w)
  case (Cons d ds)
  show ?case
  proof (cases "length d \<le> room w")
    case True
    then obtain w1 where "put d w = (Ok (), w1)" "inv w1" using put_ok [of w d] Cons.prems by auto
    with Cons show ?thesis by auto
  next
    case False
    with Cons.prems put_full [of w d] show ?thesis by auto
  qed
qed auto

end

end
