(* ===== verification/Pseudo_Fs.thy ===== *)
theory Pseudo_Fs
  imports Fuse_Types Fuse_Interfaces
begin

text \<open>
  The pseudo file system of \<^verbatim>\<open>api/pseudo_fs.rs\<close>: a tree of directories that holds the
  mount points of the VFS. An \<^verbatim>\<open>Arc<PseudoInode>\<close> is represented by its inode number: the
  number, parent and name of a node never change, and the only mutable field, the vector
  of children, belongs to the object that the table \<^verbatim>\<open>inodes\<close> holds under that number.
  The field \<^verbatim>\<open>root_inode\<close> and the entry of the table for \<^verbatim>\<open>ROOT_ID\<close> are one object. The
  operations are the serialised ones: each runs to its end before the next starts, so the
  optimistic search and the search under the lock see the same children.
\<close>

section \<open>Paths\<close>

text \<open>\<^verbatim>\<open>std::path::Path\<close> on Unix: \<^verbatim>\<open>has_root\<close> and \<^verbatim>\<open>components\<close>.\<close>

datatype component = RootDir | CurDir | ParentDir | Prefix string | Normal string

definition path_has_root :: "string \<Rightarrow> bool" where
  "path_has_root p \<longleftrightarrow> (case p of c # _ \<Rightarrow> c = CHR ''/'' | [] \<Rightarrow> False)"

fun body_components :: "string list \<Rightarrow> component list" where
  "body_components [] = []"
| "body_components (p # ps) =
     (if p = '''' \<or> p = ''.'' then body_components ps
      else if p = ''..'' then ParentDir # body_components ps
      else Normal p # body_components ps)"

definition path_components :: "string \<Rightarrow> component list" where
  "path_components p =
     (let parts = split_on (CHR ''/'') p in
      (if path_has_root p then [RootDir] else if hd parts = ''.'' then [CurDir] else [])
        @ body_components parts)"

section \<open>State\<close>

definition PSEUDOFS_NEXT_INODE :: u64 where "PSEUDOFS_NEXT_INODE = 2"
definition PSEUDOFS_DEFAULT_ATTR_TIMEOUT :: u64 where
  "PSEUDOFS_DEFAULT_ATTR_TIMEOUT = push_bit 32 1"
definition PSEUDOFS_DEFAULT_ENTRY_TIMEOUT :: u64 where
  "PSEUDOFS_DEFAULT_ENTRY_TIMEOUT = PSEUDOFS_DEFAULT_ATTR_TIMEOUT"

record pseudo_inode =
  pi_ino :: u64
  pi_parent :: u64
  pi_children :: "(u64 \<times> string) list"
  pi_name :: string

record pseudo_fs =
  next_inode :: u64
  inodes :: "u64 \<rightharpoonup> pseudo_inode"

definition pseudo_inode_new :: "u64 \<Rightarrow> u64 \<Rightarrow> string \<Rightarrow> pseudo_inode" where
  "pseudo_inode_new ino parent name =
     \<lparr>pi_ino = ino, pi_parent = parent, pi_children = [], pi_name = name\<rparr>"

definition insert_child :: "pseudo_inode \<Rightarrow> pseudo_inode \<Rightarrow> pseudo_inode" where
  "insert_child p child = p\<lparr>pi_children := pi_children p @ [(pi_ino child, pi_name child)]\<rparr>"

definition remove_child :: "pseudo_inode \<Rightarrow> pseudo_inode \<Rightarrow> pseudo_inode res" where
  "remove_child p child =
     (case remove_first (\<lambda>x. snd x = pi_name child) (pi_children p) of
        None \<Rightarrow> Panic
      | Some cs \<Rightarrow> Ok (p\<lparr>pi_children := cs\<rparr>))"

definition insert_inode :: "pseudo_inode \<Rightarrow> pseudo_fs \<Rightarrow> pseudo_fs" where
  "insert_inode n fs = fs\<lparr>inodes := (inodes fs)(pi_ino n \<mapsto> n)\<rparr>"

definition remove_inode :: "pseudo_inode \<Rightarrow> pseudo_fs \<Rightarrow> pseudo_fs" where
  "remove_inode n fs = fs\<lparr>inodes := (inodes fs)(pi_ino n := None)\<rparr>"

definition pseudo_root :: pseudo_inode where
  "pseudo_root = pseudo_inode_new ROOT_ID ROOT_ID ''/''"

definition pseudo_fs_new :: pseudo_fs where
  "pseudo_fs_new =
     insert_inode pseudo_root \<lparr>next_inode = PSEUDOFS_NEXT_INODE, inodes = Map.empty\<rparr>"

text \<open>The field \<^verbatim>\<open>root_inode\<close>: the object the table holds for \<^verbatim>\<open>ROOT_ID\<close>.\<close>

definition root_inode :: "pseudo_fs \<Rightarrow> pseudo_inode" where
  "root_inode fs = (case inodes fs ROOT_ID of Some r \<Rightarrow> r | None \<Rightarrow> pseudo_root)"

definition new_inode :: "u64 \<Rightarrow> string \<Rightarrow> pseudo_fs \<Rightarrow> pseudo_inode \<times> pseudo_fs" where
  "new_inode parent name fs =
     (pseudo_inode_new (next_inode fs) parent name, fs\<lparr>next_inode := next_inode fs + 1\<rparr>)"

definition create_inode :: "string \<Rightarrow> pseudo_inode \<Rightarrow> pseudo_fs \<Rightarrow> pseudo_inode \<times> pseudo_fs" where
  "create_inode name parent fs =
     (let (inode, fs1) = new_inode (pi_ino parent) name fs;
          fs2 = insert_inode inode fs1
      in (inode, insert_inode (insert_child parent inode) fs2))"

section \<open>Operations\<close>

text \<open>
  The search for a child compares names; the child found is read back from the table with
  \<^verbatim>\<open>unwrap\<close>.
\<close>

definition find_child :: "string \<Rightarrow> pseudo_inode \<Rightarrow> (u64 \<times> string) option" where
  "find_child name inode = List.find (\<lambda>c. snd c = name) (pi_children inode)"

fun mount_walk :: "component list \<Rightarrow> pseudo_inode \<Rightarrow> (pseudo_fs, u64) op" where
  "mount_walk [] inode fs = (Ok (pi_ino inode), fs)"
| "mount_walk (RootDir # cs) inode fs = mount_walk cs inode fs"
| "mount_walk (CurDir # cs) inode fs = mount_walk cs inode fs"
| "mount_walk (ParentDir # cs) inode fs =
     (case inodes fs (pi_parent inode) of
        None \<Rightarrow> (Panic, fs)
      | Some p \<Rightarrow> mount_walk cs p fs)"
| "mount_walk (Prefix _ # cs) inode fs = (Err (Os EINVAL), fs)"
| "mount_walk (Normal name # cs) inode fs =
     (case find_child name inode of
        Some child \<Rightarrow>
          (case inodes fs (fst child) of
             None \<Rightarrow> (Panic, fs)
           | Some n \<Rightarrow> mount_walk cs n fs)
      | None \<Rightarrow>
          (let (new_node, fs') = create_inode name inode fs in
           case inodes fs' (pi_ino new_node) of
             None \<Rightarrow> (Panic, fs')
           | Some n \<Rightarrow> mount_walk cs n fs'))"

definition pseudo_mount :: "string \<Rightarrow> (pseudo_fs, u64) op" where
  "pseudo_mount mountpoint fs =
     (if \<not> path_has_root mountpoint then (Err (Os EINVAL), fs)
      else mount_walk (path_components mountpoint) (root_inode fs) fs)"

fun path_walk_from :: "component list \<Rightarrow> pseudo_inode \<Rightarrow> pseudo_fs \<Rightarrow> u64 option res" where
  "path_walk_from [] inode fs = Ok (Some (pi_ino inode))"
| "path_walk_from (RootDir # cs) inode fs = path_walk_from cs inode fs"
| "path_walk_from (CurDir # cs) inode fs = path_walk_from cs inode fs"
| "path_walk_from (ParentDir # cs) inode fs =
     (case inodes fs (pi_parent inode) of
        None \<Rightarrow> Panic
      | Some p \<Rightarrow> path_walk_from cs p fs)"
| "path_walk_from (Prefix _ # cs) inode fs = Err (Os EINVAL)"
| "path_walk_from (Normal name # cs) inode fs =
     (case find_child name inode of
        Some child \<Rightarrow>
          (case inodes fs (fst child) of
             None \<Rightarrow> Panic
           | Some n \<Rightarrow> path_walk_from cs n fs)
      | None \<Rightarrow> Ok None)"

definition path_walk :: "string \<Rightarrow> pseudo_fs \<Rightarrow> u64 option res" where
  "path_walk mountpoint fs =
     (if \<not> path_has_root mountpoint then Err (Os EINVAL)
      else path_walk_from (path_components mountpoint) (root_inode fs) fs)"

definition get_parent_inode :: "u64 \<Rightarrow> pseudo_fs \<Rightarrow> u64 option" where
  "get_parent_inode ino fs = map_option pi_parent (inodes fs ino)"

definition evict_inode :: "u64 \<Rightarrow> (pseudo_fs, unit) op" where
  "evict_inode ino fs =
     (case inodes fs ino of
        None \<Rightarrow> (Panic, fs)
      | Some inode \<Rightarrow>
          if ino = pi_parent inode then (Ok (), fs)
          else
            (case inodes fs (pi_parent inode) of
               None \<Rightarrow> (Panic, fs)
             | Some p \<Rightarrow>
                 (case remove_child p inode of
                    Ok p' \<Rightarrow> (Ok (), remove_inode inode (insert_inode p' fs))
                  | Err e \<Rightarrow> (Err e, fs)
                  | Panic \<Rightarrow> (Panic, fs))))"

text \<open>
  The mode is \<^verbatim>\<open>S_IFDIR | S_IRWXU | S_IRWXG | S_IRWXO\<close>; \<open>now\<close> is the wall clock in
  seconds since the epoch.
\<close>

definition get_entry :: "u64 \<Rightarrow> u64 \<Rightarrow> entry" where
  "get_entry now ino =
     \<lparr>e_inode = ino, e_generation = 0,
      e_attr = stat64_from_attr
        (attr_default\<lparr>at_ino := ino, at_mode := 0x4000 OR 0x1C0 OR 0x38 OR 0x7,
           at_ctime := now, at_mtime := now, at_atime := now, at_blksize := 4096\<rparr>),
      e_attr_flags = 0,
      e_attr_timeout = duration_from_secs PSEUDOFS_DEFAULT_ATTR_TIMEOUT,
      e_entry_timeout = duration_from_secs PSEUDOFS_DEFAULT_ENTRY_TIMEOUT\<rparr>"

fun readdir_loop ::
  "(u64 \<times> string) list \<Rightarrow> u64 \<Rightarrow> (dir_entry \<Rightarrow> ('c, usize) op) \<Rightarrow> 'c \<Rightarrow> unit res \<times> 'c" where
  "readdir_loop [] next add_entry c = (Ok (), c)"
| "readdir_loop ((ino, name) # children) next add_entry c =
     (case add_entry \<lparr>de_ino = ino, de_offset = next, de_type = 0, de_name = name\<rparr> c of
        (Ok n, c') \<Rightarrow> if n = 0 then (Ok (), c') else readdir_loop children (next + 1) add_entry c'
      | (Err r, c') \<Rightarrow> (Err r, c')
      | (Panic, c') \<Rightarrow> (Panic, c'))"

definition do_readdir ::
  "u64 \<Rightarrow> u32 \<Rightarrow> u64 \<Rightarrow> (dir_entry \<Rightarrow> ('c, usize) op) \<Rightarrow> 'c \<Rightarrow> pseudo_fs \<Rightarrow> unit res \<times> 'c" where
  "do_readdir parent sz offset add_entry c fs =
     (if sz = 0 then (Ok (), c)
      else case inodes fs parent of
        None \<Rightarrow> (Err (Os ENOENT), c)
      | Some inode \<Rightarrow>
          if offset \<ge> word_of_nat (length (pi_children inode)) then (Ok (), c)
          else readdir_loop (drop (unat offset) (pi_children inode)) (offset + 1) add_entry c)"

definition pseudo_lookup :: "u64 \<Rightarrow> fuse_context \<Rightarrow> u64 \<Rightarrow> cname \<Rightarrow> (pseudo_fs, entry) op" where
  "pseudo_lookup now ctx parent name fs =
     (case inodes fs parent of
        None \<Rightarrow> (Err (Os ENOENT), fs)
      | Some pinode \<Rightarrow>
          if \<not> utf8_valid name then (Err (Os EINVAL), fs)
          else
            (let ino = (if name = ''.'' then pi_ino pinode
                        else if name = ''..'' then pi_parent pinode
                        else case find_child name pinode of Some c \<Rightarrow> fst c | None \<Rightarrow> 0)
             in if ino = 0 then (Err (Os ENOENT), fs) else (Ok (get_entry now ino), fs)))"

definition pseudo_getattr ::
  "u64 \<Rightarrow> fuse_context \<Rightarrow> u64 \<Rightarrow> u64 option \<Rightarrow> (pseudo_fs, stat64 \<times> duration) op" where
  "pseudo_getattr now ctx inode handle fs =
     (case map_option pi_ino (inodes fs inode) of
        None \<Rightarrow> (Err (Os ENOENT), fs)
      | Some ino \<Rightarrow>
          (let entry = get_entry now ino in (Ok (e_attr entry, e_attr_timeout entry), fs)))"

definition pseudo_readdir ::
  "fuse_context \<Rightarrow> u64 \<Rightarrow> u64 \<Rightarrow> u32 \<Rightarrow> u64 \<Rightarrow> (dir_entry \<Rightarrow> ('c, usize) op) \<Rightarrow> 'c \<Rightarrow>
     pseudo_fs \<Rightarrow> unit res \<times> 'c \<times> pseudo_fs" where
  "pseudo_readdir ctx inode handle sz offset add_entry c fs =
     (let (r, c') = do_readdir inode sz offset add_entry c fs in (r, c', fs))"

definition pseudo_readdirplus ::
  "u64 \<Rightarrow> fuse_context \<Rightarrow> u64 \<Rightarrow> u64 \<Rightarrow> u32 \<Rightarrow> u64 \<Rightarrow> (dir_entry \<Rightarrow> entry \<Rightarrow> ('c, usize) op) \<Rightarrow>
     'c \<Rightarrow> pseudo_fs \<Rightarrow> unit res \<times> 'c \<times> pseudo_fs" where
  "pseudo_readdirplus now ctx inode handle sz offset add_entry c fs =
     (let (r, c') = do_readdir inode sz offset
                      (\<lambda>dir_entry. add_entry dir_entry (get_entry now (de_ino dir_entry))) c fs
      in (r, c', fs))"

definition pseudo_access :: "fuse_context \<Rightarrow> u64 \<Rightarrow> u32 \<Rightarrow> (pseudo_fs, unit) op" where
  "pseudo_access ctx inode msk fs = (Ok (), fs)"

text \<open>\<^verbatim>\<open>impl FileSystem for PseudoFs\<close>: every other method is the default one.\<close>

definition pseudo_fs_ops :: "u64 \<Rightarrow> (pseudo_fs, 'c) fs_ops" where
  "pseudo_fs_ops now =
     default_fs_ops
       \<lparr>fs_lookup := pseudo_lookup now,
        fs_getattr := pseudo_getattr now,
        fs_readdir := pseudo_readdir,
        fs_readdirplus := pseudo_readdirplus now,
        fs_access := pseudo_access\<rparr>"

section \<open>Persistence\<close>

text \<open>
  \<^verbatim>\<open>mod persist\<close>. The byte encoding of a state is the crate \<^verbatim>\<open>dbs_snapshot\<close>, so its two
  functions are the parameters \<open>snap_save\<close> and \<open>snap_load\<close>; the order in which a
  \<^verbatim>\<open>HashMap\<close> yields its values is the parameter \<open>vals\<close>.
\<close>

record pseudo_inode_state =
  ps_ino :: u64
  ps_parent :: u64
  ps_name :: string

record pseudo_fs_state =
  pfs_next_inode :: u64
  pfs_inodes :: "pseudo_inode_state list"

definition pseudo_inode_state_of :: "pseudo_inode \<Rightarrow> pseudo_inode_state" where
  "pseudo_inode_state_of n = \<lparr>ps_ino = pi_ino n, ps_parent = pi_parent n, ps_name = pi_name n\<rparr>"

definition pseudo_save_state :: "pseudo_inode list \<Rightarrow> pseudo_fs \<Rightarrow> pseudo_fs_state" where
  "pseudo_save_state vals fs =
     \<lparr>pfs_next_inode = next_inode fs,
      pfs_inodes = map pseudo_inode_state_of (filter (\<lambda>n. pi_ino n \<noteq> ROOT_ID) vals)\<rparr>"

definition pseudo_save_to_bytes ::
  "(pseudo_fs_state \<Rightarrow> bytes option) \<Rightarrow> pseudo_inode list \<Rightarrow> pseudo_fs \<Rightarrow> bytes res" where
  "pseudo_save_to_bytes snap_save vals fs =
     (case snap_save (pseudo_save_state vals fs) of
        None \<Rightarrow> Err (Custom Other)
      | Some buf \<Rightarrow> Ok buf)"

fun rebuild_inodes :: "pseudo_inode_state list \<Rightarrow> (u64 \<rightharpoonup> pseudo_inode) \<Rightarrow> (u64 \<rightharpoonup> pseudo_inode)" where
  "rebuild_inodes [] m = m"
| "rebuild_inodes (i # is) m =
     rebuild_inodes is (m(ps_ino i \<mapsto> pseudo_inode_new (ps_ino i) (ps_parent i) (ps_name i)))"

fun connect_inodes ::
  "pseudo_inode_state list \<Rightarrow> (u64 \<rightharpoonup> pseudo_inode) \<Rightarrow> unit res \<times> (u64 \<rightharpoonup> pseudo_inode)" where
  "connect_inodes [] m = (Ok (), m)"
| "connect_inodes (i # is) m =
     (case m (ps_ino i) of
        None \<Rightarrow> (Err (Custom InvalidData), m)
      | Some inode \<Rightarrow>
          (case m (pi_parent inode) of
             None \<Rightarrow> (Err (Custom InvalidData), m)
           | Some p \<Rightarrow> connect_inodes is (m(pi_parent inode \<mapsto> insert_child p inode))))"

text \<open>
  On an error the table is not stored, but the root is the live object, so the children
  connected to it so far stay.
\<close>

definition restore_from_state :: "pseudo_fs_state \<Rightarrow> (pseudo_fs, unit) op" where
  "restore_from_state st fs =
     (let m = (rebuild_inodes (pfs_inodes st) Map.empty)(pi_ino (root_inode fs) \<mapsto> root_inode fs)
      in case connect_inodes (sort_key ps_ino (pfs_inodes st)) m of
           (Ok _, m') \<Rightarrow> (Ok (), \<lparr>next_inode = pfs_next_inode st, inodes = m'\<rparr>)
         | (Err e, m') \<Rightarrow> (Err e, fs\<lparr>inodes := (inodes fs)(ROOT_ID := m' ROOT_ID)\<rparr>)
         | (Panic, m') \<Rightarrow> (Panic, fs))"

definition pseudo_restore_from_bytes ::
  "(bytes \<Rightarrow> pseudo_fs_state option) \<Rightarrow> bytes \<Rightarrow> (pseudo_fs, unit) op" where
  "pseudo_restore_from_bytes snap_load buf fs =
     (case snap_load buf of
        None \<Rightarrow> (Err (Custom Other), fs)
      | Some st \<Rightarrow> restore_from_state st fs)"

section \<open>The tree invariant\<close>

text \<open>
  A node is well formed when it sits under its own number, below the allocation counter;
  its children have distinct names, ascending numbers above its own, and name it as their
  parent; and its parent lists it (the root is its own parent).
\<close>

definition node_wf :: "pseudo_fs \<Rightarrow> u64 \<Rightarrow> pseudo_inode \<Rightarrow> bool" where
  "node_wf fs k n \<longleftrightarrow>
     pi_ino n = k \<and> ROOT_ID \<le> k \<and> k < next_inode fs \<and>
     distinct (map snd (pi_children n)) \<and> sorted_wrt (<) (map fst (pi_children n)) \<and>
     (\<forall>c\<in>set (pi_children n). k < fst c \<and>
        (\<exists>m. inodes fs (fst c) = Some m \<and> pi_parent m = k \<and> pi_name m = snd c)) \<and>
     (if k = ROOT_ID then pi_parent n = ROOT_ID \<and> pi_name n = ''/''
      else pi_parent n < k \<and>
        (\<exists>p. inodes fs (pi_parent n) = Some p \<and> (k, pi_name n) \<in> set (pi_children p)))"

definition pseudo_wf :: "pseudo_fs \<Rightarrow> bool" where
  "pseudo_wf fs \<longleftrightarrow>
     ROOT_ID \<in> dom (inodes fs) \<and> (\<forall>k n. inodes fs k = Some n \<longrightarrow> node_wf fs k n)"

text \<open>One tree extends another: every node is still there, with more children at the end.\<close>

definition pseudo_ext :: "pseudo_fs \<Rightarrow> pseudo_fs \<Rightarrow> bool" where
  "pseudo_ext fs fs' \<longleftrightarrow>
     (\<forall>k n. inodes fs k = Some n \<longrightarrow>
        (\<exists>n' cs. inodes fs' k = Some n' \<and> pi_ino n' = pi_ino n \<and> pi_parent n' = pi_parent n \<and>
           pi_name n' = pi_name n \<and> pi_children n' = pi_children n @ cs))"

lemma pseudo_wfD: "pseudo_wf fs \<Longrightarrow> inodes fs k = Some n \<Longrightarrow> node_wf fs k n"
  by (simp add: pseudo_wf_def)

lemma pseudo_wf_root:
  assumes "pseudo_wf fs"
  shows "inodes fs ROOT_ID = Some (root_inode fs) \<and> pi_ino (root_inode fs) = ROOT_ID"
  using assms by (auto simp: pseudo_wf_def node_wf_def root_inode_def)

lemma pseudo_ext_refl [simp, intro]: "pseudo_ext fs fs"
  by (auto simp: pseudo_ext_def)

lemma pseudo_ext_trans:
  assumes "pseudo_ext a b" and "pseudo_ext b c"
  shows "pseudo_ext a c"
  unfolding pseudo_ext_def
proof (intro allI impI)
  fix k n
  assume "inodes a k = Some n"
  with assms(1) obtain n' cs where b: "inodes b k = Some n'" "pi_ino n' = pi_ino n"
    "pi_parent n' = pi_parent n" "pi_name n' = pi_name n" "pi_children n' = pi_children n @ cs"
    unfolding pseudo_ext_def by blast
  with assms(2) obtain n'' ds where "inodes c k = Some n''" "pi_ino n'' = pi_ino n'"
    "pi_parent n'' = pi_parent n'" "pi_name n'' = pi_name n'" "pi_children n'' = pi_children n' @ ds"
    unfolding pseudo_ext_def by blast
  with b show "\<exists>n' cs. inodes c k = Some n' \<and> pi_ino n' = pi_ino n \<and>
      pi_parent n' = pi_parent n \<and> pi_name n' = pi_name n \<and> pi_children n' = pi_children n @ cs"
    by auto
qed

lemma pseudo_fs_new_wf: "pseudo_wf pseudo_fs_new"
  by (auto simp: pseudo_wf_def node_wf_def pseudo_fs_new_def insert_inode_def pseudo_root_def
      pseudo_inode_new_def ROOT_ID_def PSEUDOFS_NEXT_INODE_def split: if_splits)

lemma pseudo_fs_new_next [simp]: "next_inode pseudo_fs_new = 2"
  by (simp add: pseudo_fs_new_def insert_inode_def PSEUDOFS_NEXT_INODE_def)

lemma find_child_Some:
  assumes "pseudo_wf fs" and "inodes fs k = Some n" and "find_child name n = Some c"
  shows "\<exists>m. inodes fs (fst c) = Some m \<and> pi_parent m = k \<and> pi_name m = name \<and> k < fst c"
proof -
  from assms(3) have "c \<in> set (pi_children n)" "snd c = name"
    by (auto simp: find_child_def dest: find_Some_in)
  with pseudo_wfD [OF assms(1,2)] show ?thesis
    by (auto simp: node_wf_def)
qed

lemma parent_in_table:
  assumes "pseudo_wf fs" and "inodes fs k = Some n"
  shows "\<exists>p. inodes fs (pi_parent n) = Some p"
  using pseudo_wfD [OF assms] assms(1) by (auto simp: node_wf_def pseudo_wf_def split: if_splits)

section \<open>Creating a node\<close>

lemma pseudo_ext_child:
  assumes "pseudo_ext fs fs'"
    and "\<exists>m. inodes fs c = Some m \<and> pi_parent m = q \<and> pi_name m = nm"
  shows "\<exists>m. inodes fs' c = Some m \<and> pi_parent m = q \<and> pi_name m = nm"
  using assms unfolding pseudo_ext_def by metis

lemma pseudo_ext_listed:
  assumes "pseudo_ext fs fs'" and "\<exists>p. inodes fs q = Some p \<and> e \<in> set (pi_children p)"
  shows "\<exists>p. inodes fs' q = Some p \<and> e \<in> set (pi_children p)"
  using assms unfolding pseudo_ext_def by (metis UnCI set_append)

text \<open>A node whose record is unchanged stays well formed when the tree grows.\<close>

lemma node_wf_ext:
  assumes "node_wf fs k n" and "pseudo_ext fs fs'" and "next_inode fs < next_inode fs'"
  shows "node_wf fs' k n"
proof -
  have "k < next_inode fs'"
    using assms(1,3) by (auto simp: node_wf_def intro: less_trans)
  moreover have "\<forall>c\<in>set (pi_children n). k < fst c \<and>
      (\<exists>m. inodes fs' (fst c) = Some m \<and> pi_parent m = k \<and> pi_name m = snd c)"
    using assms(1) pseudo_ext_child [OF assms(2)] by (simp add: node_wf_def)
  moreover have "k \<noteq> ROOT_ID \<longrightarrow>
      (\<exists>p. inodes fs' (pi_parent n) = Some p \<and> (k, pi_name n) \<in> set (pi_children p))"
    using assms(1) pseudo_ext_listed [OF assms(2)] by (simp add: node_wf_def)
  ultimately show ?thesis
    using assms(1) by (simp add: node_wf_def)
qed

lemma create_inode_simps:
  assumes "create_inode name p fs = (new, fs')"
  shows "new = pseudo_inode_new (next_inode fs) (pi_ino p) name"
    and "next_inode fs' = next_inode fs + 1"
    and "inodes fs' = (inodes fs)(next_inode fs \<mapsto> new, pi_ino p \<mapsto> insert_child p new)"
  using assms
  by (auto simp: create_inode_def new_inode_def insert_inode_def insert_child_def
      pseudo_inode_new_def Let_def)

lemma next_inode_free: "pseudo_wf fs \<Longrightarrow> inodes fs (next_inode fs) = None"
  using pseudo_wfD [of fs "next_inode fs"] by (cases "inodes fs (next_inode fs)") (auto simp: node_wf_def)

lemma create_inode_table:
  assumes "pseudo_wf fs" and "inodes fs pk = Some p" and "create_inode name p fs = (new, fs')"
  shows "inodes fs' = (inodes fs)(next_inode fs \<mapsto> new, pk \<mapsto> insert_child p new)"
    and "pi_ino new = next_inode fs" and "pi_parent new = pk" and "pi_name new = name"
    and "pi_children new = []" and "pk < next_inode fs" and "inodes fs (next_inode fs) = None"
proof -
  have pk: "pi_ino p = pk" "pk < next_inode fs"
    using pseudo_wfD [OF assms(1,2)] by (auto simp: node_wf_def)
  with create_inode_simps [OF assms(3)]
  show "inodes fs' = (inodes fs)(next_inode fs \<mapsto> new, pk \<mapsto> insert_child p new)"
    "pi_ino new = next_inode fs" "pi_parent new = pk" "pi_name new = name"
    "pi_children new = []" "pk < next_inode fs"
    by (simp_all add: pseudo_inode_new_def)
  show "inodes fs (next_inode fs) = None"
    by (rule next_inode_free [OF assms(1)])
qed

lemma create_inode_ext:
  assumes "pseudo_wf fs" and "inodes fs pk = Some p" and "create_inode name p fs = (new, fs')"
  shows "pseudo_ext fs fs'"
  using assms(2) create_inode_table [OF assms]
  unfolding pseudo_ext_def by (auto simp: insert_child_def)

lemma create_inode_new_wf:
  assumes "pseudo_wf fs" and "inodes fs pk = Some p" and "create_inode name p fs = (new, fs')"
    and "next_inode fs < next_inode fs'"
  shows "node_wf fs' (next_inode fs) new"
proof -
  note tab = create_inode_table [OF assms(1-3)]
  have "ROOT_ID \<le> pk" using pseudo_wfD [OF assms(1,2)] by (simp add: node_wf_def)
  with tab(6) have "ROOT_ID \<le> next_inode fs" "next_inode fs \<noteq> ROOT_ID" by auto
  moreover have "inodes fs' pk = Some (insert_child p new)"
    "(next_inode fs, name) \<in> set (pi_children (insert_child p new))"
    using tab(1,2,4) by (auto simp: insert_child_def)
  ultimately show ?thesis
    using tab(2-6) assms(4) by (simp add: node_wf_def)
qed

lemma create_inode_parent_wf:
  assumes "pseudo_wf fs" and "inodes fs pk = Some p" and "find_child name p = None"
    and "create_inode name p fs = (new, fs')" and "next_inode fs < next_inode fs'"
  shows "node_wf fs' pk (insert_child p new)"
proof -
  note tab = create_inode_table [OF assms(1,2,4)]
  have old: "node_wf fs' pk p"
    by (rule node_wf_ext [OF pseudo_wfD [OF assms(1,2)] create_inode_ext [OF assms(1,2,4)] assms(5)])
  have ch: "pi_children (insert_child p new) = pi_children p @ [(next_inode fs, name)]"
    using tab by (simp add: insert_child_def)
  have "\<forall>c\<in>set (pi_children p). fst c < next_inode fs"
    using pseudo_wfD [OF assms(1,2)] pseudo_wfD [OF assms(1)] by (auto simp: node_wf_def)
  moreover have "name \<notin> snd ` set (pi_children p)"
    using assms(3) by (simp add: find_child_def find_None_iff_map)
  ultimately have sd: "distinct (map snd (pi_children (insert_child p new)))"
    "sorted_wrt (<) (map fst (pi_children (insert_child p new)))"
    using old by (auto simp: ch node_wf_def sorted_wrt_append)
  have "inodes fs' (next_inode fs) = Some new" using tab(1,6) by auto
  then have kids: "\<forall>c\<in>set (pi_children (insert_child p new)). pk < fst c \<and>
      (\<exists>m. inodes fs' (fst c) = Some m \<and> pi_parent m = pk \<and> pi_name m = snd c)"
    using old tab(3,4,6) unfolding ch by (simp add: node_wf_def)
  have "pi_ino (insert_child p new) = pi_ino p" "pi_parent (insert_child p new) = pi_parent p"
    "pi_name (insert_child p new) = pi_name p"
    by (simp_all add: insert_child_def)
  then show ?thesis
    using old sd kids unfolding node_wf_def by presburger
qed

lemma create_inode_wf:
  assumes wf: "pseudo_wf fs" and p: "inodes fs pk = Some p"
    and fresh: "find_child name p = None"
    and room: "unat (next_inode fs) + 1 < 2 ^ 64"
    and cr: "create_inode name p fs = (new, fs')"
  shows "pseudo_wf fs'" and "pseudo_ext fs fs'"
    and "inodes fs' (pi_ino new) = Some new" and "pi_ino new = next_inode fs"
proof -
  note tab = create_inode_table [OF wf p cr]
  show ext: "pseudo_ext fs fs'" by (rule create_inode_ext [OF wf p cr])
  show "inodes fs' (pi_ino new) = Some new" "pi_ino new = next_inode fs"
    using tab(1,2,6) by simp_all
  have up: "next_inode fs < next_inode fs'"
    using create_inode_simps(2) [OF cr] word_less_add_one [of "next_inode fs"] room by simp
  have "node_wf fs' k n" if k: "inodes fs' k = Some n" for k n
  proof -
    consider "k = next_inode fs" "n = new" | "k = pk" "n = insert_child p new"
      | "inodes fs k = Some n"
      using k unfolding tab(1) fun_upd_apply by (metis option.inject)
    then show ?thesis
    proof cases
      case 1
      then show ?thesis using create_inode_new_wf [OF wf p cr up] by simp
    next
      case 2
      then show ?thesis using create_inode_parent_wf [OF wf p fresh cr up] by simp
    next
      case 3
      then show ?thesis by (rule node_wf_ext [OF pseudo_wfD [OF wf] ext up])
    qed
  qed
  moreover have "ROOT_ID \<in> dom (inodes fs')"
    using wf unfolding tab(1) pseudo_wf_def by simp
  ultimately show "pseudo_wf fs'"
    by (simp add: pseudo_wf_def)
qed

section \<open>Mounting and walking\<close>

lemma find_child_append:
  "find_child name n = Some c \<Longrightarrow> pi_children n' = pi_children n @ cs \<Longrightarrow>
     find_child name n' = Some c"
  by (simp add: find_child_def find_append)

text \<open>
  From node \<open>k\<close>, the components lead to node \<open>i\<close>, now and in every later extension of the tree.
\<close>

definition walks_to :: "pseudo_fs \<Rightarrow> component list \<Rightarrow> u64 \<Rightarrow> u64 \<Rightarrow> bool" where
  "walks_to fs cs k i \<longleftrightarrow>
     (\<forall>fs'. pseudo_ext fs fs' \<longrightarrow>
        (\<exists>n. inodes fs' k = Some n \<and> path_walk_from cs n fs' = Ok (Some i)))"

lemma walks_toD:
  "walks_to fs cs k i \<Longrightarrow> inodes fs k = Some n \<Longrightarrow> path_walk_from cs n fs = Ok (Some i)"
  unfolding walks_to_def by force

lemma walks_to_ext: "walks_to fs cs k i \<Longrightarrow> pseudo_ext fs fs' \<Longrightarrow> walks_to fs' cs k i"
  unfolding walks_to_def by (blast intro: pseudo_ext_trans)

lemma walks_to_Nil: "inodes fs k = Some n \<Longrightarrow> walks_to fs [] k (pi_ino n)"
  unfolding walks_to_def pseudo_ext_def by fastforce

lemma walks_to_skip:
  "c = RootDir \<or> c = CurDir \<Longrightarrow> walks_to fs cs k i \<Longrightarrow> walks_to fs (c # cs) k i"
  unfolding walks_to_def by auto

lemma walks_to_ParentDir:
  assumes "inodes fs k = Some n" and "walks_to fs cs (pi_parent n) i"
  shows "walks_to fs (ParentDir # cs) k i"
  unfolding walks_to_def
proof (intro allI impI)
  fix fs' assume ext: "pseudo_ext fs fs'"
  with assms(1) obtain n' where n': "inodes fs' k = Some n'" "pi_parent n' = pi_parent n"
    unfolding pseudo_ext_def by blast
  from assms(2) ext obtain p where "inodes fs' (pi_parent n) = Some p"
    "path_walk_from cs p fs' = Ok (Some i)"
    unfolding walks_to_def by blast
  with n' show "\<exists>n. inodes fs' k = Some n \<and> path_walk_from (ParentDir # cs) n fs' = Ok (Some i)"
    by simp
qed

lemma walks_to_Normal:
  assumes "inodes fs k = Some n" and "find_child name n = Some c" and "walks_to fs cs (fst c) i"
  shows "walks_to fs (Normal name # cs) k i"
  unfolding walks_to_def
proof (intro allI impI)
  fix fs' assume ext: "pseudo_ext fs fs'"
  with assms(1) obtain n' ds where n': "inodes fs' k = Some n'"
    "pi_children n' = pi_children n @ ds"
    unfolding pseudo_ext_def by blast
  from assms(3) ext obtain m where "inodes fs' (fst c) = Some m"
    "path_walk_from cs m fs' = Ok (Some i)"
    unfolding walks_to_def by blast
  with n' find_child_append [OF assms(2) n'(2)]
  show "\<exists>n. inodes fs' k = Some n \<and> path_walk_from (Normal name # cs) n fs' = Ok (Some i)"
    by simp
qed

text \<open>What a mount of the components \<open>cs\<close> below node \<open>k\<close> guarantees of its result.\<close>

definition mount_post ::
  "component list \<Rightarrow> u64 \<Rightarrow> pseudo_fs \<Rightarrow> u64 res \<times> pseudo_fs \<Rightarrow> bool" where
  "mount_post cs k fs r \<longleftrightarrow>
     (\<exists>i fs'. r = (Ok i, fs') \<and> pseudo_wf fs' \<and> pseudo_ext fs fs' \<and> i \<in> dom (inodes fs') \<and>
        unat (next_inode fs') \<le> unat (next_inode fs) + length cs \<and> walks_to fs' cs k i)"

lemma mount_post_step:
  assumes "mount_post cs j fs1 r" and "pseudo_ext fs fs1"
    and "unat (next_inode fs1) \<le> unat (next_inode fs) + 1"
    and "\<And>fs' i. pseudo_ext fs1 fs' \<Longrightarrow> walks_to fs' cs j i \<Longrightarrow> walks_to fs' (c # cs) k i"
  shows "mount_post (c # cs) k fs r"
  using assms unfolding mount_post_def by (fastforce intro: pseudo_ext_trans)

definition no_prefix :: "component list \<Rightarrow> bool" where
  "no_prefix cs \<longleftrightarrow> (\<forall>c\<in>set cs. case c of Prefix _ \<Rightarrow> False | _ \<Rightarrow> True)"

lemma path_components_no_prefix: "no_prefix (path_components p)"
proof -
  have "no_prefix (body_components ps)" for ps
    by (induction ps) (auto simp: no_prefix_def)
  then show ?thesis
    by (auto simp: path_components_def no_prefix_def Let_def)
qed

lemma walks_to_ParentDir_ext:
  assumes "inodes fs k = Some n" and "pseudo_ext fs fs'" and "walks_to fs' cs (pi_parent n) i"
  shows "walks_to fs' (ParentDir # cs) k i"
proof -
  from assms(1,2) obtain n' where "inodes fs' k = Some n'" "pi_parent n' = pi_parent n"
    unfolding pseudo_ext_def by blast
  then show ?thesis using walks_to_ParentDir assms(3) by simp
qed

lemma walks_to_Normal_ext:
  assumes "inodes fs k = Some n" and "find_child name n = Some c" and "pseudo_ext fs fs'"
    and "walks_to fs' cs (fst c) i"
  shows "walks_to fs' (Normal name # cs) k i"
proof -
  from assms(1,3) obtain n' ds where n': "inodes fs' k = Some n'"
    "pi_children n' = pi_children n @ ds"
    unfolding pseudo_ext_def by blast
  show ?thesis
    by (rule walks_to_Normal [OF n'(1) find_child_append [OF assms(2) n'(2)] assms(4)])
qed

lemma find_child_created:
  assumes "find_child name p = None" and "pi_name new = name"
  shows "find_child name (insert_child p new) = Some (pi_ino new, name)"
  using assms by (simp add: find_child_def insert_child_def find_append)

lemma mount_walk_create:
  assumes wf: "pseudo_wf fs" and n: "inodes fs k = Some n" and fresh: "find_child name n = None"
    and room: "unat (next_inode fs) + 1 + length cs < 2 ^ 64"
    and IH: "\<And>m fs1 j. pseudo_wf fs1 \<Longrightarrow> inodes fs1 j = Some m \<Longrightarrow>
       unat (next_inode fs1) + length cs < 2 ^ 64 \<Longrightarrow> mount_post cs j fs1 (mount_walk cs m fs1)"
  shows "mount_post (Normal name # cs) k fs (mount_walk (Normal name # cs) n fs)"
proof -
  obtain new fs1 where cr: "create_inode name n fs = (new, fs1)" by fastforce
  note w = create_inode_wf [OF wf n fresh _ cr]
  from room have r1: "unat (next_inode fs) + 1 < 2 ^ 64" by simp
  then have nx: "unat (next_inode fs1) = unat (next_inode fs) + 1"
    using create_inode_simps(2) [OF cr] unat_Suc_word [of "next_inode fs"] by simp
  note tab = create_inode_table [OF wf n cr]
  have k1: "inodes fs1 k = Some (insert_child n new)" unfolding tab(1) by simp
  have "mount_post (Normal name # cs) k fs (mount_walk cs new fs1)"
  proof (rule mount_post_step)
    show "mount_post cs (pi_ino new) fs1 (mount_walk cs new fs1)"
      using IH w(1,3) r1 room nx by simp
    show "pseudo_ext fs fs1" using w(2) r1 by blast
    show "unat (next_inode fs1) \<le> unat (next_inode fs) + 1" using nx by simp
    show "walks_to fs' (Normal name # cs) k i"
      if "pseudo_ext fs1 fs'" and "walks_to fs' cs (pi_ino new) i" for fs' i
      using walks_to_Normal_ext [OF k1 find_child_created [OF fresh tab(4)] that(1)] that(2) by simp
  qed
  then show ?thesis
    using fresh cr w(3) r1 by simp
qed

lemma mount_walk_post:
  assumes "pseudo_wf fs" and "inodes fs k = Some n" and "no_prefix cs"
    and "unat (next_inode fs) + length cs < 2 ^ 64"
  shows "mount_post cs k fs (mount_walk cs n fs)"
  using assms
proof (induction cs arbitrary: n k fs)
  case Nil
  then have "pi_ino n = k" using pseudo_wfD [of fs k n] by (simp add: node_wf_def)
  with Nil show ?case using walks_to_Nil [of fs k n] by (auto simp: mount_post_def)
next
  case (Cons c cs)
  from Cons.prems(3) have np: "no_prefix cs" by (simp add: no_prefix_def)
  from Cons.prems(4) have room: "unat (next_inode fs) + length cs < 2 ^ 64" by simp
  note IH = Cons.IH [OF _ _ np]
  note step = mount_post_step [OF IH [OF Cons.prems(1) _ room], of _ _ fs c k]
  show ?case
  proof (cases c)
    case (Normal name)
    show ?thesis
    proof (cases "find_child name n")
      case None
      with Cons.prems Normal show ?thesis
        using mount_walk_create [of fs k n name cs] IH by simp
    next
      case (Some ch)
      then obtain m where "inodes fs (fst ch) = Some m"
        using find_child_Some [OF Cons.prems(1,2)] by blast
      with Some Normal show ?thesis
        using step walks_to_Normal_ext [OF Cons.prems(2) Some] by simp
    qed
  next
    case ParentDir
    from parent_in_table [OF Cons.prems(1,2)] obtain p where "inodes fs (pi_parent n) = Some p"
      by blast
    with ParentDir show ?thesis
      using step walks_to_ParentDir_ext [OF Cons.prems(2)] by simp
  next
    case (Prefix x)
    with Cons.prems(3) show ?thesis by (simp add: no_prefix_def)
  qed (use step Cons.prems(2) in \<open>simp_all add: walks_to_skip\<close>)
qed

lemma path_walk_from_ok:
  assumes "pseudo_wf fs" and "inodes fs k = Some n" and "no_prefix cs"
  shows "path_walk_from cs n fs = Ok None \<or>
    (\<exists>i \<in> dom (inodes fs). path_walk_from cs n fs = Ok (Some i))"
  using assms
proof (induction cs arbitrary: n k)
  case Nil
  then have "pi_ino n = k" using pseudo_wfD [of fs k n] by (simp add: node_wf_def)
  with Nil show ?case by auto
next
  case (Cons c cs)
  from Cons.prems(3) have np: "no_prefix cs" by (simp add: no_prefix_def)
  note IH = Cons.IH [OF Cons.prems(1) _ np]
  show ?case
  proof (cases c)
    case (Normal name)
    show ?thesis
    proof (cases "find_child name n")
      case (Some ch)
      then obtain m where m: "inodes fs (fst ch) = Some m"
        using find_child_Some [OF Cons.prems(1,2)] by blast
      with IH [OF m] Some Normal show ?thesis by simp
    qed (simp add: Normal)
  next
    case ParentDir
    obtain p where p: "inodes fs (pi_parent n) = Some p"
      using parent_in_table [OF Cons.prems(1,2)] by blast
    with IH [OF p] ParentDir show ?thesis by simp
  next
    case (Prefix x)
    with Cons.prems(3) show ?thesis by (simp add: no_prefix_def)
  qed (use IH [OF Cons.prems(2)] in simp_all)
qed

lemma mount_walk_existing:
  "path_walk_from cs n fs = Ok (Some i) \<Longrightarrow> mount_walk cs n fs = (Ok i, fs)"
  by (induction cs n fs rule: path_walk_from.induct) (auto split: option.splits)

lemma path_walk_walks_to:
  assumes "pseudo_wf fs" and "inodes fs k = Some n" and "path_walk_from cs n fs = Ok (Some i)"
  shows "walks_to fs cs k i"
  using assms
proof (induction cs n fs arbitrary: k rule: path_walk_from.induct)
  case (1 inode fs)
  then show ?case using walks_to_Nil by fastforce
next
  case (4 cs inode fs)
  then obtain p where "inodes fs (pi_parent inode) = Some p" using parent_in_table by blast
  with 4 show ?case by (auto intro: walks_to_ParentDir)
next
  case (6 name cs inode fs)
  then obtain c where c: "find_child name inode = Some c" by (auto split: option.splits)
  with 6 obtain m where "inodes fs (fst c) = Some m" using find_child_Some by blast
  with 6 c have "walks_to fs cs (fst c) i" by simp
  with 6 c show ?case by (auto intro: walks_to_Normal)
qed (auto intro: walks_to_skip)

section \<open>Directory listings\<close>

text \<open>The entries a directory delivers from an offset on.\<close>

definition dirents_from :: "pseudo_inode \<Rightarrow> nat \<Rightarrow> dir_entry list" where
  "dirents_from n off =
     map (\<lambda>j. \<lparr>de_ino = fst (pi_children n ! j), de_offset = word_of_nat (Suc j), de_type = 0,
               de_name = snd (pi_children n ! j)\<rparr>) [off ..< length (pi_children n)]"

text \<open>A buffer of \<open>cap\<close> entries: an entry that does not fit is refused with \<open>Ok 0\<close>.\<close>

definition page_add :: "nat \<Rightarrow> dir_entry \<Rightarrow> (dir_entry list, usize) op" where
  "page_add cap d c = (if length c < cap then (Ok 1, c @ [d]) else (Ok 0, c))"

lemma readdir_loop_page:
  "readdir_loop xs nxt (page_add cap) c =
     (Ok (), c @ take (cap - length c)
        (map (\<lambda>j. \<lparr>de_ino = fst (xs ! j), de_offset = nxt + word_of_nat j, de_type = 0,
                  de_name = snd (xs ! j)\<rparr>) [0 ..< length xs]))"
proof (induction xs arbitrary: nxt c)
  case (Cons x xs)
  obtain ino name where x: "x = (ino, name)" by fastforce
  have up: "[0 ..< length (x # xs)] = 0 # map Suc [0 ..< length xs]"
    by (simp add: upt_conv_Cons map_Suc_upt del: upt_Suc)
  show ?case
  proof (cases "length c < cap")
    case True
    then obtain d where "cap - length c = Suc d" "cap - Suc (length c) = d"
      by (metis Suc_diff_Suc diff_Suc_Suc)
    moreover have "page_add cap d c = (Ok 1, c @ [d])" for d
      using True by (simp add: page_add_def)
    ultimately show ?thesis
      unfolding up by (simp add: x Cons.IH comp_def algebra_simps)
  qed (simp add: x page_add_def)
qed simp

lemma do_readdir_page:
  assumes "inodes fs k = Some n" and "sz \<noteq> 0" and "length (pi_children n) < 2 ^ 64"
    and "unat off \<le> length (pi_children n)"
  shows "do_readdir k sz off (page_add cap) [] fs = (Ok (), take cap (dirents_from n (unat off)))"
proof (cases "unat off = length (pi_children n)")
  case True
  then have "word_of_nat (length (pi_children n)) = off" by (simp flip: True)
  with True assms show ?thesis by (simp add: do_readdir_def dirents_from_def)
next
  case False
  with assms have lt: "unat off < length (pi_children n)" by simp
  then have "\<not> word_of_nat (length (pi_children n)) \<le> off"
    using assms(3) by (simp add: word_le_nat_alt unat_of_nat)
  moreover have "[unat off ..< length (pi_children n)] =
      map (\<lambda>j. unat off + j) [0 ..< length (pi_children n) - unat off]"
    using lt by (simp add: map_add_upt add.commute)
  ultimately show ?thesis
    using assms lt
    by (simp add: do_readdir_def readdir_loop_page dirents_from_def comp_def algebra_simps)
qed

lemma dirents_from_length [simp]: "length (dirents_from n off) = length (pi_children n) - off"
  by (simp add: dirents_from_def)

lemma dirents_from_drop: "drop m (dirents_from n off) = dirents_from n (off + m)"
  by (simp add: dirents_from_def drop_map drop_upt)

lemma last_page_offset:
  assumes "ds = take cap (dirents_from n off)" and "ds \<noteq> []"
  shows "de_offset (last ds) = word_of_nat (off + length ds)"
proof -
  have "ds ! j = dirents_from n off ! j" if "j < length ds" for j
    using that assms(1) by simp
  then have "last ds = dirents_from n off ! (length ds - 1)"
    using assms(2) by (simp add: last_conv_nth)
  moreover obtain m where "length ds = Suc m" using assms(2) by (cases ds) auto
  moreover have "length ds \<le> length (pi_children n) - off" by (simp add: assms(1))
  ultimately show ?thesis by (simp add: dirents_from_def)
qed

section \<open>Saving and restoring\<close>

text \<open>The values of a hash map, in any order.\<close>

definition hash_values :: "'v list \<Rightarrow> ('k \<rightharpoonup> 'v) \<Rightarrow> bool" where
  "hash_values vals m \<longleftrightarrow> distinct vals \<and> set vals = ran m"

text \<open>The table in which only the children whose numbers are in \<open>A\<close> are connected.\<close>

definition connected :: "u64 set \<Rightarrow> pseudo_fs \<Rightarrow> u64 \<rightharpoonup> pseudo_inode" where
  "connected A fs k =
     map_option (\<lambda>n. n\<lparr>pi_children := filter (\<lambda>c. fst c \<in> A) (pi_children n)\<rparr>) (inodes fs k)"

lemma filter_sorted_insert:
  assumes "sorted_wrt (<) (map fst cs)" and "(x, nm) \<in> set cs" and "\<forall>a\<in>A. a < (x :: u64)"
  shows "filter (\<lambda>c. fst c \<in> insert x A) cs = filter (\<lambda>c. fst c \<in> A) cs @ [(x, nm)]"
  using assms
proof (induction cs)
  case (Cons c cs)
  show ?case
  proof (cases "c = (x, nm)")
    case True
    then have "filter (\<lambda>c. fst c \<in> insert x A) cs = []" "filter (\<lambda>c. fst c \<in> A) cs = []"
      using Cons.prems(1,3) by (force simp: filter_empty_conv)+
    with True Cons.prems(3) show ?thesis by auto
  next
    case False
    with Cons.prems have "(x, nm) \<in> set cs" "fst c < x" by force+
    with Cons show ?thesis by auto
  qed
qed simp

lemma connect_step:
  assumes wf: "pseudo_wf fs" and n: "inodes fs k = Some n" and "k \<noteq> ROOT_ID"
    and less: "\<forall>a\<in>A. a < k" and p: "connected A fs (pi_parent n) = Some p"
    and n': "pi_ino n' = k" "pi_name n' = pi_name n"
  shows "(connected A fs)(pi_parent n \<mapsto> insert_child p n') = connected (insert k A) fs"
proof
  fix j
  from pseudo_wfD [OF wf n] \<open>k \<noteq> ROOT_ID\<close> obtain q where
    q: "inodes fs (pi_parent n) = Some q" "(k, pi_name n) \<in> set (pi_children q)"
    by (auto simp: node_wf_def)
  show "((connected A fs)(pi_parent n \<mapsto> insert_child p n')) j = connected (insert k A) fs j"
  proof (cases "j = pi_parent n")
    case True
    have "sorted_wrt (<) (map fst (pi_children q))"
      using pseudo_wfD [OF wf q(1)] by (simp add: node_wf_def)
    note ins = filter_sorted_insert [OF this q(2) less]
    have "p = q\<lparr>pi_children := filter (\<lambda>c. fst c \<in> A) (pi_children q)\<rparr>"
      using p q(1) by (simp add: connected_def)
    then show ?thesis
      using True q(1) n' unfolding connected_def by (simp add: insert_child_def flip: ins)
  next
    case False
    have "k \<notin> fst ` set (pi_children r)" if r: "inodes fs j = Some r" for r
      using pseudo_wfD [OF wf r] n False by (fastforce simp: node_wf_def)
    then have "filter (\<lambda>c. fst c \<in> insert k A) (pi_children r) =
        filter (\<lambda>c. fst c \<in> A) (pi_children r)" if "inodes fs j = Some r" for r
      using that by (intro filter_cong) (auto simp: image_iff)
    with False show ?thesis by (cases "inodes fs j") (simp_all add: connected_def)
  qed
qed

lemma connect_inodes_connected:
  assumes "pseudo_wf fs" and "sorted_wrt (<) (map ps_ino sts)"
    and "\<forall>a\<in>A. \<forall>s\<in>set sts. a < ps_ino s"
    and "\<forall>s\<in>set sts. ps_ino s \<noteq> ROOT_ID \<and>
      (\<exists>n. inodes fs (ps_ino s) = Some n \<and> s = pseudo_inode_state_of n)"
  shows "connect_inodes sts (connected A fs) = (Ok (), connected (A \<union> ps_ino ` set sts) fs)"
  using assms(2-4)
proof (induction sts arbitrary: A)
  case (Cons s sts)
  from Cons.prems(3) obtain n where n: "inodes fs (ps_ino s) = Some n" "ps_ino s \<noteq> ROOT_ID"
    by auto
  then have ino: "pi_ino n = ps_ino s"
    using pseudo_wfD [OF assms(1)] by (simp add: node_wf_def)
  obtain n' where n': "connected A fs (ps_ino s) = Some n'" "pi_ino n' = ps_ino s"
    "pi_parent n' = pi_parent n" "pi_name n' = pi_name n"
    using n ino by (simp add: connected_def)
  obtain p where p: "connected A fs (pi_parent n) = Some p"
    using parent_in_table [OF assms(1) n(1)] by (auto simp: connected_def)
  have "\<forall>a\<in>A. a < ps_ino s" using Cons.prems(2) by simp
  note step = connect_step [OF assms(1) n this p n'(2,4)]
  have "\<forall>a\<in>insert (ps_ino s) A. \<forall>s'\<in>set sts. a < ps_ino s'"
    using Cons.prems(1,2) by auto
  with Cons n' p step show ?case by (simp add: Un_insert_left)
qed simp

lemma rebuild_inodes_lookup:
  "distinct (map ps_ino sts) \<Longrightarrow>
   rebuild_inodes sts m k =
     (case List.find (\<lambda>s. ps_ino s = k) sts of
        Some s \<Rightarrow> Some (pseudo_inode_new (ps_ino s) (ps_parent s) (ps_name s))
      | None \<Rightarrow> m k)"
proof (induction sts arbitrary: m)
  case (Cons s sts)
  show ?case
  proof (cases "ps_ino s = k")
    case True
    then have "List.find (\<lambda>s. ps_ino s = k) sts = None"
      using Cons.prems by (simp add: find_None_iff_map)
    with True Cons show ?thesis by simp
  qed (use Cons in \<open>auto split: option.split\<close>)
qed simp

text \<open>The states written by a save: one per node but the root, with distinct numbers.\<close>

lemma saved_states:
  assumes "pseudo_wf fs" and "hash_values vals (inodes fs)"
  defines "sts \<equiv> pfs_inodes (pseudo_save_state vals fs)"
  shows "distinct (map ps_ino sts)"
    and "s \<in> set sts \<longleftrightarrow> (\<exists>k n. inodes fs k = Some n \<and> k \<noteq> ROOT_ID \<and> s = pseudo_inode_state_of n)"
proof -
  have ino: "inodes fs (pi_ino n) = Some n" if "n \<in> set vals" for n
    using that assms(1,2) unfolding hash_values_def pseudo_wf_def node_wf_def ran_def by blast
  then have "inj_on pi_ino (set vals)"
    by (metis inj_onI option.inject)
  then have "distinct (map pi_ino (filter (\<lambda>n. pi_ino n \<noteq> ROOT_ID) vals))"
    using assms(2) by (auto simp: hash_values_def distinct_map inj_on_def)
  then show "distinct (map ps_ino sts)"
    by (simp add: sts_def pseudo_save_state_def pseudo_inode_state_of_def comp_def)
  have "inodes fs k = Some n \<Longrightarrow> n \<in> set vals \<and> pi_ino n = k" for k n
    using assms(1,2) unfolding hash_values_def pseudo_wf_def node_wf_def by (auto intro: ranI)
  with ino show "s \<in> set sts \<longleftrightarrow>
      (\<exists>k n. inodes fs k = Some n \<and> k \<noteq> ROOT_ID \<and> s = pseudo_inode_state_of n)"
    by (auto simp: sts_def pseudo_save_state_def)
qed

lemma rebuild_saved:
  assumes wf: "pseudo_wf fs" and hv: "hash_values vals (inodes fs)"
  shows "(rebuild_inodes (pfs_inodes (pseudo_save_state vals fs)) Map.empty)(ROOT_ID \<mapsto> pseudo_root)
     = connected {} fs"
proof
  fix k
  let ?sts = "pfs_inodes (pseudo_save_state vals fs)"
  note st = saved_states [OF wf hv]
  have wfk: "node_wf fs k n" if "inodes fs k = Some n" for n
    using pseudo_wfD [OF wf that] .
  show "((rebuild_inodes ?sts Map.empty)(ROOT_ID \<mapsto> pseudo_root)) k = connected {} fs k"
  proof (cases "k = ROOT_ID")
    case True
    with pseudo_wf_root [OF wf] wfk show ?thesis
      by (simp add: connected_def node_wf_def pseudo_root_def pseudo_inode_new_def)
  next
    case False
    show ?thesis
    proof (cases "inodes fs k")
      case None
      with st(2) wf have "List.find (\<lambda>s. ps_ino s = k) ?sts = None"
        by (auto simp: find_None_iff pseudo_inode_state_of_def pseudo_wf_def node_wf_def)
      with None False show ?thesis
        by (simp add: rebuild_inodes_lookup st(1) connected_def)
    next
      case (Some n)
      then have "pi_ino n = k" using wfk by (simp add: node_wf_def)
      moreover have "List.find (\<lambda>s. ps_ino s = k) ?sts = Some (pseudo_inode_state_of n)"
        using find_distinct [OF st(1), of "pseudo_inode_state_of n"] st(2) Some False
          \<open>pi_ino n = k\<close> by (auto simp: pseudo_inode_state_of_def)
      ultimately show ?thesis
        using Some False
        by (simp add: rebuild_inodes_lookup st(1) connected_def pseudo_inode_state_of_def
            pseudo_inode_new_def)
    qed
  qed
qed

lemma connected_all:
  assumes wf: "pseudo_wf fs"
  shows "connected (dom (inodes fs) - {ROOT_ID}) fs = inodes fs"
proof
  fix k
  have "filter (\<lambda>c. fst c \<in> dom (inodes fs) - {ROOT_ID}) (pi_children n) = pi_children n"
    if n: "inodes fs k = Some n" for n
  proof (rule filter_True, rule ballI)
    fix c assume "c \<in> set (pi_children n)"
    with pseudo_wfD [OF wf n] show "fst c \<in> dom (inodes fs) - {ROOT_ID}"
      by (auto simp: node_wf_def)
  qed
  then show "connected (dom (inodes fs) - {ROOT_ID}) fs k = inodes fs k"
    by (cases "inodes fs k") (simp_all add: connected_def)
qed

lemma restore_saved_state:
  assumes wf: "pseudo_wf fs" and hv: "hash_values vals (inodes fs)"
  shows "restore_from_state (pseudo_save_state vals fs) pseudo_fs_new = (Ok (), fs)"
proof -
  let ?sts = "pfs_inodes (pseudo_save_state vals fs)"
  note st = saved_states [OF wf hv]
  have root: "root_inode pseudo_fs_new = pseudo_root" "pi_ino pseudo_root = ROOT_ID"
    by (simp_all add: root_inode_def pseudo_fs_new_def insert_inode_def pseudo_root_def
        pseudo_inode_new_def)
  have ino: "inodes fs k = Some n \<Longrightarrow> pi_ino n = k" for k n
    using pseudo_wfD [OF wf] by (simp add: node_wf_def)
  have "k \<in> ps_ino ` set ?sts \<longleftrightarrow> k \<in> dom (inodes fs) \<and> k \<noteq> ROOT_ID" for k
    unfolding image_iff Bex_def st(2) dom_def mem_Collect_eq
    using ino by (metis not_None_eq pseudo_inode_state.select_convs(1) pseudo_inode_state_of_def)
  then have inos: "ps_ino ` set ?sts = dom (inodes fs) - {ROOT_ID}" by blast
  have "sorted_wrt (<) (map ps_ino (sort_key ps_ino ?sts))"
    using st(1) by (simp add: strict_sorted_iff distinct_map)
  moreover have "\<forall>s\<in>set (sort_key ps_ino ?sts). ps_ino s \<noteq> ROOT_ID \<and>
      (\<exists>n. inodes fs (ps_ino s) = Some n \<and> s = pseudo_inode_state_of n)"
    using ino by (auto simp: st(2) pseudo_inode_state_of_def)
  ultimately have "connect_inodes (sort_key ps_ino ?sts) (connected {} fs) = (Ok (), inodes fs)"
    using connect_inodes_connected [OF wf, of "sort_key ps_ino ?sts" "{}"]
    by (simp add: inos connected_all [OF wf])
  moreover have "pfs_next_inode (pseudo_save_state vals fs) = next_inode fs"
    by (simp add: pseudo_save_state_def)
  ultimately show ?thesis
    by (simp add: restore_from_state_def root rebuild_saved [OF wf hv])
qed

section \<open>Evicting a node\<close>

lemma remove_first_child:
  assumes "distinct (map snd cs)" and "(k, nm) \<in> set cs"
  shows "remove_first (\<lambda>x. snd x = nm) cs = Some (filter (\<lambda>c. c \<noteq> (k, nm)) cs)"
  using assms
proof (induction cs)
  case (Cons c cs)
  show ?case
  proof (cases "snd c = nm")
    case True
    with Cons.prems have "c = (k, nm)" by (cases c) (auto simp: rev_image_eqI)
    moreover have "filter (\<lambda>c. c \<noteq> (k, nm)) cs = cs"
      using Cons.prems(1) True by (intro filter_True) (auto simp: rev_image_eqI)
    ultimately show ?thesis by simp
  qed (use Cons in auto)
qed simp

definition evicted :: "u64 \<Rightarrow> pseudo_inode \<Rightarrow> pseudo_inode \<Rightarrow> pseudo_fs \<Rightarrow> pseudo_fs" where
  "evicted k n p fs = fs\<lparr>inodes := (inodes fs)
     (pi_parent n \<mapsto> p\<lparr>pi_children := filter (\<lambda>c. c \<noteq> (k, pi_name n)) (pi_children p)\<rparr>, k := None)\<rparr>"

lemma evict_inode_eq:
  assumes wf: "pseudo_wf fs" and n: "inodes fs k = Some n" and k: "k \<noteq> ROOT_ID"
    and p: "inodes fs (pi_parent n) = Some p"
  shows "evict_inode k fs = (Ok (), evicted k n p fs)"
proof -
  from pseudo_wfD [OF wf n] k p
  have "k \<noteq> pi_parent n" "pi_ino n = k" "(k, pi_name n) \<in> set (pi_children p)"
    by (auto simp: node_wf_def)
  moreover from pseudo_wfD [OF wf p]
  have "distinct (map snd (pi_children p))" "pi_ino p = pi_parent n" by (simp_all add: node_wf_def)
  ultimately show ?thesis
    using n p
    by (simp add: evict_inode_def remove_child_def remove_first_child evicted_def insert_inode_def
        remove_inode_def)
qed

lemma evicted_node_wf:
  assumes wf: "pseudo_wf fs" and n: "inodes fs k = Some n" and k: "k \<noteq> ROOT_ID"
    and p: "inodes fs (pi_parent n) = Some p" and leaf: "pi_children n = []"
    and j: "inodes fs j = Some m" and "j \<noteq> k"
  shows "node_wf (evicted k n p fs) j
    (m\<lparr>pi_children := filter (\<lambda>c. c \<noteq> (k, pi_name n)) (pi_children m)\<rparr>)"
proof -
  note wj = pseudo_wfD [OF wf j, unfolded node_wf_def] and wn = pseudo_wfD [OF wf n, unfolded node_wf_def]
  have ne: "pi_parent n \<noteq> k" using wn k by auto
  have sub: "inodes (evicted k n p fs) x = Some y'" if "inodes fs x = Some y" "x \<noteq> k"
    "y' = (if x = pi_parent n then y\<lparr>pi_children := filter (\<lambda>c. c \<noteq> (k, pi_name n)) (pi_children y)\<rparr> else y)"
    for x y y'
    using that p ne by (auto simp: evicted_def)
  have kid: "c \<noteq> (k, pi_name n) \<Longrightarrow> c \<in> set (pi_children m) \<Longrightarrow> fst c \<noteq> k" for c
    using wj n by fastforce
  have "\<exists>m'. inodes (evicted k n p fs) (fst c) = Some m' \<and> pi_parent m' = j \<and> pi_name m' = snd c"
    if c: "c \<in> set (pi_children m)" "c \<noteq> (k, pi_name n)" for c
  proof -
    from wj c(1) obtain m1 where "inodes fs (fst c) = Some m1" "pi_parent m1 = j" "pi_name m1 = snd c"
      by blast
    with sub [OF _ kid [OF c(2,1)]] show ?thesis by fastforce
  qed
  moreover have "\<exists>q. inodes (evicted k n p fs) (pi_parent m) = Some q \<and> (j, pi_name m) \<in> set (pi_children q)"
    if "j \<noteq> ROOT_ID"
  proof -
    from wj that obtain q where q: "inodes fs (pi_parent m) = Some q" "(j, pi_name m) \<in> set (pi_children q)"
      by auto
    with leaf n have "pi_parent m \<noteq> k" by auto
    with sub [OF q(1)] q(2) \<open>j \<noteq> k\<close> show ?thesis by fastforce
  qed
  ultimately show ?thesis
    using wj by (auto simp: node_wf_def evicted_def sorted_wrt_filter sorted_wrt_map distinct_map inj_on_def)
qed

lemma evicted_wf:
  assumes wf: "pseudo_wf fs" and n: "inodes fs k = Some n" and k: "k \<noteq> ROOT_ID"
    and p: "inodes fs (pi_parent n) = Some p" and leaf: "pi_children n = []"
  shows "pseudo_wf (evicted k n p fs)"
proof -
  have "node_wf (evicted k n p fs) j m'" if j: "inodes (evicted k n p fs) j = Some m'" for j m'
  proof -
    from j have "j \<noteq> k" by (auto simp: evicted_def)
    show ?thesis
    proof (cases "j = pi_parent n")
      case True
      with j \<open>j \<noteq> k\<close> have "m' = p\<lparr>pi_children := filter (\<lambda>c. c \<noteq> (k, pi_name n)) (pi_children p)\<rparr>"
        by (simp add: evicted_def)
      with True evicted_node_wf [OF wf n k p leaf p] \<open>j \<noteq> k\<close> show ?thesis by simp
    next
      case False
      with j \<open>j \<noteq> k\<close> have m: "inodes fs j = Some m'" by (simp add: evicted_def)
      have "c \<noteq> (k, pi_name n)" if "c \<in> set (pi_children m')" for c
        using pseudo_wfD [OF wf m] n False that by (auto simp: node_wf_def)
      then have "filter (\<lambda>c. c \<noteq> (k, pi_name n)) (pi_children m') = pi_children m'"
        by (simp add: filter_True)
      with evicted_node_wf [OF wf n k p leaf m \<open>j \<noteq> k\<close>] show ?thesis by simp
    qed
  qed
  moreover have "ROOT_ID \<in> dom (inodes (evicted k n p fs))"
    using wf k by (auto simp: evicted_def pseudo_wf_def)
  ultimately show ?thesis by (simp add: pseudo_wf_def)
qed

lemma pseudo_lookup_child:
  assumes wf: "pseudo_wf fs" and n: "inodes fs k = Some n"
    and "utf8_valid name" and "name \<noteq> ''.''" and "name \<noteq> ''..''"
  shows "pseudo_lookup now ctx k name fs =
    (case path_walk_from [Normal name] n fs of
       Ok (Some i) \<Rightarrow> (Ok (get_entry now i), fs) | _ \<Rightarrow> (Err (Os ENOENT), fs))"
proof (cases "find_child name n")
  case None
  with assms show ?thesis by (simp add: pseudo_lookup_def)
next
  case (Some c)
  from find_child_Some [OF wf n Some] obtain m where m: "inodes fs (fst c) = Some m" "k < fst c"
    by blast
  with pseudo_wfD [OF wf m(1)] have "pi_ino m = fst c" "fst c \<noteq> 0"
    by (auto simp: node_wf_def)
  with assms Some m show ?thesis by (simp add: pseudo_lookup_def)
qed

section \<open>The tree as a provider of mount points\<close>

definition mount_cost :: "string \<Rightarrow> nat" where
  "mount_cost p = length (path_components p)"

lemma pseudo_mount_full:
  assumes wf: "pseudo_wf fs" and "path_has_root p"
    and "unat (next_inode fs) + mount_cost p < 2 ^ 64"
  shows "\<exists>i fs'. pseudo_mount p fs = (Ok i, fs') \<and> pseudo_wf fs' \<and> pseudo_ext fs fs' \<and>
     i \<in> dom (inodes fs') \<and> path_walk p fs' = Ok (Some i) \<and>
     unat (next_inode fs') \<le> unat (next_inode fs) + mount_cost p"
proof -
  note root = pseudo_wf_root [OF wf, THEN conjunct1]
  from mount_walk_post [OF wf root path_components_no_prefix] assms(3)
  obtain i fs' where m: "mount_walk (path_components p) (root_inode fs) fs = (Ok i, fs')"
    and post: "pseudo_wf fs'" "pseudo_ext fs fs'" "i \<in> dom (inodes fs')"
      "unat (next_inode fs') \<le> unat (next_inode fs) + mount_cost p"
    and w: "walks_to fs' (path_components p) ROOT_ID i"
    unfolding mount_post_def mount_cost_def by blast
  have "path_walk p fs' = Ok (Some i)"
    using assms(2) walks_toD [OF w pseudo_wf_root [OF post(1), THEN conjunct1]]
    by (simp add: path_walk_def)
  then show ?thesis
    using m assms(2) post by (auto simp: pseudo_mount_def)
qed

lemma pseudo_ext_path_walk:
  assumes wf: "pseudo_wf fs" and wf': "pseudo_wf fs'" and ext: "pseudo_ext fs fs'"
    and "path_walk q fs = Ok (Some j)"
  shows "path_walk q fs' = Ok (Some j)"
proof -
  note root = pseudo_wf_root [OF wf, THEN conjunct1]
  from assms(4) have q: "path_has_root q" "path_walk_from (path_components q) (root_inode fs) fs = Ok (Some j)"
    by (auto simp: path_walk_def split: if_splits)
  from path_walk_walks_to [OF wf root q(2)] ext have "walks_to fs' (path_components q) ROOT_ID j"
    by (rule walks_to_ext)
  with q(1) pseudo_wf_root [OF wf', THEN conjunct1] show ?thesis
    by (simp add: path_walk_def walks_toD)
qed

lemma pseudo_mount_ok:
  assumes "pseudo_wf fs" and "path_has_root p" and "unat (next_inode fs) + mount_cost p < 2 ^ 64"
  shows "\<exists>i fs'. pseudo_mount p fs = (Ok i, fs') \<and> pseudo_wf fs' \<and>
     path_walk p fs' = Ok (Some i) \<and> unat (next_inode fs') \<le> unat (next_inode fs) + mount_cost p \<and>
     (\<forall>q j. path_walk q fs = Ok (Some j) \<longrightarrow> path_walk q fs' = Ok (Some j))"
  using pseudo_mount_full [OF assms] pseudo_ext_path_walk [OF assms(1)] by blast

lemma pseudo_ext_dom: "pseudo_ext fs fs' \<Longrightarrow> dom (inodes fs) \<subseteq> dom (inodes fs')"
  unfolding pseudo_ext_def by blast

interpretation pseudo_tree: mount_tree pseudo_wf path_has_root "\<lambda>fs. unat (next_inode fs)" mount_cost
    "2 ^ 64" pseudo_mount path_walk
proof unfold_locales
  show "path_walk p t = Ok (Some i) \<Longrightarrow> pseudo_mount p t = (Ok i, t)" for p t i
    by (auto simp: path_walk_def pseudo_mount_def mount_walk_existing split: if_splits)
qed (rule pseudo_mount_ok)

section \<open>Properties\<close>

text \<open>
  (C12) Mounting a list of absolute paths one after the other always succeeds while inode
  numbers last: no \<^verbatim>\<open>unwrap\<close> fails, the tree stays well formed, afterwards every mounted path
  (however the paths share prefixes or use dots) still resolves to the number its own mount
  returned, and every path that resolved before still resolves to the same number.
\<close>

theorem mounts_resolve:
  assumes "pseudo_wf fs" and "\<forall>p\<in>set ps. path_has_root p"
    and "unat (next_inode fs) + sum_list (map mount_cost ps) < 2 ^ 64"
  shows "\<exists>is fs'. mount_seq pseudo_mount ps fs = (Ok is, fs') \<and> pseudo_wf fs' \<and>
      list_all2 (\<lambda>p i. path_walk p fs' = Ok (Some i)) ps is \<and>
      (\<forall>q j. path_walk q fs = Ok (Some j) \<longrightarrow> path_walk q fs' = Ok (Some j))"
  by (rule pseudo_tree.mount_seq_resolves [OF assms])

theorem mounts_resolve_witness:
  "pseudo_wf pseudo_fs_new \<and> path_has_root ''/a/b'' \<and> path_has_root ''/a/../c'' \<and>
   (\<exists>is fs'. mount_seq pseudo_mount [''/a/b'', ''/a/../c''] pseudo_fs_new = (Ok is, fs') \<and>
      pseudo_wf fs' \<and>
      list_all2 (\<lambda>p i. path_walk p fs' = Ok (Some i)) [''/a/b'', ''/a/../c''] is \<and>
      (\<forall>q j. path_walk q pseudo_fs_new = Ok (Some j) \<longrightarrow> path_walk q fs' = Ok (Some j)))"
proof -
  have r: "path_has_root ''/a/b''" "path_has_root ''/a/../c''" by (simp_all add: path_has_root_def)
  then have "\<forall>p\<in>set [''/a/b'', ''/a/../c'']. path_has_root p" by simp
  moreover have "mount_cost ''/a/b'' = 3" "mount_cost ''/a/../c'' = 4" by code_simp+
  then have "unat (next_inode pseudo_fs_new) + sum_list (map mount_cost [''/a/b'', ''/a/../c'']) < 2 ^ 64"
    by simp
  ultimately show ?thesis
    using mounts_resolve [OF pseudo_fs_new_wf] pseudo_fs_new_wf r by blast
qed

text \<open>
  (C31) Mounting is idempotent: mounting the same path again returns the same number and
  changes nothing, in particular it consumes no inode number.
\<close>

theorem mount_again:
  assumes "pseudo_wf fs" and "path_has_root p" and "unat (next_inode fs) + mount_cost p < 2 ^ 64"
  shows "\<exists>i fs'. pseudo_mount p fs = (Ok i, fs') \<and> pseudo_mount p fs' = (Ok i, fs')"
  by (rule pseudo_tree.mount_idempotent [OF assms])

theorem mount_again_witness:
  "path_has_root ''/a/b'' \<and>
   (\<exists>i fs'. pseudo_mount ''/a/b'' pseudo_fs_new = (Ok i, fs') \<and> pseudo_mount ''/a/b'' fs' = (Ok i, fs'))"
proof -
  have "path_has_root ''/a/b''" by (simp add: path_has_root_def)
  moreover have "mount_cost ''/a/b'' = 3" by code_simp
  then have "unat (next_inode pseudo_fs_new) + mount_cost ''/a/b'' < 2 ^ 64" by simp
  ultimately show ?thesis using mount_again [OF pseudo_fs_new_wf] by blast
qed

text \<open>
  (C30) A walk over a well-formed tree never panics and fails only on a relative path: it
  reports the number of a live node or that the path does not exist.
\<close>

theorem path_walk_total:
  assumes "pseudo_wf fs"
  shows "if path_has_root p
    then path_walk p fs = Ok None \<or> (\<exists>i\<in>dom (inodes fs). path_walk p fs = Ok (Some i))
    else path_walk p fs = Err (Os EINVAL)"
  using path_walk_from_ok [OF assms pseudo_wf_root [OF assms, THEN conjunct1]
      path_components_no_prefix, of p]
  by (simp add: path_walk_def)

theorem path_walk_total_witness:
  "path_walk ''/x'' pseudo_fs_new = Ok None \<and> path_walk ''x'' pseudo_fs_new = Err (Os EINVAL)"
proof -
  have "path_has_root ''/x''" "\<not> path_has_root ''x''" by (simp_all add: path_has_root_def)
  moreover have "path_walk ''/x'' pseudo_fs_new \<noteq> Ok (Some i)" for i
    by (simp add: path_walk_def path_has_root_def path_components_def pseudo_fs_new_def
        pseudo_root_def pseudo_inode_new_def root_inode_def insert_inode_def find_child_def)
  ultimately show ?thesis
    using path_walk_total [OF pseudo_fs_new_wf, of "''/x''"] path_walk_total [OF pseudo_fs_new_wf, of "''x''"]
    by auto
qed

definition example_tree :: pseudo_fs where
  "example_tree = snd (pseudo_mount ''/a/b'' pseudo_fs_new)"

lemma example_tree_wf: "pseudo_wf example_tree"
proof -
  have "path_has_root ''/a/b''" by (simp add: path_has_root_def)
  moreover have "mount_cost ''/a/b'' = 3" by code_simp
  ultimately show ?thesis
    using pseudo_mount_ok [OF pseudo_fs_new_wf, of "''/a/b''"] by (auto simp: example_tree_def)
qed

lemma example_tree_eq:
  "example_tree = \<lparr>next_inode = 4,
    inodes = [1 \<mapsto> pseudo_root\<lparr>pi_children := [(2, ''a'')]\<rparr>,
     2 \<mapsto> \<lparr>pi_ino = 2, pi_parent = 1, pi_children = [(3, ''b'')], pi_name = ''a''\<rparr>,
     3 \<mapsto> \<lparr>pi_ino = 3, pi_parent = 2, pi_children = [], pi_name = ''b''\<rparr>]\<rparr>"
proof -
  have "path_components ''/a/b'' = [RootDir, Normal ''a'', Normal ''b'']" by code_simp
  then show ?thesis
    by (simp add: example_tree_def pseudo_mount_def path_has_root_def root_inode_def
        pseudo_fs_new_def insert_inode_def pseudo_root_def pseudo_inode_new_def find_child_def
        create_inode_def new_inode_def insert_child_def PSEUDOFS_NEXT_INODE_def ROOT_ID_def fun_eq_iff)
qed

text \<open>
  (C27) Reading a directory in pages loses and repeats nothing: when a page ends because the
  buffer is full, the page read from the offset of its last entry continues with the very
  next child, so the two pages together are the corresponding run of the full listing.
\<close>

theorem readdir_pages:
  assumes "inodes fs k = Some n" and "sz \<noteq> 0" and "length (pi_children n) < 2 ^ 64"
    and "unat off \<le> length (pi_children n)"
    and "do_readdir k sz off (page_add cap) [] fs = (Ok (), ds)" and "ds \<noteq> []"
  shows "\<exists>es. do_readdir k sz (de_offset (last ds)) (page_add cap') [] fs = (Ok (), es) \<and>
     ds @ es = take (length ds + cap') (dirents_from n (unat off))"
proof -
  have ds: "ds = take cap (dirents_from n (unat off))"
    using do_readdir_page [OF assms(1-4)] assms(5) by simp
  then have len: "unat off + length ds \<le> length (pi_children n)" using assms(4) by simp
  have lo: "de_offset (last ds) = word_of_nat (unat off + length ds)"
    by (rule last_page_offset [OF ds assms(6)])
  moreover from lo have "unat (de_offset (last ds)) = unat off + length ds"
    using len assms(3) by (simp only: unat_of_nat) simp
  ultimately have "do_readdir k sz (de_offset (last ds)) (page_add cap') [] fs =
      (Ok (), take cap' (drop (length ds) (dirents_from n (unat off))))"
    using do_readdir_page [OF assms(1-3), of "de_offset (last ds)"] len
    by (simp add: dirents_from_drop)
  moreover have "ds = take (length ds) (dirents_from n (unat off))"
    by (metis ds append_take_drop_id append_eq_conv_conj)
  ultimately show ?thesis by (metis take_add)
qed

theorem readdir_pages_witness:
  "\<exists>es. do_readdir 1 1 1 (page_add 5) [] example_tree = (Ok (), es) \<and>
     [\<lparr>de_ino = 2, de_offset = 1, de_type = 0, de_name = ''a''\<rparr>] @ es =
       take 6 (dirents_from (pseudo_root\<lparr>pi_children := [(2, ''a'')]\<rparr>) 0)"
proof -
  have "do_readdir 1 1 0 (page_add 1) [] example_tree =
      (Ok (), [\<lparr>de_ino = 2, de_offset = 1, de_type = 0, de_name = ''a''\<rparr>])"
    by (simp add: do_readdir_def example_tree_eq page_add_def)
  from readdir_pages [OF _ _ _ _ this, of "pseudo_root\<lparr>pi_children := [(2, ''a'')]\<rparr>" 5]
  show ?thesis by (simp add: example_tree_eq)
qed

text \<open>
  (C29) A FUSE lookup and a path walk agree: for a name of valid UTF-8 (a path has no other
  components) that is not a dot entry, lookup
  returns the entry of the node that the walk over that one component finds, and ENOENT
  when the walk finds none.
\<close>

theorem lookup_agrees_with_walk:
  assumes "pseudo_wf fs" and "inodes fs k = Some n"
    and "utf8_valid name" and "name \<noteq> ''.''" and "name \<noteq> ''..''"
  shows "pseudo_lookup now ctx k name fs =
    (case path_walk_from [Normal name] n fs of
       Ok (Some i) \<Rightarrow> (Ok (get_entry now i), fs) | _ \<Rightarrow> (Err (Os ENOENT), fs))"
  by (rule pseudo_lookup_child [OF assms])

theorem lookup_agrees_with_walk_witness:
  "pseudo_lookup 7 context_default 1 ''a'' example_tree = (Ok (get_entry 7 2), example_tree)"
proof -
  have "utf8_valid ''a''" by (simp add: utf8_valid_def)
  moreover have "inodes example_tree 1 = Some (pseudo_root\<lparr>pi_children := [(2, ''a'')]\<rparr>)"
    by (simp add: example_tree_eq)
  ultimately show ?thesis
    using lookup_agrees_with_walk [OF example_tree_wf, of 1 _ "''a''"]
    by (simp add: example_tree_eq find_child_def)
qed

text \<open>
  (C13) Saving and restoring is the identity: whatever order the hash map yields its values
  in, and for every snapshot codec that loads what it saved, restoring the saved bytes into
  a new pseudo file system gives back the original one, with every child list in its
  original order and the same next inode number.
\<close>

theorem save_restore_identity:
  assumes "pseudo_wf fs" and "hash_values vals (inodes fs)"
    and "\<forall>st buf. snap_save st = Some buf \<longrightarrow> snap_load buf = Some st"
    and "pseudo_save_to_bytes snap_save vals fs = Ok buf"
  shows "pseudo_restore_from_bytes snap_load buf pseudo_fs_new = (Ok (), fs)"
  using assms restore_saved_state [OF assms(1,2)]
  by (auto simp: pseudo_save_to_bytes_def pseudo_restore_from_bytes_def split: option.splits)

theorem save_restore_identity_witness:
  "let st = pseudo_save_state [pseudo_root] pseudo_fs_new;
       snap_save = (\<lambda>s. if s = st then Some [42] else None);
       snap_load = (\<lambda>buf. if buf = [42] then Some st else None)
   in pseudo_save_to_bytes snap_save [pseudo_root] pseudo_fs_new = Ok [42] \<and>
      pseudo_restore_from_bytes snap_load [42] pseudo_fs_new = (Ok (), pseudo_fs_new)"
proof -
  let ?st = "pseudo_save_state [pseudo_root] pseudo_fs_new"
  let ?save = "\<lambda>s. if s = ?st then Some [42] else None"
  let ?load = "\<lambda>buf. if buf = [42] then Some ?st else None"
  have "hash_values [pseudo_root] (inodes pseudo_fs_new)"
    by (auto simp: hash_values_def pseudo_fs_new_def insert_inode_def)
  moreover have "\<forall>st buf. ?save st = Some buf \<longrightarrow> ?load buf = Some st" by simp
  moreover have "pseudo_save_to_bytes ?save [pseudo_root] pseudo_fs_new = Ok [42]"
    by (simp add: pseudo_save_to_bytes_def)
  ultimately show ?thesis
    using save_restore_identity [OF pseudo_fs_new_wf, of "[pseudo_root]" ?save ?load "[42]"]
    unfolding Let_def by blast
qed

text \<open>
  (C28) Evicting a leaf other than the root never panics, removes exactly that node, and
  leaves a well-formed tree.
\<close>

theorem evict_leaf:
  assumes "pseudo_wf fs" and "inodes fs k = Some n" and "k \<noteq> ROOT_ID" and "pi_children n = []"
  shows "\<exists>fs'. evict_inode k fs = (Ok (), fs') \<and> pseudo_wf fs' \<and>
     dom (inodes fs') = dom (inodes fs) - {k} \<and> next_inode fs' = next_inode fs"
proof -
  obtain p where p: "inodes fs (pi_parent n) = Some p"
    using parent_in_table [OF assms(1,2)] by blast
  then have "dom (inodes (evicted k n p fs)) = dom (inodes fs) - {k}"
    "next_inode (evicted k n p fs) = next_inode fs"
    by (auto simp: evicted_def)
  with evict_inode_eq [OF assms(1-3) p] evicted_wf [OF assms(1-3) p assms(4)]
  show ?thesis by blast
qed

theorem evict_leaf_witness:
  "\<exists>fs'. evict_inode 3 example_tree = (Ok (), fs') \<and> pseudo_wf fs' \<and>
     dom (inodes fs') = dom (inodes example_tree) - {3} \<and> next_inode fs' = next_inode example_tree"
  by (rule evict_leaf [OF example_tree_wf]) (auto simp: example_tree_eq ROOT_ID_def)

text \<open>
  Eviction does not check that the node is a leaf. After \<^verbatim>\<open>/a\<close> of the tree with \<^verbatim>\<open>/a/b\<close> is
  evicted, node 3 stays in the table with a parent that is gone: a second eviction panics,
  and the saved state can not be restored.
\<close>

lemma evict_inner_node_orphans:
  "let fs' = snd (evict_inode 2 example_tree); orphan = the (inodes fs' 3) in
   fst (evict_inode 2 example_tree) = Ok () \<and>
   inodes fs' 3 \<noteq> None \<and> path_walk ''/a/b'' fs' = Ok None \<and>
   fst (evict_inode 3 fs') = Panic \<and>
   fst (restore_from_state (pseudo_save_state [root_inode fs', orphan] fs') pseudo_fs_new) =
     Err (Custom InvalidData)"
proof -
  have "path_components ''/a/b'' = [RootDir, Normal ''a'', Normal ''b'']" by code_simp
  then show ?thesis
    by (simp add: Let_def example_tree_eq evict_inode_def remove_child_def insert_inode_def
        remove_inode_def path_walk_def path_has_root_def root_inode_def pseudo_root_def
        pseudo_inode_new_def find_child_def restore_from_state_def pseudo_save_state_def
        pseudo_inode_state_of_def pseudo_fs_new_def ROOT_ID_def)
qed

end
