(* ===== verification/Vfs.thy ===== *)
theory Vfs
  imports Pseudo_Fs
begin

text \<open>
  The union file system of \<^verbatim>\<open>api/vfs/mod.rs\<close>: mount points of the pseudo file system lead to
  backend file systems, and an inode number of the VFS is an 8-bit backend index and a
  56-bit inode number of that backend.

  A backend is a value of the parameter type \<open>'b\<close> with the trait's methods as the record
  \<open>be\<close> of type \<^typ>\<open>('b, 'c) backend_ops\<close>: the sources hold boxed trait objects, so the
  backends of one VFS may be of different kinds. \<^verbatim>\<open>mount\<close> takes the backend by value and its
  superblock slot holds the only long-lived reference, so an \<^verbatim>\<open>Arc<BackFileSystem>\<close> taken
  from a slot is represented by the index of the slot. The list \<open>dropped\<close> is a ghost: the
  backends the VFS let go of, in the state in which it did so. The operations are the
  serialised ones.
\<close>

section \<open>Inode numbers and names\<close>

type_synonym vfs_index = u8

definition SLASH_ASCII :: char where "SLASH_ASCII = CHR ''/''"
definition CURRENT_DIR_CSTR :: string where "CURRENT_DIR_CSTR = ''.'' @ [CHR 0x00]"
definition PARENT_DIR_CSTR :: string where "PARENT_DIR_CSTR = ''..'' @ [CHR 0x00]"
definition VFS_MAX_INO :: u64 where "VFS_MAX_INO = 0xFFFFFFFFFFFFFF"
definition VFS_INDEX_SHIFT :: nat where "VFS_INDEX_SHIFT = 56"
definition VFS_PSEUDO_FS_IDX :: vfs_index where "VFS_PSEUDO_FS_IDX = 0"
definition MAX_VFS_INDEX :: nat where "MAX_VFS_INDEX = 256"

datatype vfs_inode = VfsInode u64

datatype vfs_error =
    Unsupported | Mount io_error | RestoreMount io_error | InodeIndex | FsIndex io_error
  | PathWalk io_error | VfsNotFound | Initialize | Persist

datatype 'a vfs_res = VOk 'a | VErr vfs_error | VPanic

text \<open>\<^verbatim>\<open>map_err\<close> of an \<^verbatim>\<open>io::Result\<close> followed by \<^verbatim>\<open>?\<close> in a function that returns \<^verbatim>\<open>VfsResult\<close>.\<close>

fun vfs_try :: "(io_error \<Rightarrow> vfs_error) \<Rightarrow> 'a res \<Rightarrow> ('a \<Rightarrow> 'b vfs_res \<times> 's) \<Rightarrow> 's \<Rightarrow> 'b vfs_res \<times> 's" where
  "vfs_try f (Ok x) k s = k x"
| "vfs_try f (Err e) k s = (VErr (f e), s)"
| "vfs_try f Panic k s = (VPanic, s)"

definition to_bytes_with_nul :: "cname \<Rightarrow> string" where
  "to_bytes_with_nul name = name @ [CHR 0x00]"

definition starts_with :: "'a list \<Rightarrow> 'a list \<Rightarrow> bool" where
  "starts_with xs p \<longleftrightarrow> take (length p) xs = p"

definition is_dot_or_dotdot :: "cname \<Rightarrow> bool" where
  "is_dot_or_dotdot name \<longleftrightarrow>
     (let bs = to_bytes_with_nul name
      in starts_with bs CURRENT_DIR_CSTR \<or> starts_with bs PARENT_DIR_CSTR)"

definition is_safe_path_component :: "cname \<Rightarrow> bool" where
  "is_safe_path_component name \<longleftrightarrow>
     (if SLASH_ASCII \<in> set (to_bytes_with_nul name) then False else \<not> is_dot_or_dotdot name)"

definition validate_path_component :: "cname \<Rightarrow> unit res" where
  "validate_path_component name =
     (if is_safe_path_component name then Ok () else Err (Os EINVAL))"

definition vfs_inode_new :: "vfs_index \<Rightarrow> u64 \<Rightarrow> vfs_inode res" where
  "vfs_inode_new idx ino =
     (if ino AND NOT VFS_MAX_INO = 0 then Ok (VfsInode (push_bit VFS_INDEX_SHIFT (ucast idx) OR ino))
      else Panic)"

fun vi_fs_idx :: "vfs_inode \<Rightarrow> vfs_index" where
  "vi_fs_idx (VfsInode v) = ucast (drop_bit VFS_INDEX_SHIFT v)"

fun is_pseudo_fs :: "vfs_inode \<Rightarrow> bool" where
  "is_pseudo_fs (VfsInode v) \<longleftrightarrow> ucast (drop_bit VFS_INDEX_SHIFT v) = VFS_PSEUDO_FS_IDX"

fun vi_ino :: "vfs_inode \<Rightarrow> u64" where
  "vi_ino (VfsInode v) = v AND VFS_MAX_INO"

fun vfs_inode_into :: "vfs_inode \<Rightarrow> u64" where
  "vfs_inode_into (VfsInode v) = v"

section \<open>State\<close>

record mount_point_data =
  mp_fs_idx :: vfs_index
  mp_ino :: u64
  mp_root_entry :: entry
  mp_path :: string

record vfs_options =
  no_readdir :: bool
  seal_size :: bool
  in_opts :: fs_options
  out_opts :: fs_options
  opt_id_mapping :: "u32 \<times> u32 \<times> u32"
  no_open :: bool
  no_opendir :: bool
  no_writeback :: bool
  killpriv_v2 :: bool

definition vfs_options_default :: vfs_options where
  "vfs_options_default =
     \<lparr>no_readdir = False, seal_size = False, in_opts = 0,
      out_opts = ASYNC_READ OR PARALLEL_DIROPS OR BIG_WRITES OR ASYNC_DIO OR AUTO_INVAL_DATA OR
        HAS_IOCTL_DIR OR WRITEBACK_CACHE OR ZERO_MESSAGE_OPEN OR MAX_PAGES OR ATOMIC_O_TRUNC OR
        CACHE_SYMLINKS OR DO_READDIRPLUS OR READDIRPLUS_AUTO OR EXPLICIT_INVAL_DATA OR
        ZERO_MESSAGE_OPENDIR OR HANDLE_KILLPRIV_V2 OR PERFILE_DAX,
      opt_id_mapping = (0, 0, 0), no_open = True, no_opendir = True, no_writeback = False,
      killpriv_v2 = False\<rparr>"

record 'b vfs =
  next_super :: u8
  root :: pseudo_fs
  mountpoints :: "u64 \<rightharpoonup> mount_point_data"
  superblocks :: "'b option list"
  opts :: vfs_options
  initialized :: bool
  remove_pseudo_root :: bool
  id_mapping :: "(u32 \<times> u32 \<times> u32) option"
  dropped :: "'b list"

definition vfs_new :: "vfs_options \<Rightarrow> 'b vfs" where
  "vfs_new vo =
     \<lparr>next_super = VFS_PSEUDO_FS_IDX + 1, root = pseudo_fs_new, mountpoints = Map.empty,
      superblocks = replicate MAX_VFS_INDEX None, opts = vo, initialized = False,
      remove_pseudo_root = False,
      id_mapping = (if snd (snd (opt_id_mapping vo)) = 0 then None else Some (opt_id_mapping vo)),
      dropped = []\<rparr>"

definition set_remove_pseudo_root :: "'b vfs \<Rightarrow> 'b vfs" where
  "set_remove_pseudo_root v = v\<lparr>remove_pseudo_root := True\<rparr>"

section \<open>Conversions\<close>

definition convert_inode :: "vfs_index \<Rightarrow> u64 \<Rightarrow> u64 res" where
  "convert_inode idx inode =
     (if inode = 0 then Ok inode
      else if inode > VFS_MAX_INO then Err (Custom Other)
      else Ok (push_bit VFS_INDEX_SHIFT (ucast idx) OR inode))"

definition map_id :: "u32 \<Rightarrow> u32 \<Rightarrow> u32 \<Rightarrow> u32 \<Rightarrow> u32" where
  "map_id from to rng i = (if i \<ge> from \<and> i < from + rng then i + (to - from) else i)"

definition convert_entry ::
  "(u32 \<times> u32 \<times> u32) option \<Rightarrow> vfs_index \<Rightarrow> u64 \<Rightarrow> entry \<Rightarrow> entry res" where
  "convert_entry idm idx inode entry =
     res_map (\<lambda>ino.
       let attr = (e_attr entry)\<lparr>st_ino := ino\<rparr>;
           attr' = (case idm of
                      None \<Rightarrow> attr
                    | Some (internal_id, external_id, rng) \<Rightarrow>
                        attr\<lparr>st_uid := map_id internal_id external_id rng (st_uid attr),
                             st_gid := map_id internal_id external_id rng (st_gid attr)\<rparr>)
       in entry\<lparr>e_inode := ino, e_attr := attr'\<rparr>)
     (convert_inode idx inode)"

definition remap_attr_id :: "(u32 \<times> u32 \<times> u32) option \<Rightarrow> bool \<Rightarrow> stat64 \<Rightarrow> stat64" where
  "remap_attr_id idm map_internal_to_external attr =
     (case idm of
        None \<Rightarrow> attr
      | Some (internal_id, external_id, rng) \<Rightarrow>
          if map_internal_to_external
          then attr\<lparr>st_uid := map_id internal_id external_id rng (st_uid attr),
                    st_gid := map_id internal_id external_id rng (st_gid attr)\<rparr>
          else attr\<lparr>st_uid := map_id external_id internal_id rng (st_uid attr),
                    st_gid := map_id external_id internal_id rng (st_gid attr)\<rparr>)"

section \<open>Superblocks\<close>

text \<open>What is left of the search for a free index, for its termination.\<close>

definition alloc_measure :: "u8 \<Rightarrow> bool \<Rightarrow> u8 \<Rightarrow> nat" where
  "alloc_measure start found next = (if found then 0 else 256) + unat (start - next)"

lemma alloc_measure_step:
  assumes "\<not> (next = start \<and> found)"
  shows "alloc_measure start found next = Suc (alloc_measure start (found \<or> next = start) (next + 1))"
proof (cases "next = start")
  case True
  have "unat (start - (start + 1)) = 255"
    by (simp add: unsigned_minus_1_eq_mask mask_eq_exp_minus_1)
  with True assms show ?thesis by (simp add: alloc_measure_def)
next
  case False
  then have "start - next \<noteq> 0" by simp
  then have "unat (start - next) = Suc (unat (start - next - 1))"
    using unat_minus_one [of "start - next"] unat_gt_0 [of "start - next"] by linarith
  then have "unat (start - next) = Suc (unat (start - (next + 1)))" by (simp add: diff_diff_eq)
  with False show ?thesis by (simp add: alloc_measure_def)
qed

text \<open>
  The loop of \<^verbatim>\<open>allocate_fs_idx\<close>: \<open>next\<close> is the atomic counter, which wraps; the result is
  the index found, with the counter it leaves.
\<close>

function alloc_loop :: "'b option list \<Rightarrow> u8 \<Rightarrow> bool \<Rightarrow> u8 \<Rightarrow> vfs_index option \<times> u8" where
  "alloc_loop sbs start found next =
     (if next = start \<and> found then (None, next + 1)
      else
        (let found' = (found \<or> next = start) in
         if next = VFS_PSEUDO_FS_IDX then alloc_loop sbs start found' (next + 1)
         else if unat next < length sbs \<and> sbs ! unat next \<noteq> None
              then alloc_loop sbs start found' (next + 1)
         else (Some next, next + 1)))"
  by pat_completeness auto

termination
  by (relation "measure (\<lambda>(sbs, start, found, next). alloc_measure start found next)")
    (use alloc_measure_step in \<open>auto\<close>)

declare alloc_loop.simps [simp del]

definition allocate_fs_idx :: "('b vfs, vfs_index) op" where
  "allocate_fs_idx v =
     (case alloc_loop (superblocks v) (next_super v) False (next_super v) of
        (Some index, next) \<Rightarrow> (Ok index, v\<lparr>next_super := next\<rparr>)
      | (None, next) \<Rightarrow> (Err (Custom Other), v\<lparr>next_super := next\<rparr>))"

text \<open>The backend in a slot; the index of a slice out of rng panics.\<close>

definition get_fs_by_idx :: "vfs_index \<Rightarrow> 'b vfs \<Rightarrow> 'b res" where
  "get_fs_by_idx idx v =
     (if unat idx < length (superblocks v)
      then case superblocks v ! unat idx of Some fs \<Rightarrow> Ok fs | None \<Rightarrow> Err (Os ENOENT)
      else Panic)"

datatype vfs_either = Left | Right vfs_index

definition get_real_rootfs :: "vfs_inode \<Rightarrow> 'b vfs \<Rightarrow> (vfs_either \<times> vfs_inode) res" where
  "get_real_rootfs inode v =
     (if is_pseudo_fs inode then
        (if vi_ino inode = ROOT_ID then
           (case mountpoints v (vi_ino inode) of
              Some mnt \<Rightarrow>
                res_bind (get_fs_by_idx (mp_fs_idx mnt) v) (\<lambda>_.
                res_map (\<lambda>i. (Right (mp_fs_idx mnt), i)) (vfs_inode_new (mp_fs_idx mnt) (mp_ino mnt)))
            | None \<Rightarrow> Ok (Left, inode))
         else Ok (Left, inode))
      else res_map (\<lambda>_. (Right (vi_fs_idx inode), inode)) (get_fs_by_idx (vi_fs_idx inode) v))"

section \<open>Mounting\<close>

definition insert_mount_locked ::
  "'b \<Rightarrow> entry \<Rightarrow> vfs_index \<Rightarrow> string \<Rightarrow> ('b vfs, unit) op" where
  "insert_mount_locked fs entry idx path v =
     (case pseudo_mount path (root v) of
        (Err e, p) \<Rightarrow> (Err e, v\<lparr>root := p, dropped := dropped v @ [fs]\<rparr>)
      | (Panic, p) \<Rightarrow> (Panic, v\<lparr>root := p, dropped := dropped v @ [fs]\<rparr>)
      | (Ok inode, p) \<Rightarrow>
          (case convert_entry (id_mapping v) idx (e_inode entry) entry of
             Err e \<Rightarrow> (Err e, v\<lparr>root := p, dropped := dropped v @ [fs]\<rparr>)
           | Panic \<Rightarrow> (Panic, v\<lparr>root := p, dropped := dropped v @ [fs]\<rparr>)
           | Ok entry' \<Rightarrow>
               (let (sbs, old) =
                      (case mountpoints v inode of
                         Some mnt \<Rightarrow>
                           ((superblocks v)[unat (mp_fs_idx mnt) := None],
                            (case superblocks v ! unat (mp_fs_idx mnt) of Some b \<Rightarrow> [b] | None \<Rightarrow> []))
                       | None \<Rightarrow> (superblocks v, []));
                    mountpoint = \<lparr>mp_fs_idx = idx, mp_ino = e_inode entry, mp_root_entry = entry',
                                  mp_path = path\<rparr>
                in (Ok (),
                    v\<lparr>root := p, superblocks := sbs[unat idx := Some fs],
                      mountpoints := (mountpoints v)(inode \<mapsto> mountpoint),
                      dropped := dropped v @ old\<rparr>))))"

text \<open>A backend mounted after the negotiation is initialised with the negotiated options.\<close>

definition mount_init :: "('b, 'c) backend_ops \<Rightarrow> 'b \<Rightarrow> 'b vfs \<Rightarrow> unit res \<times> 'b" where
  "mount_init be fs v =
     (if initialized v then
        (let (r, fs') = fs_init be (out_opts (opts v)) fs in (res_map (\<lambda>_. ()) r, fs'))
      else (Ok (), fs))"

definition vfs_mount :: "('b, 'c) backend_ops \<Rightarrow> 'b \<Rightarrow> string \<Rightarrow> 'b vfs \<Rightarrow> vfs_index vfs_res \<times> 'b vfs" where
  "vfs_mount be fs path v =
     (let (r, fs1) = be_mount be fs in
      vfs_try Mount r (\<lambda>(entry, ino).
        if ino > VFS_MAX_INO then (VErr InodeIndex, v\<lparr>dropped := dropped v @ [fs_destroy be fs1]\<rparr>)
        else
          (let (ri, fs2) = mount_init be fs1 v
           in vfs_try (\<lambda>_. Initialize) ri (\<lambda>_.
                (let (rx, v1) = allocate_fs_idx v in
                 vfs_try FsIndex rx (\<lambda>index.
                   (let (rm, v2) = insert_mount_locked fs2 entry index path v1 in
                    vfs_try Mount rm (\<lambda>_. (VOk index, v2)) v2))
                 (v1\<lparr>dropped := dropped v1 @ [fs2]\<rparr>)))
              (v\<lparr>dropped := dropped v @ [fs2]\<rparr>)))
      (v\<lparr>dropped := dropped v @ [fs1]\<rparr>))"

definition restore_mount ::
  "('b, 'c) backend_ops \<Rightarrow> 'b \<Rightarrow> vfs_index \<Rightarrow> string \<Rightarrow> ('b vfs, unit) op" where
  "restore_mount be fs idx path v =
     (let (r, fs1) = be_mount be fs in
      op_bind (r, v\<lparr>dropped := dropped v @ [fs1]\<rparr>) (\<lambda>(entry, ino) v'.
        if ino > VFS_MAX_INO then (Err (Custom Other), v')
        else insert_mount_locked fs1 entry idx path v))"

definition umount :: "('b, 'c) backend_ops \<Rightarrow> string \<Rightarrow> 'b vfs \<Rightarrow> (u64 \<times> u64) vfs_res \<times> 'b vfs" where
  "umount be path v =
     vfs_try PathWalk (path_walk path (root v)) (\<lambda>found.
       case found of
         None \<Rightarrow> (VErr VfsNotFound, v)
       | Some inode \<Rightarrow>
           (case get_parent_inode inode (root v) of
              None \<Rightarrow> (VErr VfsNotFound, v)
            | Some parent \<Rightarrow>
                (case mountpoints v inode of
                   None \<Rightarrow> (VErr VfsNotFound, v)
                 | Some x \<Rightarrow>
                     (let (re, p) = (if remove_pseudo_root v then evict_inode inode (root v)
                                     else (Ok (), root v));
                          v1 = v\<lparr>root := p\<rparr>
                      in vfs_try PathWalk re (\<lambda>_.
                           (let v2 = v1\<lparr>mountpoints := (mountpoints v)(inode := None)\<rparr>;
                                idx = unat (mp_fs_idx x)
                            in if idx < length (superblocks v) then
                                 (VOk (inode, parent),
                                  v2\<lparr>superblocks := (superblocks v)[idx := None],
                                     dropped := dropped v @
                                       (case superblocks v ! idx of
                                          Some fs \<Rightarrow> [fs_destroy be fs] | None \<Rightarrow> [])\<rparr>)
                               else (VPanic, v2))) v1)))) v"

definition get_rootfs :: "string \<Rightarrow> 'b vfs \<Rightarrow> 'b option vfs_res" where
  "get_rootfs path v =
     (case path_walk path (root v) of
        Err e \<Rightarrow> VErr (PathWalk e)
      | Panic \<Rightarrow> VPanic
      | Ok None \<Rightarrow> VOk None
      | Ok (Some inode) \<Rightarrow>
          (case mountpoints v inode of
             Some mnt \<Rightarrow>
               (case get_fs_by_idx (mp_fs_idx mnt) v of
                  Ok fs \<Rightarrow> VOk (Some fs)
                | Err e \<Rightarrow> VErr VfsNotFound
                | Panic \<Rightarrow> VPanic)
           | None \<Rightarrow> VOk None))"

section \<open>Persistence\<close>

text \<open>
  \<^verbatim>\<open>mod persist\<close>; the byte encodings are again parameters, one codec per saved type.
\<close>

record vfs_options_state =
  os_in_opts :: u64
  os_out_opts :: u64
  os_no_readdir :: bool
  os_seal_size :: bool
  os_id_mapping_internal :: u32
  os_id_mapping_external :: u32
  os_id_mapping_range :: u32
  os_no_open :: bool
  os_no_opendir :: bool
  os_no_writeback :: bool
  os_killpriv_v2 :: bool

record vfs_state =
  vs_options :: vfs_options_state
  vs_root :: bytes
  vs_next_super :: u8

definition vfs_options_save :: "vfs_options \<Rightarrow> vfs_options_state" where
  "vfs_options_save vo =
     \<lparr>os_in_opts = in_opts vo, os_out_opts = out_opts vo, os_no_readdir = no_readdir vo,
      os_seal_size = seal_size vo, os_id_mapping_internal = fst (opt_id_mapping vo),
      os_id_mapping_external = fst (snd (opt_id_mapping vo)),
      os_id_mapping_range = snd (snd (opt_id_mapping vo)),
      os_no_open = no_open vo, os_no_opendir = no_opendir vo, os_no_writeback = no_writeback vo,
      os_killpriv_v2 = killpriv_v2 vo\<rparr>"

definition vfs_options_restore :: "vfs_options_state \<Rightarrow> vfs_options option" where
  "vfs_options_restore st =
     (case flags_from_bits fs_options_all (os_in_opts st) of
        None \<Rightarrow> None
      | Some i \<Rightarrow>
          (case flags_from_bits fs_options_all (os_out_opts st) of
             None \<Rightarrow> None
           | Some x \<Rightarrow> Some
               \<lparr>no_readdir = os_no_readdir st, seal_size = os_seal_size st, in_opts = i, out_opts = x,
                opt_id_mapping = (os_id_mapping_internal st, os_id_mapping_external st,
                                  os_id_mapping_range st),
                no_open = os_no_open st, no_opendir = os_no_opendir st,
                no_writeback = os_no_writeback st, killpriv_v2 = os_killpriv_v2 st\<rparr>))"

definition vfs_save_to_bytes ::
  "(pseudo_fs_state \<Rightarrow> bytes option) \<Rightarrow> (vfs_state \<Rightarrow> bytes option) \<Rightarrow> pseudo_inode list \<Rightarrow>
     'b vfs \<Rightarrow> bytes vfs_res" where
  "vfs_save_to_bytes root_save snap_save vals v =
     (case pseudo_save_to_bytes root_save vals (root v) of
        Err e \<Rightarrow> VErr Persist
      | Panic \<Rightarrow> VPanic
      | Ok root_state \<Rightarrow>
          (case snap_save \<lparr>vs_options = vfs_options_save (opts v), vs_root = root_state,
                           vs_next_super = next_super v\<rparr> of
             None \<Rightarrow> VErr Persist
           | Some buf \<Rightarrow> VOk buf))"

definition vfs_restore_from_bytes ::
  "(bytes \<Rightarrow> pseudo_fs_state option) \<Rightarrow> (bytes \<Rightarrow> vfs_state option) \<Rightarrow> bytes \<Rightarrow>
     'b vfs \<Rightarrow> unit vfs_res \<times> 'b vfs" where
  "vfs_restore_from_bytes root_load snap_load buf v =
     (case snap_load buf of
        None \<Rightarrow> (VErr Persist, v)
      | Some st \<Rightarrow>
          (case vfs_options_restore (vs_options st) of
             None \<Rightarrow> (VErr Persist, v)
           | Some vo \<Rightarrow>
               (let v1 = v\<lparr>initialized := \<not> flags_is_empty (in_opts vo), opts := vo,
                           next_super := vs_next_super st\<rparr>;
                    (r, p) = pseudo_restore_from_bytes root_load (vs_root st) (root v1);
                    v2 = v1\<lparr>root := p\<rparr>
                in vfs_try (\<lambda>_. Persist) r (\<lambda>_. (VOk (), v2)) v2)))"

section \<open>Names and numbers\<close>

lemma is_dot_or_dotdot_iff:
  assumes "CHR 0x00 \<notin> set name"
  shows "is_dot_or_dotdot name \<longleftrightarrow> name = ''.'' \<or> name = ''..''"
proof (cases name rule: remdups_adj.cases)
  case (3 x y zs)
  with assms show ?thesis
    by (cases zs) (auto simp: is_dot_or_dotdot_def to_bytes_with_nul_def starts_with_def
        CURRENT_DIR_CSTR_def PARENT_DIR_CSTR_def Let_def)
qed (auto simp: is_dot_or_dotdot_def to_bytes_with_nul_def starts_with_def
    CURRENT_DIR_CSTR_def PARENT_DIR_CSTR_def Let_def)

lemma VFS_MAX_INO_mask: "VFS_MAX_INO = mask 56"
  by (simp add: VFS_MAX_INO_def mask_eq_exp_minus_1)

lemma bit_VFS_MAX_INO [simp]: "bit VFS_MAX_INO n \<longleftrightarrow> n < 56"
  unfolding VFS_MAX_INO_mask by (auto simp: bit_simps)

lemma le_VFS_MAX_INO_bit: "i \<le> VFS_MAX_INO \<longleftrightarrow> (\<forall>n. bit i n \<longrightarrow> n < 56)"
proof -
  have "i \<le> VFS_MAX_INO \<longleftrightarrow> take_bit 56 (uint i) = uint i"
    by (simp add: word_le_def VFS_MAX_INO_def take_bit_int_eq_self_iff) linarith
  also have "\<dots> \<longleftrightarrow> take_bit 56 i = i"
    by (simp add: word_uint_eq_iff unsigned_take_bit_eq)
  also have "\<dots> \<longleftrightarrow> (\<forall>n. bit i n \<longrightarrow> n < 56)"
    unfolding bit_eq_iff using bit_imp_le_length [of i] by (auto simp: bit_simps)
  finally show ?thesis .
qed

lemma not_VFS_MAX_INO_iff: "i AND NOT VFS_MAX_INO = 0 \<longleftrightarrow> i \<le> VFS_MAX_INO"
  unfolding le_VFS_MAX_INO_bit bit_eq_iff
  using bit_imp_le_length [of i] by (auto simp: bit_simps)

lemma vi_fs_idx_join [simp]:
  "i \<le> VFS_MAX_INO \<Longrightarrow> vi_fs_idx (VfsInode (push_bit VFS_INDEX_SHIFT (ucast idx) OR i)) = idx"
  unfolding le_VFS_MAX_INO_bit
  by (auto simp: VFS_INDEX_SHIFT_def bit_eq_iff [where ?'a = "8 word"] bit_simps dest: bit_imp_le_length)

lemma vi_ino_join [simp]:
  "i \<le> VFS_MAX_INO \<Longrightarrow> vi_ino (VfsInode (push_bit VFS_INDEX_SHIFT (ucast (idx :: u8)) OR i)) = i"
  unfolding le_VFS_MAX_INO_bit
  by (auto simp: VFS_INDEX_SHIFT_def bit_eq_iff [where ?'a = "64 word"] bit_simps)

lemma vi_split: "push_bit VFS_INDEX_SHIFT (ucast (vi_fs_idx (VfsInode w))) OR vi_ino (VfsInode w) = w"
  by (auto simp: VFS_INDEX_SHIFT_def bit_eq_iff [where ?'a = "64 word"] bit_simps)

lemma vi_ino_le: "vi_ino (VfsInode w) \<le> VFS_MAX_INO"
  unfolding le_VFS_MAX_INO_bit by (auto simp: bit_simps)

section \<open>Allocating an index\<close>

definition slot_free :: "'b option list \<Rightarrow> vfs_index \<Rightarrow> bool" where
  "slot_free sbs i \<longleftrightarrow> i \<noteq> VFS_PSEUDO_FS_IDX \<and> \<not> (unat i < length sbs \<and> sbs ! unat i \<noteq> None)"

lemma alloc_loop_Some:
  "alloc_loop sbs start found next = (Some i, n) \<Longrightarrow> slot_free sbs i \<and> n = i + 1"
proof (induction sbs start found "next" rule: alloc_loop.induct)
  case (1 sbs start found "next")
  from "1.prems" show ?case
    by (subst (asm) alloc_loop.simps) (use "1.IH" in \<open>auto simp: slot_free_def Let_def split: if_splits\<close>)
qed

lemma alloc_loop_None:
  "alloc_loop sbs start found next = (None, n) \<Longrightarrow> j < alloc_measure start found next \<Longrightarrow>
     \<not> slot_free sbs (next + of_nat j)"
proof (induction sbs start found "next" arbitrary: j rule: alloc_loop.induct)
  case (1 sbs start found "next")
  show ?case
  proof (cases "next = start \<and> found")
    case True
    with "1.prems"(2) show ?thesis by (simp add: alloc_measure_def)
  next
    case False
    let ?f = "found \<or> next = start"
    from "1.prems"(1) False have nf: "\<not> slot_free sbs next"
      by (subst (asm) alloc_loop.simps) (auto simp: slot_free_def Let_def split: if_splits)
    with "1.prems"(1) False have rec: "alloc_loop sbs start ?f (next + 1) = (None, n)"
      by (subst (asm) alloc_loop.simps) (auto simp: slot_free_def Let_def split: if_splits)
    show ?thesis
    proof (cases j)
      case (Suc j')
      with "1.prems"(2) alloc_measure_step [OF False] have "j' < alloc_measure start ?f (next + 1)"
        by simp
      moreover have "next = VFS_PSEUDO_FS_IDX \<or> unat next < length sbs \<and> sbs ! unat next \<noteq> None"
        using nf by (auto simp: slot_free_def)
      ultimately have "\<not> slot_free sbs (next + 1 + of_nat j')"
        using "1.IH" False rec by blast
      with Suc show ?thesis by (simp add: algebra_simps)
    qed (use nf in simp)
  qed
qed

lemma allocate_fs_idx_Ok:
  assumes "allocate_fs_idx v = (Ok idx, v')"
  shows "slot_free (superblocks v) idx" and "v' = v\<lparr>next_super := idx + 1\<rparr>"
  using assms alloc_loop_Some [of "superblocks v" "next_super v" False "next_super v"]
  by (auto simp: allocate_fs_idx_def split: prod.splits option.splits)

lemma allocate_fs_idx_Err:
  assumes "allocate_fs_idx v = (Err e, v')"
  shows "\<not> slot_free (superblocks v) idx"
proof -
  let ?s = "next_super v"
  from assms obtain n where "alloc_loop (superblocks v) ?s False ?s = (None, n)"
    by (auto simp: allocate_fs_idx_def split: prod.splits option.splits)
  moreover have "unat (idx - ?s) < alloc_measure ?s False ?s"
    using unsigned_less [of "idx - ?s"] by (simp add: alloc_measure_def)
  ultimately have "\<not> slot_free (superblocks v) (?s + of_nat (unat (idx - ?s)))"
    by (rule alloc_loop_None)
  then show ?thesis by simp
qed

lemma allocate_fs_idx_cases:
  obtains idx where "allocate_fs_idx v = (Ok idx, v\<lparr>next_super := idx + 1\<rparr>)" "slot_free (superblocks v) idx"
  | n where "allocate_fs_idx v = (Err (Custom Other), v\<lparr>next_super := n\<rparr>)" "\<And>i. \<not> slot_free (superblocks v) i"
proof (cases "alloc_loop (superblocks v) (next_super v) False (next_super v)")
  case (Pair r n)
  show ?thesis
  proof (cases r)
    case None
    with Pair have eq: "allocate_fs_idx v = (Err (Custom Other), v\<lparr>next_super := n\<rparr>)"
      by (simp add: allocate_fs_idx_def)
    show ?thesis by (rule that(2) [OF eq allocate_fs_idx_Err [OF eq]])
  next
    case (Some i)
    with Pair have eq: "allocate_fs_idx v = (Ok i, v\<lparr>next_super := n\<rparr>)"
      by (simp add: allocate_fs_idx_def)
    with allocate_fs_idx_Ok [OF eq] show ?thesis by (intro that(1)) simp_all
  qed
qed

section \<open>The mount invariant\<close>

text \<open>
  A mount point sits on a live pseudo node and leads to an occupied slot other than the one
  reserved for the pseudo file system; two mount points never share a slot, and every
  occupied slot belongs to a mount point.
\<close>

definition mount_wf :: "'b vfs \<Rightarrow> u64 \<Rightarrow> mount_point_data \<Rightarrow> bool" where
  "mount_wf v k m \<longleftrightarrow>
     k \<in> dom (inodes (root v)) \<and> mp_fs_idx m \<noteq> VFS_PSEUDO_FS_IDX \<and>
     superblocks v ! unat (mp_fs_idx m) \<noteq> None \<and> mp_ino m \<le> VFS_MAX_INO \<and>
     convert_inode (mp_fs_idx m) (mp_ino m) = Ok (e_inode (mp_root_entry m))"

definition vfs_wf :: "'b vfs \<Rightarrow> bool" where
  "vfs_wf v \<longleftrightarrow>
     pseudo_wf (root v) \<and> length (superblocks v) = MAX_VFS_INDEX \<and>
     (\<forall>k m. mountpoints v k = Some m \<longrightarrow> mount_wf v k m) \<and>
     (\<forall>k k' m m'. mountpoints v k = Some m \<and> mountpoints v k' = Some m' \<and>
        mp_fs_idx m = mp_fs_idx m' \<longrightarrow> k = k') \<and>
     (\<forall>i. superblocks v ! unat (i :: vfs_index) \<noteq> None \<longrightarrow>
        (\<exists>k m. mountpoints v k = Some m \<and> mp_fs_idx m = i))"

lemma vfs_wf_mount: "vfs_wf v \<Longrightarrow> mountpoints v k = Some m \<Longrightarrow> mount_wf v k m"
  by (simp add: vfs_wf_def)

lemma vfs_wf_pseudo: "vfs_wf v \<Longrightarrow> pseudo_wf (root v)"
  by (simp add: vfs_wf_def)

lemma vfs_wf_slot: "vfs_wf v \<Longrightarrow> unat (i :: u8) < length (superblocks v)"
  by (simp add: vfs_wf_def MAX_VFS_INDEX_def)

lemma vfs_wf_reserved: "vfs_wf v \<Longrightarrow> superblocks v ! 0 = None"
  unfolding vfs_wf_def mount_wf_def VFS_PSEUDO_FS_IDX_def
  by (metis not_None_eq unsigned_0)

lemma vfs_new_wf: "vfs_wf (vfs_new vo)"
  by (simp add: vfs_wf_def vfs_new_def pseudo_fs_new_wf MAX_VFS_INDEX_def)

lemma mount_wf_cong:
  assumes "mount_wf v k m" and "dom (inodes (root v)) \<subseteq> dom (inodes (root v'))"
    and "superblocks v' ! unat (mp_fs_idx m) = superblocks v ! unat (mp_fs_idx m)"
  shows "mount_wf v' k m"
  using assms by (auto simp: mount_wf_def)

lemma convert_inode_le: "convert_inode idx i = Ok j \<Longrightarrow> i \<le> VFS_MAX_INO"
  by (auto simp: convert_inode_def split: if_splits)

lemma convert_inode_Ok: "i \<le> VFS_MAX_INO \<Longrightarrow> \<exists>j. convert_inode idx i = Ok j"
  by (auto simp: convert_inode_def not_less)

lemma convert_entry_inode:
  "convert_entry idm idx i e = Ok e' \<Longrightarrow> convert_inode idx i = Ok (e_inode e') \<and> st_ino (e_attr e') = e_inode e'"
  by (auto simp: convert_entry_def Let_def split: option.splits)

lemma convert_entry_Ok_iff: "(\<exists>e'. convert_entry idm idx i e = Ok e') \<longleftrightarrow> i \<le> VFS_MAX_INO"
  using convert_inode_Ok convert_inode_le by (fastforce simp: convert_entry_def)

text \<open>The VFS after a successful insertion of a mount at node \<open>k\<close>.\<close>

definition mounted :: "u64 \<Rightarrow> pseudo_fs \<Rightarrow> 'b \<Rightarrow> mount_point_data \<Rightarrow> 'b vfs \<Rightarrow> 'b vfs" where
  "mounted k p fs m v =
     v\<lparr>root := p,
       superblocks :=
         (case mountpoints v k of
            Some old \<Rightarrow> (superblocks v)[unat (mp_fs_idx old) := None]
          | None \<Rightarrow> superblocks v)[unat (mp_fs_idx m) := Some fs],
       mountpoints := (mountpoints v)(k \<mapsto> m),
       dropped := dropped v @
         (case mountpoints v k of
            Some old \<Rightarrow> (case superblocks v ! unat (mp_fs_idx old) of Some b \<Rightarrow> [b] | None \<Rightarrow> [])
          | None \<Rightarrow> [])\<rparr>"

lemma mounted_simps [simp]:
  "root (mounted k p fs m v) = p"
  "mountpoints (mounted k p fs m v) = (mountpoints v)(k \<mapsto> m)"
  "length (superblocks (mounted k p fs m v)) = length (superblocks v)"
  by (simp_all add: mounted_def split: option.split)

lemma mounted_slot_other:
  assumes "j \<noteq> mp_fs_idx m" and "\<forall>old. mountpoints v k = Some old \<longrightarrow> mp_fs_idx old \<noteq> j"
  shows "superblocks (mounted k p fs m v) ! unat j = superblocks v ! unat j"
  using assms by (auto simp: mounted_def word_unat_eq_iff split: option.splits)

lemma mounted_slot_new:
  "vfs_wf v \<Longrightarrow> superblocks (mounted k p fs m v) ! unat (mp_fs_idx m) = Some fs"
  using vfs_wf_slot [of v "mp_fs_idx m"] by (auto simp: mounted_def split: option.splits)

lemma mounted_slot_old:
  assumes "vfs_wf v" and "mountpoints v k = Some old" and "mp_fs_idx old \<noteq> mp_fs_idx m"
  shows "superblocks (mounted k p fs m v) ! unat (mp_fs_idx old) = None"
  using assms vfs_wf_slot [of v "mp_fs_idx old"] by (auto simp: mounted_def word_unat_eq_iff)

lemma free_not_mounted:
  assumes "vfs_wf v" and "slot_free (superblocks v) idx" and "mountpoints v k = Some m"
  shows "mp_fs_idx m \<noteq> idx"
  using vfs_wf_mount [OF assms(1,3)] assms(2) vfs_wf_slot [OF assms(1), of idx]
  by (auto simp: slot_free_def mount_wf_def)

lemma vfs_wf_inj:
  assumes "vfs_wf v" and "mountpoints v k = Some m" and "mountpoints v k' = Some m'" and "k \<noteq> k'"
  shows "mp_fs_idx m \<noteq> mp_fs_idx m'"
  using assms unfolding vfs_wf_def by blast

lemma mounted_mount_wf:
  assumes wf: "vfs_wf v" and free: "slot_free (superblocks v) (mp_fs_idx m)"
    and sub: "dom (inodes (root v)) \<subseteq> dom (inodes p)" and k: "k \<in> dom (inodes p)"
    and conv: "convert_inode (mp_fs_idx m) (mp_ino m) = Ok (e_inode (mp_root_entry m))"
    and j: "mountpoints (mounted k p fs m v) j = Some m'"
  shows "mount_wf (mounted k p fs m v) j m'"
proof (cases "j = k")
  case True
  with j have "m' = m" by (simp add: mounted_def)
  with True free conv k mounted_slot_new [OF wf, of k p fs m] convert_inode_le [OF conv]
  show ?thesis by (simp add: mount_wf_def slot_free_def)
next
  case False
  with j have m': "mountpoints v j = Some m'" by (simp add: mounted_def)
  have "\<forall>old. mountpoints v k = Some old \<longrightarrow> mp_fs_idx old \<noteq> mp_fs_idx m'"
    using vfs_wf_inj [OF wf _ m'] False by blast
  then have "superblocks (mounted k p fs m v) ! unat (mp_fs_idx m') = superblocks v ! unat (mp_fs_idx m')"
    by (rule mounted_slot_other [OF free_not_mounted [OF wf free m']])
  moreover have "root (mounted k p fs m v) = p" by (simp add: mounted_def)
  ultimately show ?thesis
    using mount_wf_cong [OF vfs_wf_mount [OF wf m']] sub by metis
qed

lemma mounted_slot_owner:
  assumes wf: "vfs_wf v" and live: "superblocks (mounted k p fs m v) ! unat i \<noteq> None"
  shows "\<exists>j m'. mountpoints (mounted k p fs m v) j = Some m' \<and> mp_fs_idx m' = i"
proof (cases "i = mp_fs_idx m")
  case True
  then show ?thesis by (auto simp: mounted_def)
next
  case False
  have old: "\<forall>old. mountpoints v k = Some old \<longrightarrow> mp_fs_idx old \<noteq> i"
    using mounted_slot_old [OF wf] False live by metis
  with mounted_slot_other [OF False] live have "superblocks v ! unat i \<noteq> None" by metis
  with wf obtain j m' where j: "mountpoints v j = Some m'" "mp_fs_idx m' = i"
    unfolding vfs_wf_def by blast
  with old have "j \<noteq> k" by auto
  with j show ?thesis by (intro exI [of _ j]) (simp add: mounted_def)
qed

lemma mounted_wf:
  assumes wf: "vfs_wf v" and free: "slot_free (superblocks v) (mp_fs_idx m)"
    and p: "pseudo_wf p"
    and sub: "dom (inodes (root v)) \<subseteq> dom (inodes p)" and k: "k \<in> dom (inodes p)"
    and conv: "convert_inode (mp_fs_idx m) (mp_ino m) = Ok (e_inode (mp_root_entry m))"
  shows "vfs_wf (mounted k p fs m v)"
proof -
  let ?v = "mounted k p fs m v"
  have "length (superblocks ?v) = MAX_VFS_INDEX"
    using wf by (auto simp: mounted_def vfs_wf_def split: option.splits)
  moreover have "pseudo_wf (root ?v)" using p by (simp add: mounted_def)
  moreover have "j = j'" if "mountpoints ?v j = Some m1" "mountpoints ?v j' = Some m2"
    "mp_fs_idx m1 = mp_fs_idx m2" for j j' m1 m2
    using that vfs_wf_inj [OF wf] free_not_mounted [OF wf free]
    by (auto simp: mounted_def split: if_splits) metis+
  ultimately show ?thesis
    using mounted_mount_wf [OF wf free sub k conv] mounted_slot_owner [OF wf]
    unfolding vfs_wf_def [of ?v] by blast
qed

section \<open>Mounting and unmounting\<close>

definition mount_room :: "string \<Rightarrow> 'b vfs \<Rightarrow> bool" where
  "mount_room path v \<longleftrightarrow> unat (next_inode (root v)) + mount_cost path < 2 ^ 64"

lemma vfs_wf_frame:
  assumes "vfs_wf v" and "pseudo_wf (root v')" and "dom (inodes (root v)) \<subseteq> dom (inodes (root v'))"
    and "superblocks v' = superblocks v" and "mountpoints v' = mountpoints v"
  shows "vfs_wf v'"
proof -
  have "mount_wf v' k m" if "mountpoints v' k = Some m" for k m
    using that assms(3-5) by (intro mount_wf_cong [OF vfs_wf_mount [OF assms(1)]]) simp_all
  with assms show ?thesis by (simp add: vfs_wf_def)
qed

lemma vfs_wf_dropped [simp]: "vfs_wf (v\<lparr>dropped := d\<rparr>) \<longleftrightarrow> vfs_wf v"
  by (simp add: vfs_wf_def mount_wf_def)

lemma vfs_wf_next_super [simp]: "vfs_wf (v\<lparr>next_super := n\<rparr>) \<longleftrightarrow> vfs_wf v"
  by (simp add: vfs_wf_def mount_wf_def)

lemma insert_mount_ok:
  assumes wf: "vfs_wf v" and free: "slot_free (superblocks v) idx" and "path_has_root path"
    and "mount_room path v" and "e_inode entry \<le> VFS_MAX_INO"
  shows "\<exists>k p e'. pseudo_mount path (root v) = (Ok k, p) \<and> pseudo_ext (root v) p \<and>
     path_walk path p = Ok (Some k) \<and>
     convert_entry (id_mapping v) idx (e_inode entry) entry = Ok e' \<and>
     insert_mount_locked fs entry idx path v =
       (Ok (), mounted k p fs \<lparr>mp_fs_idx = idx, mp_ino = e_inode entry, mp_root_entry = e', mp_path = path\<rparr> v) \<and>
     vfs_wf (mounted k p fs \<lparr>mp_fs_idx = idx, mp_ino = e_inode entry, mp_root_entry = e', mp_path = path\<rparr> v)"
proof -
  from pseudo_mount_full [OF vfs_wf_pseudo [OF wf] assms(3)] assms(4)
  obtain k p where p: "pseudo_mount path (root v) = (Ok k, p)" "pseudo_wf p" "pseudo_ext (root v) p"
    "k \<in> dom (inodes p)" "path_walk path p = Ok (Some k)"
    unfolding mount_room_def by blast
  from assms(5) obtain e' where e': "convert_entry (id_mapping v) idx (e_inode entry) entry = Ok e'"
    using convert_entry_Ok_iff by blast
  let ?m = "\<lparr>mp_fs_idx = idx, mp_ino = e_inode entry, mp_root_entry = e', mp_path = path\<rparr>"
  have "insert_mount_locked fs entry idx path v = (Ok (), mounted k p fs ?m v)"
    using p(1) e' by (simp add: insert_mount_locked_def mounted_def Let_def split: option.split)
  moreover have "vfs_wf (mounted k p fs ?m v)"
    using mounted_wf [OF wf, of ?m p k] free p(2,4) pseudo_ext_dom [OF p(3)] convert_entry_inode [OF e']
    by simp
  ultimately show ?thesis using p e' by blast
qed

lemma insert_mount_locked_wf:
  assumes wf: "vfs_wf v" and free: "slot_free (superblocks v) idx" and room: "mount_room path v"
  shows "vfs_wf (snd (insert_mount_locked fs entry idx path v))"
proof (cases "path_has_root path")
  case False
  then show ?thesis using wf by (simp add: insert_mount_locked_def pseudo_mount_def)
next
  case True
  show ?thesis
  proof (cases "e_inode entry \<le> VFS_MAX_INO")
    case le: True
    from insert_mount_ok [OF wf free True room le, of fs] show ?thesis by auto
  next
    case False
    then have "convert_entry (id_mapping v) idx (e_inode entry) entry = Err (Custom Other)"
      by (auto simp: convert_entry_def convert_inode_def not_le)
    moreover from pseudo_mount_full [OF vfs_wf_pseudo [OF wf] True] room
    obtain k p where "pseudo_mount path (root v) = (Ok k, p)" "pseudo_wf p" "pseudo_ext (root v) p"
      unfolding mount_room_def by blast
    ultimately show ?thesis
      using vfs_wf_frame [OF wf, of "v\<lparr>root := p, dropped := dropped v @ [fs]\<rparr>"] pseudo_ext_dom
      by (simp add: insert_mount_locked_def)
  qed
qed

lemma vfs_try_snd:
  assumes "P s" and "\<And>x. r = Ok x \<Longrightarrow> P (snd (k x))"
  shows "P (snd (vfs_try f r k s))"
  using assms by (cases r) auto

lemma mount_room_next_super [simp]: "mount_room path (v\<lparr>next_super := n\<rparr>) = mount_room path v"
  by (simp add: mount_room_def)

lemma vfs_mount_preserves_wf:
  assumes wf: "vfs_wf v" and room: "mount_room path v"
  shows "vfs_wf (snd (vfs_mount be fs path v))"
proof -
  have ins: "vfs_wf (snd (insert_mount_locked fs2 entry idx path v1))"
    if "allocate_fs_idx v = (Ok idx, v1)" for fs2 entry idx v1
    using allocate_fs_idx_Ok [OF that] wf room by (simp add: insert_mount_locked_wf)
  have alloc: "vfs_wf v1" if "allocate_fs_idx v = (r, v1)" for r v1
    using that wf by (cases v rule: allocate_fs_idx_cases) auto
  obtain r fs1 where 1: "be_mount be fs = (r, fs1)" by fastforce
  obtain ri fs2 where 2: "mount_init be fs1 v = (ri, fs2)" by fastforce
  obtain rx v1 where 3: "allocate_fs_idx v = (rx, v1)" by fastforce
  have 4: "vfs_wf (snd (let (rm, v2) = insert_mount_locked fs2 entry idx path v1 in
      vfs_try Mount rm (\<lambda>_. (VOk idx, v2)) v2))" if "rx = Ok idx" for idx entry
    using ins [of idx v1 fs2 entry] 3 that
    by (cases "insert_mount_locked fs2 entry idx path v1"; cases "fst (insert_mount_locked fs2 entry idx path v1)") auto
  show ?thesis
  proof (cases r)
    case (Ok x)
    with 1 2 3 4 wf alloc [OF 3] show ?thesis
      by (cases x; cases ri; cases rx) (simp_all add: vfs_mount_def Let_def)
  qed (use 1 wf in \<open>simp_all add: vfs_mount_def\<close>)
qed

lemma mounted_next_super: "mounted k p fs m (v\<lparr>next_super := n\<rparr>) = (mounted k p fs m v)\<lparr>next_super := n\<rparr>"
  by (cases v) (simp add: mounted_def split: option.split)

lemma vfs_mount_success:
  assumes wf: "vfs_wf v" and "path_has_root path" and "mount_room path v"
    and "be_mount be fs = (Ok (entry, maxino), fs1)" and "maxino \<le> VFS_MAX_INO"
    and "e_inode entry \<le> VFS_MAX_INO" and "mount_init be fs1 v = (Ok (), fs2)"
    and "slot_free (superblocks v) i"
  shows "\<exists>idx k p m. vfs_mount be fs path v = (VOk idx, (mounted k p fs2 m v)\<lparr>next_super := idx + 1\<rparr>) \<and>
     slot_free (superblocks v) idx \<and> mp_fs_idx m = idx \<and> mp_ino m = e_inode entry \<and>
     path_walk path p = Ok (Some k) \<and> pseudo_ext (root v) p \<and>
     vfs_wf (mounted k p fs2 m v)"
proof -
  obtain idx where idx: "allocate_fs_idx v = (Ok idx, v\<lparr>next_super := idx + 1\<rparr>)"
    "slot_free (superblocks v) idx"
    using assms(8) by (cases v rule: allocate_fs_idx_cases) auto
  let ?v1 = "v\<lparr>next_super := idx + 1\<rparr>"
  from insert_mount_ok [of ?v1 idx path entry fs2] wf idx(2) assms(2,3,6)
  obtain k p m where "insert_mount_locked fs2 entry idx path ?v1 = (Ok (), mounted k p fs2 m ?v1)"
    "mp_fs_idx m = idx" "mp_ino m = e_inode entry" "path_walk path p = Ok (Some k)"
    "pseudo_ext (root v) p" "vfs_wf (mounted k p fs2 m ?v1)"
    by fastforce
  with idx assms show ?thesis
    by (intro exI [of _ idx] exI [of _ k] exI [of _ p] exI [of _ m])
      (simp add: vfs_mount_def not_less mounted_next_super)
qed

lemma get_rootfs_mounted:
  assumes "vfs_wf v" and "path_walk path p = Ok (Some k)"
  shows "get_rootfs path (mounted k p fs m v) = VOk (Some fs)"
  using assms mounted_slot_new [OF assms(1), of k p fs m] vfs_wf_slot [OF assms(1), of "mp_fs_idx m"]
  by (simp add: get_rootfs_def get_fs_by_idx_def)

lemma get_rootfs_mounted_other:
  assumes wf: "vfs_wf v" and wf': "vfs_wf (mounted k p fs m v)"
    and free: "slot_free (superblocks v) (mp_fs_idx m)" and ext: "pseudo_ext (root v) p"
    and j: "path_walk q (root v) = Ok (Some j)" and "j \<noteq> k"
  shows "get_rootfs q (mounted k p fs m v) = get_rootfs q v"
proof -
  let ?v = "mounted k p fs m v"
  have root: "root ?v = p" by (simp add: mounted_def)
  have mp: "mountpoints ?v j = mountpoints v j" using \<open>j \<noteq> k\<close> by (simp add: mounted_def)
  have walk: "path_walk q p = Ok (Some j)"
    using pseudo_ext_path_walk [OF vfs_wf_pseudo [OF wf] _ ext j] vfs_wf_pseudo [OF wf'] root by simp
  have "get_fs_by_idx (mp_fs_idx m') ?v = get_fs_by_idx (mp_fs_idx m') v"
    if m': "mountpoints v j = Some m'" for m'
  proof -
    have "superblocks ?v ! unat (mp_fs_idx m') = superblocks v ! unat (mp_fs_idx m')"
      using vfs_wf_inj [OF wf m'] \<open>j \<noteq> k\<close>
      by (intro mounted_slot_other free_not_mounted [OF wf free m']) metis
    then show ?thesis
      using vfs_wf_slot [OF wf] vfs_wf_slot [OF wf'] by (simp add: get_fs_by_idx_def)
  qed
  then show ?thesis
    using j walk root mp by (simp add: get_rootfs_def split: option.split)
qed

lemma get_rootfs_next_super [simp]: "get_rootfs q (w\<lparr>next_super := n\<rparr>) = get_rootfs q w"
  by (simp add: get_rootfs_def get_fs_by_idx_def split: res.split option.split)

definition umounted :: "('b, 'c) backend_ops \<Rightarrow> u64 \<Rightarrow> mount_point_data \<Rightarrow> pseudo_fs \<Rightarrow> 'b vfs \<Rightarrow> 'b vfs" where
  "umounted be k m p v =
     v\<lparr>root := p, mountpoints := (mountpoints v)(k := None),
       superblocks := (superblocks v)[unat (mp_fs_idx m) := None],
       dropped := dropped v @ (case superblocks v ! unat (mp_fs_idx m) of
                                 Some fs \<Rightarrow> [fs_destroy be fs] | None \<Rightarrow> [])\<rparr>"

lemma umounted_wf:
  assumes wf: "vfs_wf v" and m: "mountpoints v k = Some m" and p: "pseudo_wf p"
    and sub: "dom (inodes (root v)) - {k} \<subseteq> dom (inodes p)"
  shows "vfs_wf (umounted be k m p v)"
proof -
  let ?v = "umounted be k m p v"
  have slot: "superblocks ?v ! unat i = (if i = mp_fs_idx m then None else superblocks v ! unat i)" for i
    using vfs_wf_slot [OF wf, of i] by (simp add: umounted_def nth_list_update word_unat_eq_iff)
  have mp: "mountpoints ?v j = (if j = k then None else mountpoints v j)" for j
    by (simp add: umounted_def)
  have root: "root ?v = p" by (simp add: umounted_def)
  with p have "pseudo_wf (root ?v)" by simp
  moreover have "length (superblocks ?v) = MAX_VFS_INDEX"
    using wf by (simp add: umounted_def vfs_wf_def)
  moreover have "mount_wf ?v j m'" if "mountpoints ?v j = Some m'" for j m'
  proof -
    from that mp have j: "j \<noteq> k" "mountpoints v j = Some m'" by (auto split: if_splits)
    with vfs_wf_inj [OF wf m j(2)] vfs_wf_mount [OF wf j(2)] sub root
    show ?thesis by (auto simp: mount_wf_def slot)
  qed
  moreover have "\<exists>j m'. mountpoints ?v j = Some m' \<and> mp_fs_idx m' = i"
    if live: "superblocks ?v ! unat i \<noteq> None" for i
  proof -
    from live slot have i: "i \<noteq> mp_fs_idx m" "superblocks v ! unat i \<noteq> None" by (auto split: if_splits)
    with wf obtain j m' where "mountpoints v j = Some m'" "mp_fs_idx m' = i"
      unfolding vfs_wf_def by blast
    with i m mp show ?thesis by (intro exI [of _ j] exI [of _ m']) auto
  qed
  moreover have "j = j'" if "mountpoints ?v j = Some m1" "mountpoints ?v j' = Some m2"
    "mp_fs_idx m1 = mp_fs_idx m2" for j j' m1 m2
    using that mp vfs_wf_inj [OF wf] by (metis option.distinct(1))
  ultimately show ?thesis
    unfolding vfs_wf_def [of ?v] by blast
qed

lemma evict_root: "pseudo_wf fs \<Longrightarrow> evict_inode ROOT_ID fs = (Ok (), fs)"
  using pseudo_wf_root [of fs] pseudo_wfD [of fs ROOT_ID "root_inode fs"]
  by (auto simp: evict_inode_def node_wf_def)

text \<open>
  Unmounting is safe when the pseudo node is kept, is the root, or has no children.
\<close>

definition umount_safe :: "u64 \<Rightarrow> 'b vfs \<Rightarrow> bool" where
  "umount_safe k v \<longleftrightarrow>
     remove_pseudo_root v \<longrightarrow> k = ROOT_ID \<or> map_option pi_children (inodes (root v) k) = Some []"

lemma umount_evict:
  assumes wf: "vfs_wf v" and n: "inodes (root v) k = Some n" and "umount_safe k v"
  shows "\<exists>p. (if remove_pseudo_root v then evict_inode k (root v) else (Ok (), root v)) = (Ok (), p) \<and>
     pseudo_wf p \<and> dom (inodes (root v)) - {k} \<subseteq> dom (inodes p)"
proof (cases "remove_pseudo_root v \<and> k \<noteq> ROOT_ID")
  case True
  note pwf = vfs_wf_pseudo [OF wf]
  obtain q where q: "inodes (root v) (pi_parent n) = Some q" using parent_in_table [OF pwf n] by blast
  moreover have "pi_children n = []" using True assms(3) n by (auto simp: umount_safe_def)
  ultimately show ?thesis
    using True evict_inode_eq [OF pwf n _ q] evicted_wf [OF pwf n _ q] by (auto simp: evicted_def)
next
  case False
  then show ?thesis using vfs_wf_pseudo [OF wf] evict_root by (auto split: if_splits)
qed

lemma umount_ok:
  assumes wf: "vfs_wf v" and k: "path_walk path (root v) = Ok (Some k)"
    and m: "mountpoints v k = Some m" and safe: "umount_safe k v"
  shows "\<exists>p parent. umount be path v = (VOk (k, parent), umounted be k m p v) \<and>
     vfs_wf (umounted be k m p v)"
proof -
  from vfs_wf_mount [OF wf m] obtain n where n: "inodes (root v) k = Some n"
    by (auto simp: mount_wf_def)
  from umount_evict [OF wf n safe] obtain p where
    p: "(if remove_pseudo_root v then evict_inode k (root v) else (Ok (), root v)) = (Ok (), p)"
    "pseudo_wf p" "dom (inodes (root v)) - {k} \<subseteq> dom (inodes p)" by blast
  have "umount be path v = (VOk (k, pi_parent n), umounted be k m p v)"
    using k m n p(1) vfs_wf_slot [OF wf, of "mp_fs_idx m"]
    by (simp add: umount_def get_parent_inode_def umounted_def Let_def)
  with umounted_wf [OF wf m p(2,3)] show ?thesis by blast
qed

section \<open>Saving and restoring\<close>

lemma vfs_options_roundtrip:
  assumes "flags_contains fs_options_all (in_opts vo)" and "flags_contains fs_options_all (out_opts vo)"
  shows "vfs_options_restore (vfs_options_save vo) = Some vo"
proof -
  have "flags_from_bits fs_options_all w = Some w" if "flags_contains fs_options_all w" for w
    using that unfolding flags_contains_bit flags_from_bits_def bit_eq_iff by (auto simp: bit_simps)
  with assms show ?thesis
    by (simp add: vfs_options_restore_def vfs_options_save_def)
qed

lemma vfs_restore_saved:
  assumes "pseudo_wf (root v)" and "hash_values vals (inodes (root v))"
    and "flags_contains fs_options_all (in_opts (opts v))" and "flags_contains fs_options_all (out_opts (opts v))"
    and "\<forall>st buf. root_save st = Some buf \<longrightarrow> root_load buf = Some st"
    and "\<forall>st buf. snap_save st = Some buf \<longrightarrow> snap_load buf = Some st"
    and "vfs_save_to_bytes root_save snap_save vals v = VOk buf"
  shows "vfs_restore_from_bytes root_load snap_load buf (vfs_new vo) =
    (VOk (), (vfs_new vo)\<lparr>next_super := next_super v, root := root v, opts := opts v,
                          initialized := (in_opts (opts v) \<noteq> 0)\<rparr>)"
proof -
  from assms(7) obtain rs where rs: "pseudo_save_to_bytes root_save vals (root v) = Ok rs"
    and sv: "snap_save \<lparr>vs_options = vfs_options_save (opts v), vs_root = rs,
               vs_next_super = next_super v\<rparr> = Some buf"
    by (auto simp: vfs_save_to_bytes_def split: res.splits option.splits)
  from rs assms(5) have "root_load rs = Some (pseudo_save_state vals (root v))"
    by (auto simp: pseudo_save_to_bytes_def split: option.splits)
  then have "pseudo_restore_from_bytes root_load rs pseudo_fs_new = (Ok (), root v)"
    using restore_saved_state [OF assms(1,2)] by (simp add: pseudo_restore_from_bytes_def)
  with sv assms(6) vfs_options_roundtrip [OF assms(3,4)] show ?thesis
    by (simp add: vfs_restore_from_bytes_def vfs_new_def flags_is_empty_def)
qed

section \<open>A sample backend\<close>

text \<open>
  A backend whose state counts the lookups it has served and which is zeroed when it is
  destroyed: its root is inode 1 and every lookup finds inode 7.
\<close>

definition sample_backend :: "(nat, unit) backend_ops" where
  "sample_backend =
     fs_ops.extend
       (default_fs_ops
          \<lparr>fs_init := (\<lambda>caps s. (Ok caps, s)),
           fs_lookup := (\<lambda>ctx parent name s. (Ok (entry_default\<lparr>e_inode := 7\<rparr>), Suc s)),
           fs_destroy := (\<lambda>s. 0)\<rparr>)
       \<lparr>be_mount = (\<lambda>s. (Ok (entry_default\<lparr>e_inode := 1\<rparr>, 100), s))\<rparr>"

lemma sample_backend_simps [simp]:
  "be_mount sample_backend s = (Ok (entry_default\<lparr>e_inode := 1\<rparr>, 100), s)"
  "fs_destroy sample_backend s = 0"
  "fs_lookup sample_backend ctx parent name s = (Ok (entry_default\<lparr>e_inode := 7\<rparr>), Suc s)"
  "fs_init sample_backend caps s = (Ok caps, s)"
  by (simp_all add: sample_backend_def default_fs_ops_def fs_ops.defs)

definition sample_vfs :: "nat vfs" where
  "sample_vfs = vfs_new vfs_options_default"

lemma sample_vfs_wf: "vfs_wf sample_vfs"
  by (simp add: sample_vfs_def vfs_new_wf)

lemma sample_vfs_room: "mount_room ''/a'' sample_vfs"
proof -
  have "mount_cost ''/a'' = 2" by code_simp
  then show ?thesis by (simp add: mount_room_def sample_vfs_def vfs_new_def)
qed

section \<open>Properties\<close>

text \<open>
  (C23) Encoding and decoding of VFS inode numbers are inverse to each other: a backend index
  and an inode number of at most 56 bits are recovered from the number built from them,
  building one from a larger number panics, and every 64-bit number is the encoding of its
  own parts.
\<close>

theorem vfs_inode_roundtrip:
  "(case vfs_inode_new idx i of
      Ok x \<Rightarrow> i \<le> VFS_MAX_INO \<and> vi_fs_idx x = idx \<and> vi_ino x = i
    | Err e \<Rightarrow> False
    | Panic \<Rightarrow> VFS_MAX_INO < i) \<and>
   vfs_inode_new (vi_fs_idx y) (vi_ino y) = Ok y"
proof -
  obtain w where "y = VfsInode w" by (cases y)
  then have "vfs_inode_new (vi_fs_idx y) (vi_ino y) = Ok y"
    using vi_split [of w] vi_ino_le [of w] by (simp add: vfs_inode_new_def not_VFS_MAX_INO_iff del: vi_fs_idx.simps vi_ino.simps)
  then show ?thesis
    by (simp add: vfs_inode_new_def not_VFS_MAX_INO_iff not_le del: vi_fs_idx.simps vi_ino.simps)
qed

text \<open>
  (C26) The check on names in requests is exact: a C string is rejected with EINVAL if and
  only if it contains a slash or is one of the two dot entries; a name that merely starts
  with dots is accepted.
\<close>

theorem validate_path_component_exact:
  assumes "CHR 0x00 \<notin> set name"
  shows "validate_path_component name =
    (if CHR ''/'' \<in> set name \<or> name = ''.'' \<or> name = ''..'' then Err (Os EINVAL) else Ok ())"
  using is_dot_or_dotdot_iff [OF assms]
  by (auto simp: validate_path_component_def is_safe_path_component_def to_bytes_with_nul_def SLASH_ASCII_def)

theorem validate_path_component_exact_witness:
  "validate_path_component ''..a'' = Ok () \<and> validate_path_component ''..'' = Err (Os EINVAL)"
  using validate_path_component_exact [of "''..a''"] validate_path_component_exact [of "''..''"] by simp

text \<open>
  (C19) Index allocation terminates with a free index other than the one of the pseudo file
  system whenever there is one, wherever the counter starts, also when it wraps; it fails
  only when all 255 slots are taken. It changes nothing but the counter.
\<close>

theorem allocate_fs_idx_correct:
  "case allocate_fs_idx v of
     (Ok idx, v') \<Rightarrow> slot_free (superblocks v) idx \<and> v' = v\<lparr>next_super := idx + 1\<rparr>
   | (Err e, v') \<Rightarrow> (\<nexists>idx. slot_free (superblocks v) idx) \<and> (\<exists>n. v' = v\<lparr>next_super := n\<rparr>)
   | (Panic, v') \<Rightarrow> False"
  by (cases v rule: allocate_fs_idx_cases) auto

text \<open>
  (C16) Whatever the backend does, and on every error path, mounting preserves the mount
  invariant: mount points stay on live nodes, no two share a slot, and no slot is occupied
  without a mount point.
\<close>

theorem vfs_mount_wf:
  assumes "vfs_wf v" and "mount_room path v"
  shows "vfs_wf (snd (vfs_mount be fs path v))"
  by (rule vfs_mount_preserves_wf [OF assms])

theorem vfs_mount_wf_witness:
  "vfs_wf sample_vfs \<and> vfs_wf (snd (vfs_mount sample_backend 0 ''/a'' sample_vfs))"
  using vfs_mount_wf [OF sample_vfs_wf sample_vfs_room] sample_vfs_wf by blast

text \<open>
  (C14) Mounting a backend at an absolute path succeeds when a slot is free, the pseudo file
  system has numbers left for the directories of the path, the backend's own mount succeeds with
  inode numbers the VFS can carry, and its initialisation (made when the VFS is initialised
  already) succeeds. It installs the backend there, in the state its own mount and initialisation
  left, and does not affect what is mounted at any path that leads to another node. The path may
  lie under a directory that is a mount point already.
\<close>

theorem vfs_mount_installs:
  assumes "vfs_wf v" and "path_has_root path" and "mount_room path v"
    and "be_mount be fs = (Ok (entry, maxino), fs1)" and "maxino \<le> VFS_MAX_INO"
    and "e_inode entry \<le> VFS_MAX_INO" and "mount_init be fs1 v = (Ok (), fs2)"
    and "slot_free (superblocks v) i"
  shows "\<exists>idx v'. vfs_mount be fs path v = (VOk idx, v') \<and> slot_free (superblocks v) idx \<and>
     vfs_wf v' \<and> get_rootfs path v' = VOk (Some fs2) \<and>
     (\<forall>q j. path_walk q (root v) = Ok (Some j) \<and> path_walk path (root v') \<noteq> Ok (Some j) \<longrightarrow>
        get_rootfs q v' = get_rootfs q v)"
proof -
  from vfs_mount_success [OF assms] obtain idx k p m where
    1: "vfs_mount be fs path v = (VOk idx, (mounted k p fs2 m v)\<lparr>next_super := idx + 1\<rparr>)"
    and 2: "slot_free (superblocks v) idx" "mp_fs_idx m = idx" "path_walk path p = Ok (Some k)"
      "pseudo_ext (root v) p" "vfs_wf (mounted k p fs2 m v)"
    by blast
  show ?thesis
    using 1 2 get_rootfs_mounted [OF assms(1) 2(3)] get_rootfs_mounted_other [OF assms(1) 2(5) _ 2(4)]
    by (intro exI [of _ idx] exI [of _ "(mounted k p fs2 m v)\<lparr>next_super := idx + 1\<rparr>"]) auto
qed

theorem vfs_mount_installs_witness:
  "\<exists>idx v'. vfs_mount sample_backend 0 ''/a'' sample_vfs = (VOk idx, v') \<and>
     slot_free (superblocks sample_vfs) idx \<and> vfs_wf v' \<and> get_rootfs ''/a'' v' = VOk (Some 0) \<and>
     (\<forall>q j. path_walk q (root sample_vfs) = Ok (Some j) \<and> path_walk ''/a'' (root v') \<noteq> Ok (Some j) \<longrightarrow>
        get_rootfs q v' = get_rootfs q sample_vfs)"
proof (rule vfs_mount_installs [OF sample_vfs_wf _ sample_vfs_room])
  show "path_has_root ''/a''" by (simp add: path_has_root_def)
  show "be_mount sample_backend 0 = (Ok (entry_default\<lparr>e_inode := 1\<rparr>, 100), 0)" by simp
  show "mount_init sample_backend 0 sample_vfs = (Ok (), 0)"
    by (simp add: mount_init_def sample_vfs_def vfs_new_def)
  show "slot_free (superblocks sample_vfs) 1"
    by (simp add: slot_free_def sample_vfs_def vfs_new_def MAX_VFS_INDEX_def VFS_PSEUDO_FS_IDX_def)
qed (simp_all add: VFS_MAX_INO_def)

text \<open>
  (C15) Unmounting a mount point whose pseudo node is kept or has no children succeeds,
  destroys the backend that was mounted there exactly once, frees its slot, leaves nothing
  mounted at the path, keeps every other slot, and preserves the mount invariant.
\<close>

theorem umount_releases:
  assumes "vfs_wf v" and "path_walk path (root v) = Ok (Some k)" and "mountpoints v k = Some m"
    and "umount_safe k v"
  shows "\<exists>parent v' fs. umount be path v = (VOk (k, parent), v') \<and> vfs_wf v' \<and>
     superblocks v ! unat (mp_fs_idx m) = Some fs \<and> dropped v' = dropped v @ [fs_destroy be fs] \<and>
     slot_free (superblocks v') (mp_fs_idx m) \<and> mountpoints v' = (mountpoints v)(k := None) \<and>
     (\<forall>i. i \<noteq> mp_fs_idx m \<longrightarrow> superblocks v' ! unat i = superblocks v ! unat i)"
proof -
  from umount_ok [OF assms, of be] obtain p parent where
    1: "umount be path v = (VOk (k, parent), umounted be k m p v)" "vfs_wf (umounted be k m p v)"
    by blast
  from vfs_wf_mount [OF assms(1,3)] obtain fs where
    "superblocks v ! unat (mp_fs_idx m) = Some fs" "mp_fs_idx m \<noteq> VFS_PSEUDO_FS_IDX"
    by (auto simp: mount_wf_def)
  then show ?thesis
    using 1 vfs_wf_slot [OF assms(1), of "mp_fs_idx m"]
    by (intro exI [of _ parent] exI [of _ "umounted be k m p v"] exI [of _ fs])
      (auto simp: umounted_def slot_free_def word_unat_eq_iff)
qed

theorem umount_releases_witness:
  "\<exists>k (m :: mount_point_data) parent v' fs. let v = snd (vfs_mount sample_backend 0 ''/a'' sample_vfs) in
     umount sample_backend ''/a'' v = (VOk (k, parent), v') \<and> vfs_wf v' \<and>
     superblocks v ! unat (mp_fs_idx m) = Some fs \<and> dropped v' = dropped v @ [0] \<and>
     slot_free (superblocks v') (mp_fs_idx m) \<and> mountpoints v' = (mountpoints v)(k := None) \<and>
     (\<forall>i. i \<noteq> mp_fs_idx m \<longrightarrow> superblocks v' ! unat i = superblocks v ! unat i)"
proof -
  have "path_has_root ''/a''" by (simp add: path_has_root_def)
  moreover have "slot_free (superblocks sample_vfs) 1"
    by (simp add: slot_free_def sample_vfs_def vfs_new_def MAX_VFS_INDEX_def VFS_PSEUDO_FS_IDX_def)
  moreover have "mount_init sample_backend 0 sample_vfs = (Ok (), 0)"
    by (simp add: mount_init_def sample_vfs_def vfs_new_def)
  ultimately obtain idx k p m where
    1: "vfs_mount sample_backend 0 ''/a'' sample_vfs = (VOk idx, (mounted k p 0 m sample_vfs)\<lparr>next_super := idx + 1\<rparr>)"
      "path_walk ''/a'' p = Ok (Some k)" "vfs_wf (mounted k p 0 m sample_vfs)"
    using vfs_mount_success [OF sample_vfs_wf _ sample_vfs_room sample_backend_simps(1)]
    by (fastforce simp: VFS_MAX_INO_def)
  let ?v = "(mounted k p 0 m sample_vfs)\<lparr>next_super := idx + 1\<rparr>"
  have "vfs_wf ?v" "path_walk ''/a'' (root ?v) = Ok (Some k)" "mountpoints ?v k = Some m" "umount_safe k ?v"
    using 1 by (simp_all add: umount_safe_def) (simp add: mounted_def sample_vfs_def vfs_new_def)
  from umount_releases [OF this, of sample_backend, unfolded sample_backend_simps(2)]
  show ?thesis unfolding Let_def 1(1) snd_conv by blast
qed

text \<open>
  (C24) Saving and restoring the VFS is lossless for what it saves: for codecs that load what
  they saved, restoring into a new VFS reproduces the pseudo file system, the options and
  the index counter, marks the VFS as initialised exactly if options had been negotiated,
  and leaves mount points and slots empty for the backends to be mounted again.
\<close>

theorem vfs_save_restore:
  assumes "pseudo_wf (root v)" and "hash_values vals (inodes (root v))"
    and "flags_contains fs_options_all (in_opts (opts v))" and "flags_contains fs_options_all (out_opts (opts v))"
    and "\<forall>st buf. root_save st = Some buf \<longrightarrow> root_load buf = Some st"
    and "\<forall>st buf. snap_save st = Some buf \<longrightarrow> snap_load buf = Some st"
    and "vfs_save_to_bytes root_save snap_save vals v = VOk buf"
  shows "vfs_restore_from_bytes root_load snap_load buf (vfs_new vo) =
    (VOk (), (vfs_new vo)\<lparr>next_super := next_super v, root := root v, opts := opts v,
                          initialized := (in_opts (opts v) \<noteq> 0)\<rparr>)"
  by (rule vfs_restore_saved [OF assms])

theorem vfs_save_restore_witness:
  "let ps = pseudo_save_state [pseudo_root] pseudo_fs_new;
       root_save = (\<lambda>s. if s = ps then Some [1] else None);
       root_load = (\<lambda>buf. if buf = [1] then Some ps else None);
       vs = \<lparr>vs_options = vfs_options_save vfs_options_default, vs_root = [1], vs_next_super = 1\<rparr>;
       snap_save = (\<lambda>s. if s = vs then Some [2] else None);
       snap_load = (\<lambda>buf. if buf = [2] then Some vs else None)
   in vfs_save_to_bytes root_save snap_save [pseudo_root] sample_vfs = VOk [2] \<and>
      vfs_restore_from_bytes root_load snap_load [2] sample_vfs = (VOk (), sample_vfs)"
proof -
  let ?ps = "pseudo_save_state [pseudo_root] pseudo_fs_new"
  let ?rs = "\<lambda>s. if s = ?ps then Some [1 :: u8] else None"
  let ?rl = "\<lambda>buf. if buf = [1 :: u8] then Some ?ps else None"
  let ?vs = "\<lparr>vs_options = vfs_options_save vfs_options_default, vs_root = [1], vs_next_super = 1\<rparr>"
  let ?ss = "\<lambda>s. if s = ?vs then Some [2 :: u8] else None"
  let ?sl = "\<lambda>buf. if buf = [2 :: u8] then Some ?vs else None"
  have hv: "hash_values [pseudo_root] (inodes (root sample_vfs))"
    by (auto simp: hash_values_def sample_vfs_def vfs_new_def pseudo_fs_new_def insert_inode_def)
  have sv: "vfs_save_to_bytes ?rs ?ss [pseudo_root] sample_vfs = VOk [2]"
    by (simp add: vfs_save_to_bytes_def pseudo_save_to_bytes_def sample_vfs_def vfs_new_def VFS_PSEUDO_FS_IDX_def)
  have fl: "flags_contains fs_options_all (in_opts (opts sample_vfs))"
    "flags_contains fs_options_all (out_opts (opts sample_vfs))"
    by (simp_all add: sample_vfs_def vfs_new_def vfs_options_default_def flags_contains_def
        fs_options_all_def fs_option_defs)
  have "vfs_restore_from_bytes ?rl ?sl [2] (vfs_new vfs_options_default) =
      (VOk (), (vfs_new vfs_options_default)\<lparr>next_super := next_super sample_vfs, root := root sample_vfs,
        opts := opts sample_vfs, initialized := (in_opts (opts sample_vfs) \<noteq> 0)\<rparr>)"
    by (rule vfs_save_restore [OF vfs_wf_pseudo [OF sample_vfs_wf] hv fl _ _ sv]) auto
  also have "(vfs_new vfs_options_default)\<lparr>next_super := next_super sample_vfs, root := root sample_vfs,
      opts := opts sample_vfs, initialized := (in_opts (opts sample_vfs) \<noteq> 0)\<rparr> = sample_vfs"
    by (simp add: sample_vfs_def vfs_new_def vfs_options_default_def)
  finally show ?thesis
    unfolding Let_def using sv by (simp add: sample_vfs_def)
qed

end
