(* ===== verification/Vfs_Ops.thy ===== *)
theory Vfs_Ops
  imports Vfs
begin

text \<open>
  The FUSE operations of the union file system, \<^verbatim>\<open>impl FileSystem for Vfs\<close> of
  \<^verbatim>\<open>api/vfs/sync_io.rs\<close>, with \<^verbatim>\<open>lookup_pseudo\<close> of \<^verbatim>\<open>api/vfs/mod.rs\<close>. An inode argument is the
  64-bit number of the request. The parameter \<open>now\<close> is the wall clock that the pseudo file
  system puts into its entries.
\<close>

section \<open>Dispatch\<close>

text \<open>
  \<^verbatim>\<open>match self.get_real_rootfs(inode)?\<close> with its two arms: the operation on the pseudo file
  system, or the operation on the backend in the slot found. The second form is for the
  operations that borrow a mutable object of the caller.
\<close>

definition on_pseudo :: "(pseudo_fs \<Rightarrow> 'r \<times> pseudo_fs) \<Rightarrow> 'b vfs \<Rightarrow> 'r \<times> 'b vfs" where
  "on_pseudo f v = (let (r, p) = f (root v) in (r, v\<lparr>root := p\<rparr>))"

definition on_slot :: "vfs_index \<Rightarrow> ('b \<Rightarrow> 'a res \<times> 'b) \<Rightarrow> ('b vfs, 'a) op" where
  "on_slot idx f v =
     (case get_fs_by_idx idx v of
        Ok fs \<Rightarrow> (let (r, fs') = f fs in (r, v\<lparr>superblocks := (superblocks v)[unat idx := Some fs']\<rparr>))
      | Err e \<Rightarrow> (Err e, v)
      | Panic \<Rightarrow> (Panic, v))"

definition dispatch ::
  "u64 \<Rightarrow> (vfs_inode \<Rightarrow> (pseudo_fs, 'a) op) \<Rightarrow> (vfs_inode \<Rightarrow> ('b, 'a) op) \<Rightarrow> ('b vfs, 'a) op" where
  "dispatch inode left right v =
     (case get_real_rootfs (VfsInode inode) v of
        Ok (Left, idata) \<Rightarrow> on_pseudo (left idata) v
      | Ok (Right idx, idata) \<Rightarrow> on_slot idx (right idata) v
      | Err e \<Rightarrow> (Err e, v)
      | Panic \<Rightarrow> (Panic, v))"

definition dispatch_lend ::
  "u64 \<Rightarrow> 'c \<Rightarrow> (vfs_inode \<Rightarrow> 'c \<Rightarrow> pseudo_fs \<Rightarrow> 'a res \<times> 'c \<times> pseudo_fs) \<Rightarrow>
     (vfs_inode \<Rightarrow> 'c \<Rightarrow> 'b \<Rightarrow> 'a res \<times> 'c \<times> 'b) \<Rightarrow> 'b vfs \<Rightarrow> 'a res \<times> 'c \<times> 'b vfs" where
  "dispatch_lend inode c left right v =
     (case get_real_rootfs (VfsInode inode) v of
        Ok (Left, idata) \<Rightarrow>
          (let (r, c', p) = left idata c (root v) in (r, c', v\<lparr>root := p\<rparr>))
      | Ok (Right idx, idata) \<Rightarrow>
          (case get_fs_by_idx idx v of
             Ok fs \<Rightarrow>
               (let (r, c', fs') = right idata c fs
                in (r, c', v\<lparr>superblocks := (superblocks v)[unat idx := Some fs']\<rparr>))
           | Err e \<Rightarrow> (Err e, c, v)
           | Panic \<Rightarrow> (Panic, c, v))
      | Err e \<Rightarrow> (Err e, c, v)
      | Panic \<Rightarrow> (Panic, c, v))"

text \<open>\<^verbatim>\<open>map\<close> and \<^verbatim>\<open>and_then\<close> on the result of an operation.\<close>

definition op_map :: "('a \<Rightarrow> 'd) \<Rightarrow> 'a res \<times> 's \<Rightarrow> 'd res \<times> 's" where
  "op_map f rs = (res_map f (fst rs), snd rs)"

definition op_then :: "('a \<Rightarrow> 'd res) \<Rightarrow> 'a res \<times> 's \<Rightarrow> 'd res \<times> 's" where
  "op_then f rs = (res_bind (fst rs) f, snd rs)"

definition hash_entry :: "'b vfs \<Rightarrow> vfs_inode \<Rightarrow> entry \<Rightarrow> entry res" where
  "hash_entry v idata e = convert_entry (id_mapping v) (vi_fs_idx idata) (e_inode e) e"

text \<open>The methods of the pseudo file system, for the caller's objects of the backends' methods.\<close>

definition pfs_ops :: "('b, 'c) backend_ops \<Rightarrow> u64 \<Rightarrow> (pseudo_fs, 'c) fs_ops" where
  "pfs_ops be now = pseudo_fs_ops now"

text \<open>An operation on a name that is validated first.\<close>

definition checked :: "cname \<Rightarrow> ('s, 'a) op \<Rightarrow> ('s, 'a) op" where
  "checked name f v =
     (case validate_path_component name of Ok _ \<Rightarrow> f v | Err e \<Rightarrow> (Err e, v) | Panic \<Rightarrow> (Panic, v))"

section \<open>Initialisation\<close>

definition negotiate :: "fs_options \<Rightarrow> vfs_options \<Rightarrow> vfs_options" where
  "negotiate caps n =
     (let n1 = (if no_open n
                then n\<lparr>no_open := \<not> flags_is_empty (caps AND ZERO_MESSAGE_OPEN),
                       out_opts := flags_remove (out_opts n) ATOMIC_O_TRUNC\<rparr>
                else n\<lparr>out_opts := flags_remove (out_opts n) ZERO_MESSAGE_OPEN\<rparr>);
          n2 = (if no_opendir n1
                then n1\<lparr>no_opendir := \<not> flags_is_empty (caps AND ZERO_MESSAGE_OPENDIR)\<rparr>
                else n1\<lparr>out_opts := flags_remove (out_opts n1) ZERO_MESSAGE_OPENDIR\<rparr>);
          n3 = (if no_writeback n2 then n2\<lparr>out_opts := flags_remove (out_opts n2) WRITEBACK_CACHE\<rparr> else n2);
          n4 = (if \<not> killpriv_v2 n3 then n3\<lparr>out_opts := flags_remove (out_opts n3) HANDLE_KILLPRIV_V2\<rparr> else n3)
      in n4\<lparr>in_opts := caps, out_opts := out_opts n4 AND caps\<rparr>)"

fun init_all :: "('b, 'c) backend_ops \<Rightarrow> fs_options \<Rightarrow> 'b option list \<Rightarrow> unit res \<times> 'b option list" where
  "init_all be caps [] = (Ok (), [])"
| "init_all be caps (None # sbs) = (let (r, sbs') = init_all be caps sbs in (r, None # sbs'))"
| "init_all be caps (Some fs # sbs) =
     (case fs_init be caps fs of
        (Ok _, fs') \<Rightarrow> (let (r, sbs') = init_all be caps sbs in (r, Some fs' # sbs'))
      | (Err e, fs') \<Rightarrow> (Err e, Some fs' # sbs)
      | (Panic, fs') \<Rightarrow> (Panic, Some fs' # sbs))"

definition vfs_init :: "('b, 'c) backend_ops \<Rightarrow> fs_options \<Rightarrow> ('b vfs, fs_options) op" where
  "vfs_init be caps v =
     (if initialized v then (Err (Os EINVAL), v)
      else
        (let n_opts = negotiate caps (opts v);
             v1 = v\<lparr>opts := n_opts\<rparr>;
             (r, sbs) = init_all be (out_opts n_opts) (superblocks v1);
             v2 = v1\<lparr>superblocks := sbs\<rparr>
         in op_bind (r, v2) (\<lambda>_ v3. (Ok (out_opts n_opts), v3\<lparr>initialized := True\<rparr>))))"

definition vfs_destroy :: "('b, 'c) backend_ops \<Rightarrow> 'b vfs \<Rightarrow> 'b vfs" where
  "vfs_destroy be v =
     (if initialized v
      then v\<lparr>superblocks := map (map_option (fs_destroy be)) (superblocks v), initialized := False\<rparr>
      else v)"

section \<open>Entries and attributes\<close>

definition lookup_pseudo ::
  "u64 \<Rightarrow> 'b vfs \<Rightarrow> vfs_inode \<Rightarrow> fuse_context \<Rightarrow> cname \<Rightarrow> (pseudo_fs, entry) op" where
  "lookup_pseudo now v idata ctx name fs =
     op_then (\<lambda>e.
       case mountpoints v (e_inode e) of
         Some mnt \<Rightarrow> convert_entry (id_mapping v) (mp_fs_idx mnt) (mp_ino mnt) (mp_root_entry mnt)
       | None \<Rightarrow> convert_entry (id_mapping v) (vi_fs_idx idata) (e_inode e) e)
     (pseudo_lookup now ctx (vi_ino idata) name fs)"

definition vfs_lookup ::
  "('b, 'c) backend_ops \<Rightarrow> u64 \<Rightarrow> fuse_context \<Rightarrow> u64 \<Rightarrow> cname \<Rightarrow> ('b vfs, entry) op" where
  "vfs_lookup be now ctx parent name v =
     (if SLASH_ASCII \<in> set (to_bytes_with_nul name) then (Err (Os EINVAL), v)
      else dispatch parent
        (\<lambda>idata. lookup_pseudo now v idata ctx name)
        (\<lambda>idata fs. op_then (hash_entry v idata) (fs_lookup be ctx (vi_ino idata) name fs)) v)"

text \<open>\<^verbatim>\<open>forget\<close> has no result; an inode whose backend is gone is skipped.\<close>

definition vfs_forget ::
  "('b, 'c) backend_ops \<Rightarrow> u64 \<Rightarrow> fuse_context \<Rightarrow> u64 \<Rightarrow> u64 \<Rightarrow> ('b vfs, unit) op" where
  "vfs_forget be now ctx inode count v =
     (case dispatch inode
             (\<lambda>idata p. (Ok (), fs_forget (pfs_ops be now) ctx (vi_ino idata) count p))
             (\<lambda>idata fs. (Ok (), fs_forget be ctx (vi_ino idata) count fs)) v of
        (Err e, v') \<Rightarrow> (Ok (), v')
      | (r, v') \<Rightarrow> (r, v'))"

definition external_attr :: "'b vfs \<Rightarrow> vfs_inode \<Rightarrow> stat64 \<times> duration \<Rightarrow> stat64 \<times> duration" where
  "external_attr v idata ad =
     (remap_attr_id (id_mapping v) True ((fst ad)\<lparr>st_ino := vfs_inode_into idata\<rparr>), snd ad)"

definition vfs_getattr ::
  "('b, 'c) backend_ops \<Rightarrow> u64 \<Rightarrow> fuse_context \<Rightarrow> u64 \<Rightarrow> u64 option \<Rightarrow> ('b vfs, stat64 \<times> duration) op" where
  "vfs_getattr be now ctx inode handle v =
     dispatch inode
       (\<lambda>idata. pseudo_getattr now ctx (vi_ino idata) handle)
       (\<lambda>idata fs. op_map (external_attr v idata) (fs_getattr be ctx (vi_ino idata) handle fs)) v"

definition vfs_setattr ::
  "('b, 'c) backend_ops \<Rightarrow> u64 \<Rightarrow> fuse_context \<Rightarrow> u64 \<Rightarrow> stat64 \<Rightarrow> u64 option \<Rightarrow> setattr_valid \<Rightarrow>
     ('b vfs, stat64 \<times> duration) op" where
  "vfs_setattr be now ctx inode attr handle valid v =
     dispatch inode
       (\<lambda>idata. fs_setattr (pfs_ops be now) ctx (vi_ino idata) attr handle valid)
       (\<lambda>idata fs. op_map (external_attr v idata)
          (fs_setattr be ctx (vi_ino idata) (remap_attr_id (id_mapping v) False attr) handle valid fs)) v"

definition vfs_readlink ::
  "('b, 'c) backend_ops \<Rightarrow> u64 \<Rightarrow> fuse_context \<Rightarrow> u64 \<Rightarrow> ('b vfs, bytes) op" where
  "vfs_readlink be now ctx inode =
     dispatch inode (\<lambda>idata. fs_readlink (pfs_ops be now) ctx (vi_ino idata))
       (\<lambda>idata. fs_readlink be ctx (vi_ino idata))"

section \<open>Directory changes\<close>

definition vfs_symlink ::
  "('b, 'c) backend_ops \<Rightarrow> u64 \<Rightarrow> fuse_context \<Rightarrow> cname \<Rightarrow> u64 \<Rightarrow> cname \<Rightarrow> ('b vfs, entry) op" where
  "vfs_symlink be now ctx linkname parent name =
     checked name (\<lambda>v. dispatch parent
       (\<lambda>idata. fs_symlink (pfs_ops be now) ctx linkname (vi_ino idata) name)
       (\<lambda>idata fs. op_then (hash_entry v idata) (fs_symlink be ctx linkname (vi_ino idata) name fs)) v)"

definition vfs_mknod ::
  "('b, 'c) backend_ops \<Rightarrow> u64 \<Rightarrow> fuse_context \<Rightarrow> u64 \<Rightarrow> cname \<Rightarrow> u32 \<Rightarrow> u32 \<Rightarrow> u32 \<Rightarrow>
     ('b vfs, entry) op" where
  "vfs_mknod be now ctx inode name mode rdev umask =
     checked name (\<lambda>v. dispatch inode
       (\<lambda>idata. fs_mknod (pfs_ops be now) ctx (vi_ino idata) name mode rdev umask)
       (\<lambda>idata fs. op_then (hash_entry v idata)
          (fs_mknod be ctx (vi_ino idata) name mode rdev umask fs)) v)"

definition vfs_mkdir ::
  "('b, 'c) backend_ops \<Rightarrow> u64 \<Rightarrow> fuse_context \<Rightarrow> u64 \<Rightarrow> cname \<Rightarrow> u32 \<Rightarrow> u32 \<Rightarrow> ('b vfs, entry) op" where
  "vfs_mkdir be now ctx parent name mode umask =
     checked name (\<lambda>v. dispatch parent
       (\<lambda>idata. fs_mkdir (pfs_ops be now) ctx (vi_ino idata) name mode umask)
       (\<lambda>idata fs. op_then (hash_entry v idata) (fs_mkdir be ctx (vi_ino idata) name mode umask fs)) v)"

definition vfs_unlink ::
  "('b, 'c) backend_ops \<Rightarrow> u64 \<Rightarrow> fuse_context \<Rightarrow> u64 \<Rightarrow> cname \<Rightarrow> ('b vfs, unit) op" where
  "vfs_unlink be now ctx parent name =
     checked name (dispatch parent
       (\<lambda>idata. fs_unlink (pfs_ops be now) ctx (vi_ino idata) name)
       (\<lambda>idata. fs_unlink be ctx (vi_ino idata) name))"

definition vfs_rmdir ::
  "('b, 'c) backend_ops \<Rightarrow> u64 \<Rightarrow> fuse_context \<Rightarrow> u64 \<Rightarrow> cname \<Rightarrow> ('b vfs, unit) op" where
  "vfs_rmdir be now ctx parent name =
     checked name (dispatch parent
       (\<lambda>idata. fs_rmdir (pfs_ops be now) ctx (vi_ino idata) name)
       (\<lambda>idata. fs_rmdir be ctx (vi_ino idata) name))"

text \<open>
  Operations on two inodes: both are resolved, and they must lie in the same file system;
  the first one selects the file system that is called.
\<close>

definition dispatch2 ::
  "u64 \<Rightarrow> u64 \<Rightarrow> (vfs_inode \<Rightarrow> vfs_inode \<Rightarrow> (pseudo_fs, 'a) op) \<Rightarrow>
     (vfs_inode \<Rightarrow> vfs_inode \<Rightarrow> ('b, 'a) op) \<Rightarrow> ('b vfs, 'a) op" where
  "dispatch2 old new left right v =
     (case get_real_rootfs (VfsInode old) v of
        Err e \<Rightarrow> (Err e, v)
      | Panic \<Rightarrow> (Panic, v)
      | Ok (rt, idata_old) \<Rightarrow>
          (case get_real_rootfs (VfsInode new) v of
             Err e \<Rightarrow> (Err e, v)
           | Panic \<Rightarrow> (Panic, v)
           | Ok (_, idata_new) \<Rightarrow>
               if vi_fs_idx idata_old \<noteq> vi_fs_idx idata_new then (Err (Os EINVAL), v)
               else (case rt of
                       Left \<Rightarrow> on_pseudo (left idata_old idata_new) v
                     | Right idx \<Rightarrow> on_slot idx (right idata_old idata_new) v)))"

definition vfs_rename ::
  "('b, 'c) backend_ops \<Rightarrow> u64 \<Rightarrow> fuse_context \<Rightarrow> u64 \<Rightarrow> cname \<Rightarrow> u64 \<Rightarrow> cname \<Rightarrow> u32 \<Rightarrow>
     ('b vfs, unit) op" where
  "vfs_rename be now ctx olddir oldname newdir newname flags =
     checked oldname (checked newname (dispatch2 olddir newdir
       (\<lambda>io ne. fs_rename (pfs_ops be now) ctx (vi_ino io) oldname (vi_ino ne) newname flags)
       (\<lambda>io ne. fs_rename be ctx (vi_ino io) oldname (vi_ino ne) newname flags)))"

definition vfs_link ::
  "('b, 'c) backend_ops \<Rightarrow> u64 \<Rightarrow> fuse_context \<Rightarrow> u64 \<Rightarrow> u64 \<Rightarrow> cname \<Rightarrow> ('b vfs, entry) op" where
  "vfs_link be now ctx inode newparent newname =
     checked newname (\<lambda>v. dispatch2 inode newparent
       (\<lambda>io ne. fs_link (pfs_ops be now) ctx (vi_ino io) (vi_ino ne) newname)
       (\<lambda>io ne fs. op_then (hash_entry v ne) (fs_link be ctx (vi_ino io) (vi_ino ne) newname fs)) v)"

section \<open>Files\<close>

definition vfs_open ::
  "('b, 'c) backend_ops \<Rightarrow> u64 \<Rightarrow> fuse_context \<Rightarrow> u64 \<Rightarrow> u32 \<Rightarrow> u32 \<Rightarrow>
     ('b vfs, u64 option \<times> open_options \<times> u32 option) op" where
  "vfs_open be now ctx inode flags fuse_flags v =
     (if no_open (opts v) then (Err (Os ENOSYS), v)
      else dispatch inode
        (\<lambda>idata. fs_open (pfs_ops be now) ctx (vi_ino idata) flags fuse_flags)
        (\<lambda>idata. fs_open be ctx (vi_ino idata) flags fuse_flags) v)"

definition vfs_create ::
  "('b, 'c) backend_ops \<Rightarrow> u64 \<Rightarrow> fuse_context \<Rightarrow> u64 \<Rightarrow> cname \<Rightarrow> create_in \<Rightarrow>
     ('b vfs, entry \<times> u64 option \<times> open_options \<times> u32 option) op" where
  "vfs_create be now ctx parent name args =
     checked name (\<lambda>v. dispatch parent
       (\<lambda>idata. fs_create (pfs_ops be now) ctx (vi_ino idata) name args)
       (\<lambda>idata fs. op_then (\<lambda>(a, bcd). res_map (\<lambda>a'. (a', bcd)) (hash_entry v idata a))
          (fs_create be ctx (vi_ino idata) name args fs)) v)"

definition vfs_read ::
  "('b, 'c) backend_ops \<Rightarrow> u64 \<Rightarrow> fuse_context \<Rightarrow> u64 \<Rightarrow> u64 \<Rightarrow> 'c \<Rightarrow> u32 \<Rightarrow> u64 \<Rightarrow> u64 option \<Rightarrow> u32 \<Rightarrow>
     'b vfs \<Rightarrow> usize res \<times> 'c \<times> 'b vfs" where
  "vfs_read be now ctx inode handle w sz offset lock_owner flags =
     dispatch_lend inode w
       (\<lambda>idata c. fs_read (pfs_ops be now) ctx (vi_ino idata) handle c sz offset lock_owner flags)
       (\<lambda>idata c. fs_read be ctx (vi_ino idata) handle c sz offset lock_owner flags)"

definition vfs_write ::
  "('b, 'c) backend_ops \<Rightarrow> u64 \<Rightarrow> fuse_context \<Rightarrow> u64 \<Rightarrow> u64 \<Rightarrow> 'c \<Rightarrow> u32 \<Rightarrow> u64 \<Rightarrow> u64 option \<Rightarrow> bool \<Rightarrow>
     u32 \<Rightarrow> u32 \<Rightarrow> 'b vfs \<Rightarrow> usize res \<times> 'c \<times> 'b vfs" where
  "vfs_write be now ctx inode handle r sz offset lock_owner delayed_write flags fuse_flags =
     dispatch_lend inode r
       (\<lambda>idata c. fs_write (pfs_ops be now) ctx (vi_ino idata) handle c sz offset lock_owner
          delayed_write flags fuse_flags)
       (\<lambda>idata c. fs_write be ctx (vi_ino idata) handle c sz offset lock_owner
          delayed_write flags fuse_flags)"

definition vfs_flush ::
  "('b, 'c) backend_ops \<Rightarrow> u64 \<Rightarrow> fuse_context \<Rightarrow> u64 \<Rightarrow> u64 \<Rightarrow> u64 \<Rightarrow> ('b vfs, unit) op" where
  "vfs_flush be now ctx inode handle lock_owner =
     dispatch inode (\<lambda>idata. fs_flush (pfs_ops be now) ctx (vi_ino idata) handle lock_owner)
       (\<lambda>idata. fs_flush be ctx (vi_ino idata) handle lock_owner)"

definition vfs_fsync ::
  "('b, 'c) backend_ops \<Rightarrow> u64 \<Rightarrow> fuse_context \<Rightarrow> u64 \<Rightarrow> bool \<Rightarrow> u64 \<Rightarrow> ('b vfs, unit) op" where
  "vfs_fsync be now ctx inode datasync handle =
     dispatch inode (\<lambda>idata. fs_fsync (pfs_ops be now) ctx (vi_ino idata) datasync handle)
       (\<lambda>idata. fs_fsync be ctx (vi_ino idata) datasync handle)"

definition vfs_fallocate ::
  "('b, 'c) backend_ops \<Rightarrow> u64 \<Rightarrow> fuse_context \<Rightarrow> u64 \<Rightarrow> u64 \<Rightarrow> u32 \<Rightarrow> u64 \<Rightarrow> u64 \<Rightarrow> ('b vfs, unit) op" where
  "vfs_fallocate be now ctx inode handle mode offset len =
     dispatch inode
       (\<lambda>idata. fs_fallocate (pfs_ops be now) ctx (vi_ino idata) handle mode offset len)
       (\<lambda>idata. fs_fallocate be ctx (vi_ino idata) handle mode offset len)"

definition vfs_release ::
  "('b, 'c) backend_ops \<Rightarrow> u64 \<Rightarrow> fuse_context \<Rightarrow> u64 \<Rightarrow> u32 \<Rightarrow> u64 \<Rightarrow> bool \<Rightarrow> bool \<Rightarrow> u64 option \<Rightarrow>
     ('b vfs, unit) op" where
  "vfs_release be now ctx inode flags handle flush flock_release lock_owner =
     dispatch inode
       (\<lambda>idata. fs_release (pfs_ops be now) ctx (vi_ino idata) flags handle flush flock_release lock_owner)
       (\<lambda>idata. fs_release be ctx (vi_ino idata) flags handle flush flock_release lock_owner)"

definition vfs_statfs ::
  "('b, 'c) backend_ops \<Rightarrow> u64 \<Rightarrow> fuse_context \<Rightarrow> u64 \<Rightarrow> ('b vfs, statvfs64) op" where
  "vfs_statfs be now ctx inode =
     dispatch inode (\<lambda>idata. fs_statfs (pfs_ops be now) ctx (vi_ino idata))
       (\<lambda>idata. fs_statfs be ctx (vi_ino idata))"

section \<open>Extended attributes\<close>

definition vfs_setxattr ::
  "('b, 'c) backend_ops \<Rightarrow> u64 \<Rightarrow> fuse_context \<Rightarrow> u64 \<Rightarrow> cname \<Rightarrow> bytes \<Rightarrow> u32 \<Rightarrow> ('b vfs, unit) op" where
  "vfs_setxattr be now ctx inode name value flags =
     checked name (dispatch inode
       (\<lambda>idata. fs_setxattr (pfs_ops be now) ctx (vi_ino idata) name value flags)
       (\<lambda>idata. fs_setxattr be ctx (vi_ino idata) name value flags))"

definition vfs_getxattr ::
  "('b, 'c) backend_ops \<Rightarrow> u64 \<Rightarrow> fuse_context \<Rightarrow> u64 \<Rightarrow> cname \<Rightarrow> u32 \<Rightarrow> ('b vfs, getxattr_reply) op" where
  "vfs_getxattr be now ctx inode name sz =
     checked name (dispatch inode
       (\<lambda>idata. fs_getxattr (pfs_ops be now) ctx (vi_ino idata) name sz)
       (\<lambda>idata. fs_getxattr be ctx (vi_ino idata) name sz))"

definition vfs_listxattr ::
  "('b, 'c) backend_ops \<Rightarrow> u64 \<Rightarrow> fuse_context \<Rightarrow> u64 \<Rightarrow> u32 \<Rightarrow> ('b vfs, listxattr_reply) op" where
  "vfs_listxattr be now ctx inode sz =
     dispatch inode (\<lambda>idata. fs_listxattr (pfs_ops be now) ctx (vi_ino idata) sz)
       (\<lambda>idata. fs_listxattr be ctx (vi_ino idata) sz)"

definition vfs_removexattr ::
  "('b, 'c) backend_ops \<Rightarrow> u64 \<Rightarrow> fuse_context \<Rightarrow> u64 \<Rightarrow> cname \<Rightarrow> ('b vfs, unit) op" where
  "vfs_removexattr be now ctx inode name =
     checked name (dispatch inode
       (\<lambda>idata. fs_removexattr (pfs_ops be now) ctx (vi_ino idata) name)
       (\<lambda>idata. fs_removexattr be ctx (vi_ino idata) name))"

section \<open>Directories\<close>

definition vfs_opendir ::
  "('b, 'c) backend_ops \<Rightarrow> u64 \<Rightarrow> fuse_context \<Rightarrow> u64 \<Rightarrow> u32 \<Rightarrow> ('b vfs, u64 option \<times> open_options) op" where
  "vfs_opendir be now ctx inode flags v =
     (if no_opendir (opts v) then (Err (Os ENOSYS), v)
      else dispatch inode (\<lambda>idata. fs_opendir (pfs_ops be now) ctx (vi_ino idata) flags)
        (\<lambda>idata. fs_opendir be ctx (vi_ino idata) flags) v)"

text \<open>
  The closures that \<^verbatim>\<open>readdir\<close> and \<^verbatim>\<open>readdirplus\<close> pass down: they translate the inode numbers
  and hand the entry on; a failed conversion is returned without calling the caller.
\<close>

definition with_conv :: "u64 res \<Rightarrow> (u64 \<Rightarrow> ('c, usize) op) \<Rightarrow> ('c, usize) op" where
  "with_conv r f c = (case r of Ok i \<Rightarrow> f i c | Err e \<Rightarrow> (Err e, c) | Panic \<Rightarrow> (Panic, c))"

definition add_pseudo :: "'b vfs \<Rightarrow> vfs_inode \<Rightarrow> (dir_entry \<Rightarrow> ('c, usize) op) \<Rightarrow> dir_entry \<Rightarrow> ('c, usize) op" where
  "add_pseudo v idata add_entry d =
     with_conv
       (case mountpoints v (de_ino d) of
          Some mnt \<Rightarrow> convert_inode (mp_fs_idx mnt) (mp_ino mnt)
        | None \<Rightarrow> convert_inode (vi_fs_idx idata) (de_ino d))
       (\<lambda>i. add_entry (d\<lparr>de_ino := i\<rparr>))"

definition add_backend :: "vfs_inode \<Rightarrow> (dir_entry \<Rightarrow> ('c, usize) op) \<Rightarrow> dir_entry \<Rightarrow> ('c, usize) op" where
  "add_backend idata add_entry d =
     with_conv (convert_inode (vi_fs_idx idata) (de_ino d)) (\<lambda>i. add_entry (d\<lparr>de_ino := i\<rparr>))"

definition add_plus_pseudo ::
  "'b vfs \<Rightarrow> vfs_inode \<Rightarrow> (dir_entry \<Rightarrow> entry \<Rightarrow> ('c, usize) op) \<Rightarrow> dir_entry \<Rightarrow> entry \<Rightarrow> ('c, usize) op" where
  "add_plus_pseudo v idata add_entry d e =
     (case mountpoints v (de_ino d) of
        Some mnt \<Rightarrow>
          with_conv (convert_inode (mp_fs_idx mnt) (mp_ino mnt)) (\<lambda>i.
            let e' = mp_root_entry mnt
            in add_entry (d\<lparr>de_ino := i\<rparr>) (e'\<lparr>e_attr := (e_attr e')\<lparr>st_ino := e_inode e'\<rparr>\<rparr>))
      | None \<Rightarrow>
          with_conv (convert_inode (vi_fs_idx idata) (de_ino d)) (\<lambda>i.
            add_entry (d\<lparr>de_ino := i\<rparr>) (e\<lparr>e_inode := i, e_attr := (e_attr e)\<lparr>st_ino := i\<rparr>\<rparr>)))"

definition add_plus_backend ::
  "'b vfs \<Rightarrow> vfs_inode \<Rightarrow> (dir_entry \<Rightarrow> entry \<Rightarrow> ('c, usize) op) \<Rightarrow> dir_entry \<Rightarrow> entry \<Rightarrow> ('c, usize) op" where
  "add_plus_backend v idata add_entry d e =
     with_conv (convert_inode (vi_fs_idx idata) (e_inode e)) (\<lambda>i.
       add_entry (d\<lparr>de_ino := i\<rparr>)
         (e\<lparr>e_inode := i, e_attr := remap_attr_id (id_mapping v) True ((e_attr e)\<lparr>st_ino := i\<rparr>)\<rparr>))"

definition vfs_readdir ::
  "('b, 'c) backend_ops \<Rightarrow> u64 \<Rightarrow> fuse_context \<Rightarrow> u64 \<Rightarrow> u64 \<Rightarrow> u32 \<Rightarrow> u64 \<Rightarrow>
     (dir_entry \<Rightarrow> ('c, usize) op) \<Rightarrow> 'c \<Rightarrow> 'b vfs \<Rightarrow> unit res \<times> 'c \<times> 'b vfs" where
  "vfs_readdir be now ctx inode handle sz offset add_entry c v =
     dispatch_lend inode c
       (\<lambda>idata. pseudo_readdir ctx (vi_ino idata) handle sz offset (add_pseudo v idata add_entry))
       (\<lambda>idata. fs_readdir be ctx (vi_ino idata) handle sz offset (add_backend idata add_entry)) v"

definition vfs_readdirplus ::
  "('b, 'c) backend_ops \<Rightarrow> u64 \<Rightarrow> fuse_context \<Rightarrow> u64 \<Rightarrow> u64 \<Rightarrow> u32 \<Rightarrow> u64 \<Rightarrow>
     (dir_entry \<Rightarrow> entry \<Rightarrow> ('c, usize) op) \<Rightarrow> 'c \<Rightarrow> 'b vfs \<Rightarrow> unit res \<times> 'c \<times> 'b vfs" where
  "vfs_readdirplus be now ctx inode handle sz offset add_entry c v =
     dispatch_lend inode c
       (\<lambda>idata. pseudo_readdirplus now ctx (vi_ino idata) handle sz offset (add_plus_pseudo v idata add_entry))
       (\<lambda>idata. fs_readdirplus be ctx (vi_ino idata) handle sz offset (add_plus_backend v idata add_entry)) v"

definition vfs_fsyncdir ::
  "('b, 'c) backend_ops \<Rightarrow> u64 \<Rightarrow> fuse_context \<Rightarrow> u64 \<Rightarrow> bool \<Rightarrow> u64 \<Rightarrow> ('b vfs, unit) op" where
  "vfs_fsyncdir be now ctx inode datasync handle =
     dispatch inode (\<lambda>idata. fs_fsyncdir (pfs_ops be now) ctx (vi_ino idata) datasync handle)
       (\<lambda>idata. fs_fsyncdir be ctx (vi_ino idata) datasync handle)"

definition vfs_releasedir ::
  "('b, 'c) backend_ops \<Rightarrow> u64 \<Rightarrow> fuse_context \<Rightarrow> u64 \<Rightarrow> u32 \<Rightarrow> u64 \<Rightarrow> ('b vfs, unit) op" where
  "vfs_releasedir be now ctx inode flags handle =
     dispatch inode (\<lambda>idata. fs_releasedir (pfs_ops be now) ctx (vi_ino idata) flags handle)
       (\<lambda>idata. fs_releasedir be ctx (vi_ino idata) flags handle)"

definition vfs_access ::
  "('b, 'c) backend_ops \<Rightarrow> u64 \<Rightarrow> fuse_context \<Rightarrow> u64 \<Rightarrow> u32 \<Rightarrow> ('b vfs, unit) op" where
  "vfs_access be now ctx inode msk =
     dispatch inode (\<lambda>idata. pseudo_access ctx (vi_ino idata) msk)
       (\<lambda>idata. fs_access be ctx (vi_ino idata) msk)"

section \<open>Identity and mappings\<close>

definition vfs_id_remap :: "fuse_context \<Rightarrow> 'b vfs \<Rightarrow> fuse_context res" where
  "vfs_id_remap ctx v =
     (case id_mapping v of
        None \<Rightarrow> Ok ctx
      | Some (internal_id, external_id, rng) \<Rightarrow>
          Ok (ctx\<lparr>ctx_uid := map_id external_id internal_id rng (ctx_uid ctx),
                  ctx_gid := map_id external_id internal_id rng (ctx_gid ctx)\<rparr>))"

definition vfs_setupmapping ::
  "('b, 'c) backend_ops \<Rightarrow> u64 \<Rightarrow> fuse_context \<Rightarrow> u64 \<Rightarrow> u64 \<Rightarrow> u64 \<Rightarrow> u64 \<Rightarrow> u64 \<Rightarrow> u64 \<Rightarrow> 'c \<Rightarrow>
     'b vfs \<Rightarrow> unit res \<times> 'c \<times> 'b vfs" where
  "vfs_setupmapping be now ctx inode handle foffset len flags moffset req =
     dispatch_lend inode req
       (\<lambda>idata. fs_setupmapping (pfs_ops be now) ctx (vi_ino idata) handle foffset len flags moffset)
       (\<lambda>idata. fs_setupmapping be ctx (vi_ino idata) handle foffset len flags moffset)"

definition vfs_removemapping ::
  "('b, 'c) backend_ops \<Rightarrow> u64 \<Rightarrow> fuse_context \<Rightarrow> u64 \<Rightarrow> removemapping_one list \<Rightarrow> 'c \<Rightarrow>
     'b vfs \<Rightarrow> unit res \<times> 'c \<times> 'b vfs" where
  "vfs_removemapping be now ctx inode requests req =
     dispatch_lend inode req
       (\<lambda>idata. fs_removemapping (pfs_ops be now) ctx (vi_ino idata) requests)
       (\<lambda>idata. fs_removemapping be ctx (vi_ino idata) requests)"

text \<open>
  \<^verbatim>\<open>impl FileSystem for Vfs\<close> as a record; the methods it does not override are the default
  ones, and the default \<^verbatim>\<open>batch_forget\<close> goes through its own \<^verbatim>\<open>forget\<close>.
\<close>

definition vfs_fs_ops :: "('b, 'c) backend_ops \<Rightarrow> u64 \<Rightarrow> ('b vfs, 'c) fs_ops" where
  "vfs_fs_ops be now =
     default_fs_ops
       \<lparr>fs_init := vfs_init be, fs_destroy := vfs_destroy be, fs_lookup := vfs_lookup be now,
        fs_forget := (\<lambda>ctx inode count v. snd (vfs_forget be now ctx inode count v)),
        fs_batch_forget := default_batch_forget (\<lambda>ctx inode count v. snd (vfs_forget be now ctx inode count v)),
        fs_getattr := vfs_getattr be now, fs_setattr := vfs_setattr be now,
        fs_readlink := vfs_readlink be now, fs_symlink := vfs_symlink be now,
        fs_mknod := vfs_mknod be now, fs_mkdir := vfs_mkdir be now, fs_unlink := vfs_unlink be now,
        fs_rmdir := vfs_rmdir be now, fs_rename := vfs_rename be now, fs_link := vfs_link be now,
        fs_open := vfs_open be now, fs_create := vfs_create be now, fs_read := vfs_read be now,
        fs_write := vfs_write be now, fs_flush := vfs_flush be now, fs_fsync := vfs_fsync be now,
        fs_fallocate := vfs_fallocate be now, fs_release := vfs_release be now,
        fs_statfs := vfs_statfs be now, fs_setxattr := vfs_setxattr be now,
        fs_getxattr := vfs_getxattr be now, fs_listxattr := vfs_listxattr be now,
        fs_removexattr := vfs_removexattr be now, fs_opendir := vfs_opendir be now,
        fs_readdir := vfs_readdir be now, fs_readdirplus := vfs_readdirplus be now,
        fs_fsyncdir := vfs_fsyncdir be now, fs_releasedir := vfs_releasedir be now,
        fs_setupmapping := vfs_setupmapping be now, fs_removemapping := vfs_removemapping be now,
        fs_access := vfs_access be now, fs_id_remap := vfs_id_remap\<rparr>"

section \<open>Steps of the file system\<close>

text \<open>The slot that a request on an inode is routed to, if it is routed to a backend.\<close>

definition route :: "u64 \<Rightarrow> 'b vfs \<Rightarrow> vfs_index option" where
  "route inode v =
     (case get_real_rootfs (VfsInode inode) v of Ok (Right idx, _) \<Rightarrow> Some idx | _ \<Rightarrow> None)"

text \<open>One request, labelled with the inode it is about (the old one of a pair).\<close>

inductive vfs_step :: "('b, 'c) backend_ops \<Rightarrow> u64 \<Rightarrow> u64 \<Rightarrow> 'b vfs \<Rightarrow> 'b vfs \<Rightarrow> bool" for be now where
  s_lookup: "vfs_step be now i v (snd (vfs_lookup be now ctx i name v))"
| s_forget: "vfs_step be now i v (snd (vfs_forget be now ctx i n v))"
| s_getattr: "vfs_step be now i v (snd (vfs_getattr be now ctx i h v))"
| s_setattr: "vfs_step be now i v (snd (vfs_setattr be now ctx i a h valid v))"
| s_readlink: "vfs_step be now i v (snd (vfs_readlink be now ctx i v))"
| s_symlink: "vfs_step be now i v (snd (vfs_symlink be now ctx target i name v))"
| s_mknod: "vfs_step be now i v (snd (vfs_mknod be now ctx i name mode rdev umask v))"
| s_mkdir: "vfs_step be now i v (snd (vfs_mkdir be now ctx i name mode umask v))"
| s_unlink: "vfs_step be now i v (snd (vfs_unlink be now ctx i name v))"
| s_rmdir: "vfs_step be now i v (snd (vfs_rmdir be now ctx i name v))"
| s_rename: "vfs_step be now i v (snd (vfs_rename be now ctx i oldname j newname flags v))"
| s_link: "vfs_step be now i v (snd (vfs_link be now ctx i j newname v))"
| s_open: "vfs_step be now i v (snd (vfs_open be now ctx i flags fuse_flags v))"
| s_create: "vfs_step be now i v (snd (vfs_create be now ctx i name args v))"
| s_read: "vfs_step be now i v (snd (snd (vfs_read be now ctx i h w sz off lock flags v)))"
| s_write: "vfs_step be now i v (snd (snd (vfs_write be now ctx i h w sz off lock delayed flags fuse_flags v)))"
| s_flush: "vfs_step be now i v (snd (vfs_flush be now ctx i h lock_owner v))"
| s_fsync: "vfs_step be now i v (snd (vfs_fsync be now ctx i datasync h v))"
| s_fallocate: "vfs_step be now i v (snd (vfs_fallocate be now ctx i h mode off len v))"
| s_release: "vfs_step be now i v (snd (vfs_release be now ctx i flags h do_flush flock lock v))"
| s_statfs: "vfs_step be now i v (snd (vfs_statfs be now ctx i v))"
| s_setxattr: "vfs_step be now i v (snd (vfs_setxattr be now ctx i name val flags v))"
| s_getxattr: "vfs_step be now i v (snd (vfs_getxattr be now ctx i name sz v))"
| s_listxattr: "vfs_step be now i v (snd (vfs_listxattr be now ctx i sz v))"
| s_removexattr: "vfs_step be now i v (snd (vfs_removexattr be now ctx i name v))"
| s_opendir: "vfs_step be now i v (snd (vfs_opendir be now ctx i flags v))"
| s_readdir: "vfs_step be now i v (snd (snd (vfs_readdir be now ctx i h sz off add c v)))"
| s_readdirplus: "vfs_step be now i v (snd (snd (vfs_readdirplus be now ctx i h sz off addp c v)))"
| s_fsyncdir: "vfs_step be now i v (snd (vfs_fsyncdir be now ctx i datasync h v))"
| s_releasedir: "vfs_step be now i v (snd (vfs_releasedir be now ctx i flags h v))"
| s_access: "vfs_step be now i v (snd (vfs_access be now ctx i msk v))"
| s_setupmapping: "vfs_step be now i v (snd (snd (vfs_setupmapping be now ctx i h fo len fl mo c v)))"
| s_removemapping: "vfs_step be now i v (snd (snd (vfs_removemapping be now ctx i reqs c v)))"

inductive_cases vfs_stepE: "vfs_step be now i v v'"

text \<open>
  The frame of a request: nothing but the state of the backend in slot \<open>o\<close> may change, and
  no slot is filled or emptied.
\<close>

definition only_slot :: "vfs_index option \<Rightarrow> 'b vfs \<Rightarrow> 'b vfs \<Rightarrow> bool" where
  "only_slot slot v v' \<longleftrightarrow>
     (\<exists>sbs. v' = v\<lparr>superblocks := sbs\<rparr> \<and> length sbs = length (superblocks v) \<and>
        (\<forall>i < length sbs. (sbs ! i = None) = (superblocks v ! i = None) \<and>
           (slot \<noteq> Some (of_nat i) \<longrightarrow> sbs ! i = superblocks v ! i)))"

lemma only_slot_refl [simp, intro]: "only_slot slot v v"
  unfolding only_slot_def by (rule exI [of _ "superblocks v"]) simp

lemma only_slot_update:
  assumes "get_fs_by_idx idx v = Ok fs"
  shows "only_slot (Some idx) v (v\<lparr>superblocks := (superblocks v)[unat idx := Some fs']\<rparr>)"
proof -
  have "unat idx < length (superblocks v)" "superblocks v ! unat idx = Some fs"
    using assms by (auto simp: get_fs_by_idx_def split: if_splits option.splits)
  then show ?thesis
    unfolding only_slot_def
    by (intro exI [of _ "(superblocks v)[unat idx := Some fs']"]) (auto simp: nth_list_update)
qed

lemma on_slot_frame: "only_slot (Some idx) v (snd (on_slot idx f v))"
  using only_slot_update [of idx v]
  by (auto simp: on_slot_def split: res.split prod.split)

lemma on_pseudo_frame: "snd (f (root v)) = root v \<Longrightarrow> snd (on_pseudo f v) = v"
  by (auto simp: on_pseudo_def split: prod.split)

lemma dispatch_frame [fuse_frame]:
  assumes "\<And>idata. snd (left idata (root v)) = root v"
  shows "only_slot (route i v) v (snd (dispatch i left right v))"
  by (auto simp: dispatch_def route_def on_pseudo_frame assms split: res.split vfs_either.split
      intro: on_slot_frame)

lemma dispatch2_frame [fuse_frame]:
  assumes "\<And>io ne. snd (left io ne (root v)) = root v"
  shows "only_slot (route i v) v (snd (dispatch2 i j left right v))"
  by (auto simp: dispatch2_def route_def on_pseudo_frame assms split: res.split vfs_either.split
      intro: on_slot_frame)

lemma dispatch_lend_frame [fuse_frame]:
  assumes "\<And>idata c. snd (snd (left idata c (root v))) = root v"
  shows "only_slot (route i v) v (snd (snd (dispatch_lend i c left right v)))"
proof -
  have "v\<lparr>root := snd (snd (left idata c (root v)))\<rparr> = v" for idata using assms by simp
  then show ?thesis
    using only_slot_update [of _ v]
    by (auto simp: dispatch_lend_def route_def split_def Let_def split: res.split vfs_either.split)
qed

lemma checked_frame [fuse_frame]: "only_slot slot v (snd (f v)) \<Longrightarrow> only_slot slot v (snd (checked name f v))"
  by (auto simp: checked_def split: res.split)

lemma pseudo_ops_pure [simp]:
  "snd (pseudo_lookup now ctx k name p) = p" "snd (pseudo_getattr now ctx k ho p) = p"
  "snd (snd (pseudo_readdir ctx k h sz off add c p)) = p"
  "snd (snd (pseudo_readdirplus now ctx k h sz off addp c p)) = p"
  "snd (pseudo_access ctx k msk p) = p"
  by (simp_all add: pseudo_lookup_def pseudo_getattr_def pseudo_readdir_def pseudo_readdirplus_def
      pseudo_access_def Let_def split: option.split prod.split)

lemma op_then_snd [simp]: "snd (op_then f rs) = snd rs"
  by (simp add: op_then_def)

lemma op_map_snd [simp]: "snd (op_map f rs) = snd rs"
  by (simp add: op_map_def)

lemma lookup_pseudo_pure [simp]: "snd (lookup_pseudo now v idata ctx name p) = p"
  by (simp add: lookup_pseudo_def)

lemmas pfs_simps = pfs_ops_def pseudo_fs_ops_def default_fs_ops_def

lemmas vfs_op_defs =
  vfs_lookup_def vfs_getattr_def vfs_setattr_def vfs_readlink_def vfs_symlink_def vfs_mknod_def
  vfs_mkdir_def vfs_unlink_def vfs_rmdir_def vfs_rename_def vfs_link_def vfs_open_def vfs_create_def
  vfs_read_def vfs_write_def vfs_flush_def vfs_fsync_def vfs_fallocate_def vfs_release_def
  vfs_statfs_def vfs_setxattr_def vfs_getxattr_def vfs_listxattr_def vfs_removexattr_def
  vfs_opendir_def vfs_readdir_def vfs_readdirplus_def vfs_fsyncdir_def vfs_releasedir_def
  vfs_access_def vfs_setupmapping_def vfs_removemapping_def

lemma vfs_step_frame:
  assumes "vfs_step be now i v v'"
  shows "only_slot (route i v) v v'"
  using assms
proof cases
  case (s_forget ctx n)
  have "snd (vfs_forget be now ctx i n v) = snd (dispatch i
      (\<lambda>idata p. (Ok (), fs_forget (pfs_ops be now) ctx (vi_ino idata) n p))
      (\<lambda>idata fs. (Ok (), fs_forget be ctx (vi_ino idata) n fs)) v)"
    by (simp add: vfs_forget_def split: prod.split res.split)
  with s_forget show ?thesis
    by (simp add: dispatch_frame pfs_simps)
qed (auto simp: vfs_op_defs pfs_simps intro!: fuse_frame)

section \<open>Reachable states\<close>

inductive vfs_reachable :: "('b, 'c) backend_ops \<Rightarrow> 'b vfs \<Rightarrow> bool" for be where
  r_new: "vfs_reachable be (vfs_new vo)"
| r_step: "vfs_reachable be v \<Longrightarrow> vfs_step be now i v v' \<Longrightarrow> vfs_reachable be v'"
| r_mount: "vfs_reachable be v \<Longrightarrow> mount_room path v \<Longrightarrow> vfs_reachable be (snd (vfs_mount be fs path v))"
| r_umount: "vfs_reachable be v \<Longrightarrow> (\<And>k. path_walk path (root v) = Ok (Some k) \<Longrightarrow> umount_safe k v) \<Longrightarrow>
    vfs_reachable be (snd (umount be path v))"
| r_init: "vfs_reachable be v \<Longrightarrow> vfs_reachable be (snd (vfs_init be caps v))"
| r_destroy: "vfs_reachable be v \<Longrightarrow> vfs_reachable be (vfs_destroy be v)"
| r_remove: "vfs_reachable be v \<Longrightarrow> vfs_reachable be (set_remove_pseudo_root v)"

lemma vfs_wf_slots:
  assumes wf: "vfs_wf v" and len: "length sbs = length (superblocks v)"
    and same: "\<And>i. i < length sbs \<Longrightarrow> (sbs ! i = None) = (superblocks v ! i = None)"
  shows "vfs_wf (v\<lparr>superblocks := sbs\<rparr>)"
proof -
  have eq: "(sbs ! unat i = None) = (superblocks v ! unat i = None)" for i :: u8
    using same [of "unat i"] vfs_wf_slot [OF wf, of i] len by simp
  have "mount_wf (v\<lparr>superblocks := sbs\<rparr>) k m" if "mountpoints v k = Some m" for k m
    using vfs_wf_mount [OF wf that] eq by (auto simp: mount_wf_def)
  then show ?thesis
    using wf len eq unfolding vfs_wf_def by simp
qed

lemma only_slot_wf: "vfs_wf v \<Longrightarrow> only_slot slot v v' \<Longrightarrow> vfs_wf v'"
  unfolding only_slot_def using vfs_wf_slots by metis

lemma init_all_slots:
  "length (snd (init_all be caps sbs)) = length sbs \<and>
   (\<forall>i < length sbs. (snd (init_all be caps sbs) ! i = None) = (sbs ! i = None))"
  by (induction be caps sbs rule: init_all.induct)
    (auto simp: Let_def nth_Cons split: res.split prod.split nat.split)

lemma vfs_wf_opts [simp]: "vfs_wf (v\<lparr>opts := vo\<rparr>) \<longleftrightarrow> vfs_wf v"
  by (simp add: vfs_wf_def mount_wf_def)

lemma vfs_wf_initialized [simp]: "vfs_wf (v\<lparr>initialized := b\<rparr>) \<longleftrightarrow> vfs_wf v"
  by (simp add: vfs_wf_def mount_wf_def)

lemma vfs_wf_remove_flag [simp]: "vfs_wf (v\<lparr>remove_pseudo_root := b\<rparr>) \<longleftrightarrow> vfs_wf v"
  by (simp add: vfs_wf_def mount_wf_def)

lemma vfs_init_wf: "vfs_wf v \<Longrightarrow> vfs_wf (snd (vfs_init be caps v))"
proof -
  assume wf: "vfs_wf v"
  let ?n = "negotiate caps (opts v)"
  have "vfs_wf ((v\<lparr>opts := ?n\<rparr>)\<lparr>superblocks := snd (init_all be (out_opts ?n) (superblocks v))\<rparr>)"
    using wf init_all_slots [of be "out_opts ?n" "superblocks v"] by (intro vfs_wf_slots) simp_all
  with wf show ?thesis
    by (cases "init_all be (out_opts ?n) (superblocks v)"; cases "fst (init_all be (out_opts ?n) (superblocks v))")
      (auto simp: vfs_init_def Let_def)
qed

lemma vfs_destroy_wf: "vfs_wf v \<Longrightarrow> vfs_wf (vfs_destroy be v)"
proof -
  assume wf: "vfs_wf v"
  have "vfs_wf (v\<lparr>superblocks := map (map_option (fs_destroy be)) (superblocks v)\<rparr>)"
    using wf by (intro vfs_wf_slots) simp_all
  then show ?thesis using wf by (simp add: vfs_destroy_def)
qed

lemma umount_wf:
  assumes wf: "vfs_wf v" and "\<And>k. path_walk path (root v) = Ok (Some k) \<Longrightarrow> umount_safe k v"
  shows "vfs_wf (snd (umount be path v))"
proof (cases "path_walk path (root v)")
  case (Ok found)
  show ?thesis
  proof (cases found)
    case None
    with Ok wf show ?thesis by (simp add: umount_def)
  next
    case (Some k)
    show ?thesis
    proof (cases "mountpoints v k")
      case None
      with Ok Some wf show ?thesis by (simp add: umount_def split: option.split)
    next
      case (Some m)
      with Ok \<open>found = Some k\<close> umount_ok [OF wf _ Some, of path be] assms(2) show ?thesis by auto
    qed
  qed
qed (use wf in \<open>simp_all add: umount_def\<close>)

lemma vfs_reachable_wf: "vfs_reachable be v \<Longrightarrow> vfs_wf v"
proof (induction rule: vfs_reachable.induct)
  case (r_step v now i v')
  then show ?case using only_slot_wf vfs_step_frame by blast
next
  case (r_mount v path fs)
  then show ?case by (simp add: vfs_mount_preserves_wf)
next
  case (r_umount v path)
  then show ?case by (simp add: umount_wf)
qed (simp_all add: vfs_new_wf vfs_init_wf vfs_destroy_wf set_remove_pseudo_root_def)

section \<open>Routing\<close>

lemma route_encoded:
  assumes wf: "vfs_wf v" and live: "superblocks v ! unat idx \<noteq> None"
    and conv: "convert_inode idx i = Ok w" and "i \<noteq> 0"
  shows "get_real_rootfs (VfsInode w) v = Ok (Right idx, VfsInode w)" and "vi_ino (VfsInode w) = i"
    and "vi_fs_idx (VfsInode w) = idx"
proof -
  from conv \<open>i \<noteq> 0\<close> have w: "w = push_bit VFS_INDEX_SHIFT (ucast idx) OR i" "i \<le> VFS_MAX_INO"
    by (auto simp: convert_inode_def split: if_splits)
  show ino: "vi_ino (VfsInode w) = i" and fi: "vi_fs_idx (VfsInode w) = idx"
    using w by (simp_all del: vi_ino.simps vi_fs_idx.simps)
  have "idx \<noteq> VFS_PSEUDO_FS_IDX"
    using live vfs_wf_reserved [OF wf] by (auto simp: VFS_PSEUDO_FS_IDX_def)
  with fi have "\<not> is_pseudo_fs (VfsInode w)" by simp
  moreover have "\<exists>fs. get_fs_by_idx idx v = Ok fs"
    using live vfs_wf_slot [OF wf, of idx] by (auto simp: get_fs_by_idx_def)
  ultimately show "get_real_rootfs (VfsInode w) v = Ok (Right idx, VfsInode w)"
    using fi by (auto simp: get_real_rootfs_def simp del: vi_fs_idx.simps is_pseudo_fs.simps)
qed

lemma get_real_rootfs_Right:
  assumes wf: "vfs_wf v" and r: "get_real_rootfs i v = Ok (Right idx, j)"
  shows "vi_fs_idx j = idx" and "superblocks v ! unat idx \<noteq> None"
proof -
  have live: "get_fs_by_idx k v = Ok fs \<Longrightarrow> superblocks v ! unat k \<noteq> None" for k fs
    by (auto simp: get_fs_by_idx_def split: if_splits option.splits)
  show "vi_fs_idx j = idx" "superblocks v ! unat idx \<noteq> None"
    using r live
    by (auto simp: get_real_rootfs_def vfs_inode_new_def not_VFS_MAX_INO_iff
        split: if_splits option.splits simp del: vi_fs_idx.simps)
qed

lemma only_slot_None:
  assumes "only_slot None v v'"
  shows "v' = v"
proof -
  from assms obtain sbs where "v' = v\<lparr>superblocks := sbs\<rparr>" "length sbs = length (superblocks v)"
    "\<forall>i < length sbs. sbs ! i = superblocks v ! i"
    unfolding only_slot_def by auto
  then show ?thesis by (auto simp: list_eq_iff_nth_eq [of sbs])
qed

lemma stale_inode:
  assumes wf: "vfs_wf v" and gone: "superblocks v ! unat (vi_fs_idx (VfsInode w)) = None"
    and "vi_fs_idx (VfsInode w) \<noteq> VFS_PSEUDO_FS_IDX"
  shows "get_real_rootfs (VfsInode w) v = Err (Os ENOENT)"
  using assms vfs_wf_slot [OF wf, of "vi_fs_idx (VfsInode w)"]
  by (simp add: get_real_rootfs_def get_fs_by_idx_def)

lemma stale_dispatch:
  assumes "get_real_rootfs (VfsInode w) v = Err (Os ENOENT)"
  shows "dispatch w left right v = (Err (Os ENOENT), v)"
    and "dispatch_lend w c lleft lright v = (Err (Os ENOENT), c, v)"
    and "dispatch2 w j left2 right2 v = (Err (Os ENOENT), v)"
  using assms by (simp_all add: dispatch_def dispatch_lend_def dispatch2_def)

lemma negotiate_contains:
  "flags_contains caps (out_opts (negotiate caps n))"
  "flags_contains (out_opts n) (out_opts (negotiate caps n))"
  by (auto simp: negotiate_def Let_def flags_contains_bit flags_remove_def bit_simps)

lemma init_all_Ok:
  "init_all be caps sbs = (Ok (), sbs') \<Longrightarrow> sbs' = map (map_option (\<lambda>fs. snd (fs_init be caps fs))) sbs"
  by (induction be caps sbs arbitrary: sbs' rule: init_all.induct)
    (auto simp: Let_def split: res.splits prod.splits)

lemma map_id_roundtrip:
  assumes "unat from + unat rng < 2 ^ 32" and "unat to + unat rng < 2 ^ 32"
    and "from \<le> i" and "i < from + rng"
  shows "map_id to from rng (map_id from to rng i) = i"
    and "to \<le> map_id from to rng i" and "map_id from to rng i < to + rng"
proof -
  have sums: "unat (from + rng) = unat from + unat rng" "unat (to + rng) = unat to + unat rng"
    using assms(1,2) by (simp_all add: unat_word_ariths)
  have m: "map_id from to rng i = i + (to - from)" using assms(3,4) by (simp add: map_id_def)
  define d where "d = i - from"
  have d: "i + (to - from) = to + d" by (simp add: d_def)
  have ud: "unat d = unat i - unat from" unfolding d_def using assms(3) by (rule unat_sub)
  have "unat from \<le> unat i" "unat i < unat from + unat rng"
    using assms(3,4) sums by (simp_all add: word_le_nat_alt word_less_nat_alt)
  with ud assms(2) have "unat (i + (to - from)) = unat to + (unat i - unat from)"
    unfolding d by (simp add: unat_word_ariths)
  then have "to \<le> i + (to - from)" "i + (to - from) < to + rng"
    using sums \<open>unat from \<le> unat i\<close> \<open>unat i < unat from + unat rng\<close>
    by (simp_all add: word_le_nat_alt word_less_nat_alt)
  then show "map_id to from rng (map_id from to rng i) = i"
    "to \<le> map_id from to rng i" "map_id from to rng i < to + rng"
    unfolding m by (simp_all add: map_id_def)
qed

section \<open>A sample mount\<close>

definition sample_mounted :: "nat vfs" where
  "sample_mounted = snd (vfs_mount sample_backend 0 ''/a'' sample_vfs)"

lemma sample_mounted_wf: "vfs_wf sample_mounted"
  unfolding sample_mounted_def by (rule vfs_mount_preserves_wf [OF sample_vfs_wf sample_vfs_room])

lemma sample_mounted_eq:
  "sample_mounted = sample_vfs
     \<lparr>next_super := 2,
      root := \<lparr>next_inode = 3, inodes = [1 \<mapsto> pseudo_root\<lparr>pi_children := [(2, ''a'')]\<rparr>,
        2 \<mapsto> \<lparr>pi_ino = 2, pi_parent = 1, pi_children = [], pi_name = ''a''\<rparr>]\<rparr>,
      superblocks := (replicate 256 None)[1 := Some 0],
      mountpoints := [2 \<mapsto> \<lparr>mp_fs_idx = 1, mp_ino = 1,
        mp_root_entry = entry_default\<lparr>e_inode := 0x100000000000001,
          e_attr := stat64_zeroed\<lparr>st_ino := 0x100000000000001\<rparr>\<rparr>, mp_path = ''/a''\<rparr>]\<rparr>"
proof -
  have "path_components ''/a'' = [RootDir, Normal ''a'']" by code_simp
  then have pm: "pseudo_mount ''/a'' pseudo_fs_new = (Ok 2, \<lparr>next_inode = 3,
      inodes = [1 \<mapsto> pseudo_root\<lparr>pi_children := [(2, ''a'')]\<rparr>,
        2 \<mapsto> \<lparr>pi_ino = 2, pi_parent = 1, pi_children = [], pi_name = ''a''\<rparr>]\<rparr>)"
    by (simp add: pseudo_mount_def path_has_root_def root_inode_def
        pseudo_fs_new_def insert_inode_def pseudo_root_def pseudo_inode_new_def find_child_def
        create_inode_def new_inode_def insert_child_def PSEUDOFS_NEXT_INODE_def ROOT_ID_def fun_eq_iff)
  have al: "allocate_fs_idx sample_vfs = (Ok 1, sample_vfs\<lparr>next_super := 2\<rparr>)"
    by (simp add: allocate_fs_idx_def sample_vfs_def vfs_new_def alloc_loop.simps VFS_PSEUDO_FS_IDX_def
        MAX_VFS_INDEX_def)
  have ci: "convert_inode 1 1 = Ok 0x100000000000001"
    by (simp add: convert_inode_def VFS_MAX_INO_def VFS_INDEX_SHIFT_def push_bit_eq_mult)
  have sv: "root sample_vfs = pseudo_fs_new" "id_mapping sample_vfs = None" "dropped sample_vfs = []"
    "mountpoints sample_vfs = Map.empty" "superblocks sample_vfs = replicate 256 None"
    "initialized sample_vfs = False"
    by (simp_all add: sample_vfs_def vfs_new_def vfs_options_default_def MAX_VFS_INDEX_def)
  have ce: "convert_entry None 1 1 (entry_default\<lparr>e_inode := 1\<rparr>) =
      Ok (entry_default\<lparr>e_inode := 0x100000000000001,
            e_attr := stat64_zeroed\<lparr>st_ino := 0x100000000000001\<rparr>\<rparr>)"
    by (simp add: convert_entry_def ci entry_default_def)
  have i: "e_inode (entry_default\<lparr>e_inode := 1\<rparr>) = 1" by simp
  let ?v = "sample_vfs\<lparr>next_super := 2\<rparr>"
  let ?m = "\<lparr>mp_fs_idx = 1, mp_ino = 1,
        mp_root_entry = entry_default\<lparr>e_inode := 0x100000000000001,
          e_attr := stat64_zeroed\<lparr>st_ino := 0x100000000000001\<rparr>\<rparr>, mp_path = ''/a''\<rparr>"
  have ins: "insert_mount_locked 0 (entry_default\<lparr>e_inode := 1\<rparr>) 1 ''/a'' ?v =
      (Ok (), ?v\<lparr>root := snd (pseudo_mount ''/a'' pseudo_fs_new),
         superblocks := (replicate 256 None)[1 := Some 0], mountpoints := [2 \<mapsto> ?m],
         dropped := []\<rparr>)"
    unfolding insert_mount_locked_def by (simp add: pm ce sv)
  show ?thesis
    unfolding sample_mounted_def vfs_mount_def
    by (simp add: VFS_MAX_INO_def mount_init_def sv al ins pm)
qed

lemma sample_routes:
  "get_real_rootfs (VfsInode 0x100000000000001) sample_mounted = Ok (Right 1, VfsInode 0x100000000000001)"
  "vi_ino (VfsInode 0x100000000000001) = 1" "vi_fs_idx (VfsInode 0x100000000000001) = 1"
  "get_real_rootfs (VfsInode 1) sample_mounted = Ok (Left, VfsInode 1)"
  "superblocks sample_mounted ! 1 = Some 0"
proof -
  have ci: "convert_inode 1 1 = Ok 0x100000000000001"
    by (simp add: convert_inode_def VFS_MAX_INO_def VFS_INDEX_SHIFT_def push_bit_eq_mult)
  show s: "superblocks sample_mounted ! 1 = Some 0" by (simp add: sample_mounted_eq)
  then have "superblocks sample_mounted ! unat (1 :: u8) \<noteq> None" by simp
  from route_encoded [OF sample_mounted_wf this ci]
  show "get_real_rootfs (VfsInode 0x100000000000001) sample_mounted = Ok (Right 1, VfsInode 0x100000000000001)"
    "vi_ino (VfsInode 0x100000000000001) = 1" "vi_fs_idx (VfsInode 0x100000000000001) = 1"
    by simp_all
  show "get_real_rootfs (VfsInode 1) sample_mounted = Ok (Left, VfsInode 1)"
    by (simp add: get_real_rootfs_def sample_mounted_eq sample_vfs_def vfs_new_def
        VFS_PSEUDO_FS_IDX_def VFS_INDEX_SHIFT_def VFS_MAX_INO_def ROOT_ID_def drop_bit_eq_div)
qed

section \<open>Properties\<close>

text \<open>
  (C11) In every state reachable from a new VFS by requests, mounts, safe unmounts,
  initialisation and destruction, in any order and for any backends, the mount invariant
  holds.
\<close>

theorem reachable_wf:
  assumes "vfs_reachable be v"
  shows "vfs_wf v"
  using assms by (rule vfs_reachable_wf)

theorem reachable_wf_witness:
  "vfs_wf (snd (vfs_init sample_backend 0 (snd (vfs_mount sample_backend 0 ''/a'' sample_vfs))))"
proof -
  have "vfs_reachable sample_backend sample_vfs" unfolding sample_vfs_def by (rule r_new)
  from r_init [OF r_mount [OF this sample_vfs_room]] show ?thesis by (rule reachable_wf)
qed

text \<open>
  (C10) Isolation: a request on an inode changes at most the state of the one backend that
  the inode is routed to. Pseudo file system, mount points, options and the states of all
  other backends are untouched, and no slot is filled or emptied.
\<close>

theorem request_isolated:
  assumes "vfs_wf v" and "vfs_step be now i v v'"
  shows "v' = v\<lparr>superblocks := superblocks v'\<rparr> \<and>
    (superblocks v' ! unat j = None) = (superblocks v ! unat j = None) \<and>
    (route i v \<noteq> Some j \<longrightarrow> superblocks v' ! unat j = superblocks v ! unat j)"
proof -
  from vfs_step_frame [OF assms(2)] obtain sbs where sbs: "v' = v\<lparr>superblocks := sbs\<rparr>"
    "length sbs = length (superblocks v)"
    "\<forall>i' < length sbs. (sbs ! i' = None) = (superblocks v ! i' = None) \<and>
       (route i v \<noteq> Some (of_nat i') \<longrightarrow> sbs ! i' = superblocks v ! i')"
    unfolding only_slot_def by blast
  with vfs_wf_slot [OF assms(1), of j] show ?thesis by auto
qed

theorem request_isolated_witness:
  "let v = snd (vfs_mount sample_backend 0 ''/a'' sample_vfs);
       v' = snd (vfs_lookup sample_backend 0 context_default 1 ''a'' v)
   in v' = v\<lparr>superblocks := superblocks v'\<rparr> \<and>
      (superblocks v' ! unat (3 :: u8) = None) = (superblocks v ! unat (3 :: u8) = None) \<and>
      (route 1 v \<noteq> Some 3 \<longrightarrow> superblocks v' ! unat (3 :: u8) = superblocks v ! unat (3 :: u8))"
  unfolding Let_def
  by (rule request_isolated [OF vfs_mount_preserves_wf [OF sample_vfs_wf sample_vfs_room] s_lookup])

text \<open>
  (C17) An entry that a backend returns from a lookup is usable: the inode number the client
  receives, when it comes back in a request, is routed to the same backend and to the very
  inode number that the backend returned, and the attribute carries the same number.
\<close>

theorem lookup_routes_back:
  assumes wf: "vfs_wf v" and r: "get_real_rootfs (VfsInode parent) v = Ok (Right idx, idata)"
    and fs: "superblocks v ! unat idx = Some fs" and "CHR ''/'' \<notin> set name"
    and be: "fs_lookup be ctx (vi_ino idata) name fs = (Ok e, fs')"
    and "e_inode e \<noteq> 0" and "e_inode e \<le> VFS_MAX_INO"
  shows "\<exists>e' v' k. vfs_lookup be now ctx parent name v = (Ok e', v') \<and>
     superblocks v' ! unat idx = Some fs' \<and> st_ino (e_attr e') = e_inode e' \<and>
     get_real_rootfs (VfsInode (e_inode e')) v' = Ok (Right idx, k) \<and> vi_ino k = e_inode e"
proof -
  let ?v = "v\<lparr>superblocks := (superblocks v)[unat idx := Some fs']\<rparr>"
  note idx = get_real_rootfs_Right [OF wf r] and slot = vfs_wf_slot [OF wf, of idx]
  obtain e' where e': "convert_entry (id_mapping v) idx (e_inode e) e = Ok e'"
    using convert_entry_Ok_iff assms(7) by blast
  have "get_fs_by_idx idx v = Ok fs" using fs slot by (simp add: get_fs_by_idx_def)
  with r be e' idx assms(4) have lk: "vfs_lookup be now ctx parent name v = (Ok e', ?v)"
    by (simp add: vfs_lookup_def dispatch_def on_slot_def op_then_def hash_entry_def
        to_bytes_with_nul_def SLASH_ASCII_def)
  have "vfs_wf ?v"
    using fs slot by (intro vfs_wf_slots [OF wf]) (auto simp: nth_list_update)
  moreover have "superblocks ?v ! unat idx = Some fs'" using slot by simp
  ultimately show ?thesis
    using lk convert_entry_inode [OF e'] route_encoded [of ?v idx "e_inode e" "e_inode e'"] assms(6)
    by auto
qed

theorem lookup_routes_back_witness:
  "\<exists>e' v' k. vfs_lookup sample_backend 0 context_default 0x100000000000001 ''x'' sample_mounted = (Ok e', v') \<and>
     superblocks v' ! unat (1 :: u8) = Some 1 \<and> st_ino (e_attr e') = e_inode e' \<and>
     get_real_rootfs (VfsInode (e_inode e')) v' = Ok (Right 1, k) \<and> vi_ino k = e_inode (entry_default\<lparr>e_inode := 7\<rparr>)"
  by (rule lookup_routes_back [OF sample_mounted_wf sample_routes(1), of 0])
    (simp_all add: sample_routes(5) [simplified] VFS_MAX_INO_def)

text \<open>
  (C18) Looking up a name of the pseudo file system that carries a mount crosses it: the
  client receives an inode number which is routed to the mounted backend and to the root
  inode number that the backend gave when it was mounted.
\<close>

theorem lookup_crosses_mount:
  assumes wf: "vfs_wf v" and r: "get_real_rootfs (VfsInode parent) v = Ok (Left, idata)"
    and "CHR ''/'' \<notin> set name"
    and p: "pseudo_lookup now ctx (vi_ino idata) name (root v) = (Ok e, root v)"
    and m: "mountpoints v (e_inode e) = Some mnt" and "mp_ino mnt \<noteq> 0"
  shows "\<exists>e' k. vfs_lookup be now ctx parent name v = (Ok e', v) \<and>
     get_real_rootfs (VfsInode (e_inode e')) v = Ok (Right (mp_fs_idx mnt), k) \<and> vi_ino k = mp_ino mnt"
proof -
  note mwf = vfs_wf_mount [OF wf m, unfolded mount_wf_def]
  obtain e' where e': "convert_entry (id_mapping v) (mp_fs_idx mnt) (mp_ino mnt) (mp_root_entry mnt) = Ok e'"
    using convert_entry_Ok_iff mwf by blast
  with r p m assms(3) have "vfs_lookup be now ctx parent name v = (Ok e', v)"
    by (simp add: vfs_lookup_def dispatch_def on_pseudo_def lookup_pseudo_def op_then_def
        to_bytes_with_nul_def SLASH_ASCII_def)
  moreover have "convert_inode (mp_fs_idx mnt) (mp_ino mnt) = Ok (e_inode e')"
    using convert_entry_inode [OF e'] by simp
  ultimately show ?thesis
    using route_encoded [OF wf _ _ assms(6)] mwf by blast
qed

theorem lookup_crosses_mount_witness:
  "\<exists>e' k. vfs_lookup sample_backend 0 context_default 1 ''a'' sample_mounted = (Ok e', sample_mounted) \<and>
     get_real_rootfs (VfsInode (e_inode e')) sample_mounted = Ok (Right 1, k) \<and> vi_ino k = 1"
proof -
  have "utf8_valid ''a''" by (simp add: utf8_valid_def)
  then have "pseudo_lookup 0 context_default (vi_ino (VfsInode 1)) ''a'' (root sample_mounted) =
      (Ok (get_entry 0 2), root sample_mounted)"
    by (simp add: pseudo_lookup_def sample_mounted_eq find_child_def VFS_MAX_INO_def)
  from lookup_crosses_mount [OF sample_mounted_wf sample_routes(4) _ this, of _ sample_backend]
  show ?thesis by (simp add: sample_mounted_eq get_entry_def)
qed

text \<open>
  (C22) Renaming or linking between two different file systems is refused with EINVAL, and no
  file system sees the request.
\<close>

theorem cross_fs_refused:
  assumes "get_real_rootfs (VfsInode i) v = Ok (a, io)" and "get_real_rootfs (VfsInode j) v = Ok (b, ne)"
    and "vi_fs_idx io \<noteq> vi_fs_idx ne"
    and "validate_path_component oldname = Ok ()" and "validate_path_component newname = Ok ()"
  shows "vfs_rename be now ctx i oldname j newname flags v = (Err (Os EINVAL), v) \<and>
    vfs_link be now ctx i j newname v = (Err (Os EINVAL), v)"
  using assms by (simp add: vfs_rename_def vfs_link_def checked_def dispatch2_def)

theorem cross_fs_refused_witness:
  "vfs_rename sample_backend 0 context_default 0x100000000000001 ''x'' 1 ''y'' 0 sample_mounted =
     (Err (Os EINVAL), sample_mounted) \<and>
   vfs_link sample_backend 0 context_default 0x100000000000001 1 ''y'' sample_mounted =
     (Err (Os EINVAL), sample_mounted)"
proof (rule cross_fs_refused [OF sample_routes(1,4)])
  show "vi_fs_idx (VfsInode 0x100000000000001) \<noteq> vi_fs_idx (VfsInode 1)"
    by (simp add: sample_routes(3) VFS_INDEX_SHIFT_def drop_bit_eq_div)
  show "validate_path_component ''x'' = Ok ()" "validate_path_component ''y'' = Ok ()" by code_simp+
qed

text \<open>
  (C21) A request on an inode of a file system that has been unmounted reaches no backend. It is
  answered with ENOENT by every method the VFS implements that takes no name, by the methods
  that take a name when the name is a valid path component (for \<^verbatim>\<open>lookup\<close>: has no slash), and by
  \<^verbatim>\<open>open\<close> and \<^verbatim>\<open>opendir\<close> unless these are switched off; a forget for it is accepted. No request on it
  changes anything, whatever its answer.
\<close>

theorem unmounted_inode_inert:
  assumes wf: "vfs_wf v" and gone: "superblocks v ! unat (vi_fs_idx (VfsInode w)) = None"
    and "vi_fs_idx (VfsInode w) \<noteq> VFS_PSEUDO_FS_IDX"
  shows "vfs_getattr be now ctx w handle v = (Err (Os ENOENT), v) \<and>
     vfs_setattr be now ctx w attr handle valid v = (Err (Os ENOENT), v) \<and>
     vfs_readlink be now ctx w v = (Err (Os ENOENT), v) \<and>
     vfs_read be now ctx w h c sz off lock flags v = (Err (Os ENOENT), c, v) \<and>
     vfs_write be now ctx w h c sz off lock delayed flags fuse_flags v = (Err (Os ENOENT), c, v) \<and>
     vfs_flush be now ctx w h lock_owner v = (Err (Os ENOENT), v) \<and>
     vfs_fsync be now ctx w datasync h v = (Err (Os ENOENT), v) \<and>
     vfs_fsyncdir be now ctx w datasync h v = (Err (Os ENOENT), v) \<and>
     vfs_fallocate be now ctx w h mode off len v = (Err (Os ENOENT), v) \<and>
     vfs_release be now ctx w flags h do_flush flock lock v = (Err (Os ENOENT), v) \<and>
     vfs_releasedir be now ctx w flags h v = (Err (Os ENOENT), v) \<and>
     vfs_statfs be now ctx w v = (Err (Os ENOENT), v) \<and>
     vfs_listxattr be now ctx w sz v = (Err (Os ENOENT), v) \<and>
     vfs_access be now ctx w msk v = (Err (Os ENOENT), v) \<and>
     vfs_readdir be now ctx w h sz off add c v = (Err (Os ENOENT), c, v) \<and>
     vfs_readdirplus be now ctx w h sz off addp c v = (Err (Os ENOENT), c, v) \<and>
     vfs_setupmapping be now ctx w h fo mlen fl mo c v = (Err (Os ENOENT), c, v) \<and>
     vfs_removemapping be now ctx w reqs c v = (Err (Os ENOENT), c, v) \<and>
     (validate_path_component name = Ok () \<longrightarrow>
        vfs_symlink be now ctx target w name v = (Err (Os ENOENT), v) \<and>
        vfs_mknod be now ctx w name mode rdev umask v = (Err (Os ENOENT), v) \<and>
        vfs_mkdir be now ctx w name mode umask v = (Err (Os ENOENT), v) \<and>
        vfs_unlink be now ctx w name v = (Err (Os ENOENT), v) \<and>
        vfs_rmdir be now ctx w name v = (Err (Os ENOENT), v) \<and>
        vfs_link be now ctx w j name v = (Err (Os ENOENT), v) \<and>
        vfs_create be now ctx w name args v = (Err (Os ENOENT), v) \<and>
        vfs_setxattr be now ctx w name val flags v = (Err (Os ENOENT), v) \<and>
        vfs_getxattr be now ctx w name sz v = (Err (Os ENOENT), v) \<and>
        vfs_removexattr be now ctx w name v = (Err (Os ENOENT), v)) \<and>
     (validate_path_component name = Ok () \<and> validate_path_component newname = Ok () \<longrightarrow>
        vfs_rename be now ctx w name j newname flags v = (Err (Os ENOENT), v)) \<and>
     (SLASH_ASCII \<notin> set (to_bytes_with_nul name) \<longrightarrow> vfs_lookup be now ctx w name v = (Err (Os ENOENT), v)) \<and>
     (\<not> no_open (opts v) \<longrightarrow> vfs_open be now ctx w flags fuse_flags v = (Err (Os ENOENT), v)) \<and>
     (\<not> no_opendir (opts v) \<longrightarrow> vfs_opendir be now ctx w flags v = (Err (Os ENOENT), v)) \<and>
     vfs_forget be now ctx w n v = (Ok (), v) \<and> (\<forall>v'. vfs_step be now w v v' \<longrightarrow> v' = v)"
proof -
  note st = stale_inode [OF assms]
  then have "only_slot None v v'" if "vfs_step be now w v v'" for v'
    using vfs_step_frame [OF that] by (simp add: route_def)
  then have "\<forall>v'. vfs_step be now w v v' \<longrightarrow> v' = v" using only_slot_None by blast
  then show ?thesis
    by (simp add: stale_dispatch [OF st] checked_def vfs_getattr_def vfs_setattr_def vfs_readlink_def vfs_read_def
        vfs_write_def vfs_flush_def vfs_fsync_def vfs_fsyncdir_def vfs_fallocate_def vfs_release_def vfs_releasedir_def
        vfs_statfs_def vfs_listxattr_def vfs_access_def vfs_readdir_def vfs_readdirplus_def vfs_setupmapping_def
        vfs_removemapping_def vfs_symlink_def vfs_mknod_def vfs_mkdir_def vfs_unlink_def vfs_rmdir_def vfs_rename_def
        vfs_link_def vfs_create_def vfs_setxattr_def vfs_getxattr_def vfs_removexattr_def vfs_lookup_def vfs_open_def
        vfs_opendir_def vfs_forget_def)
qed

theorem unmounted_inode_inert_witness:
  "vfs_getattr sample_backend 0 context_default 0x200000000000001 None sample_mounted = (Err (Os ENOENT), sample_mounted) \<and>
   vfs_unlink sample_backend 0 context_default 0x200000000000001 ''x'' sample_mounted = (Err (Os ENOENT), sample_mounted) \<and>
   vfs_forget sample_backend 0 context_default 0x200000000000001 1 sample_mounted = (Ok (), sample_mounted)"
proof -
  have "vi_fs_idx (VfsInode 0x200000000000001) = 2" by code_simp
  then have gone: "superblocks sample_mounted ! unat (vi_fs_idx (VfsInode 0x200000000000001)) = None"
    "vi_fs_idx (VfsInode 0x200000000000001) \<noteq> VFS_PSEUDO_FS_IDX"
    by (simp_all add: VFS_PSEUDO_FS_IDX_def sample_mounted_eq)
  have "validate_path_component ''x'' = Ok ()" by code_simp
  then show ?thesis
    using unmounted_inode_inert [OF sample_mounted_wf gone, where be = sample_backend and now = 0
        and ctx = context_default and handle = None and name = "''x''" and n = 1]
    by (simp del: vi_fs_idx.simps)
qed

text \<open>
  (C20) The negotiation is sound: the options a successful \<^verbatim>\<open>init\<close> returns are supported by the
  client and were enabled in the VFS; every mounted backend has been initialised with
  exactly these options, once; opening without a handle is only kept when the client
  offered it, and then truncation on open is not offered; a second \<^verbatim>\<open>init\<close> is refused with
  EINVAL and changes nothing.
\<close>

theorem init_negotiates:
  assumes "vfs_init be caps v = (Ok out, v')"
  shows "flags_contains caps out \<and> flags_contains (out_opts (opts v)) out \<and>
    out_opts (opts v') = out \<and> in_opts (opts v') = caps \<and> initialized v' \<and>
    superblocks v' = map (map_option (\<lambda>fs. snd (fs_init be out fs))) (superblocks v) \<and>
    (if no_open (opts v') then caps AND ZERO_MESSAGE_OPEN \<noteq> 0 \<and> out AND ATOMIC_O_TRUNC = 0
     else no_open (opts v) \<or> out AND ZERO_MESSAGE_OPEN = 0) \<and>
    vfs_init be caps' v' = (Err (Os EINVAL), v')"
proof -
  let ?n = "negotiate caps (opts v)"
  from assms obtain sbs where i: "init_all be (out_opts ?n) (superblocks v) = (Ok (), sbs)"
    and v': "out = out_opts ?n" "v' = v\<lparr>opts := ?n, superblocks := sbs, initialized := True\<rparr>"
    by (auto simp: vfs_init_def Let_def split: if_splits prod.splits)
  have "in_opts ?n = caps" by (simp add: negotiate_def Let_def)
  moreover have "if no_open ?n then caps AND ZERO_MESSAGE_OPEN \<noteq> 0 \<and> out_opts ?n AND ATOMIC_O_TRUNC = 0
     else no_open (opts v) \<or> out_opts ?n AND ZERO_MESSAGE_OPEN = 0"
    by (auto simp: negotiate_def Let_def flags_remove_def flags_is_empty_def bit_eq_iff bit_simps)
  ultimately show ?thesis
    using init_all_Ok [OF i] v' by (simp add: vfs_init_def negotiate_contains)
qed

theorem init_negotiates_witness:
  "let out = ASYNC_READ OR ZERO_MESSAGE_OPEN; v' = snd (vfs_init sample_backend out sample_vfs)
   in fst (vfs_init sample_backend out sample_vfs) = Ok out \<and>
      flags_contains out out \<and> no_open (opts v') \<and> initialized v' \<and>
      vfs_init sample_backend 0 v' = (Err (Os EINVAL), v')"
proof -
  let ?c = "ASYNC_READ OR ZERO_MESSAGE_OPEN"
  let ?v = "snd (vfs_init sample_backend ?c sample_vfs)"
  have "init_all sample_backend caps (replicate n None) = (Ok (), replicate n None)" for n caps
    by (induction n) simp_all
  moreover have n: "out_opts (negotiate ?c vfs_options_default) = ?c" "no_open (negotiate ?c vfs_options_default)"
    by (simp_all add: negotiate_def Let_def vfs_options_default_def fs_option_defs flags_remove_def flags_is_empty_def)
  ultimately have 1: "fst (vfs_init sample_backend ?c sample_vfs) = Ok ?c" "no_open (opts ?v)"
    by (simp_all add: vfs_init_def sample_vfs_def vfs_new_def Let_def)
  then have "vfs_init sample_backend ?c sample_vfs = (Ok ?c, ?v)" by (metis prod.collapse)
  from init_negotiates [OF this, of 0] 1 show ?thesis by (simp add: Let_def)
qed

text \<open>
  (C25) Identity mapping is lossless in range: for an id mapping whose two ranges do not wrap
  around, the ids of a request that lie in the external range are mapped into the internal
  range, and attributes carrying the mapped ids are mapped back to the original ones.
\<close>

theorem id_mapping_roundtrip:
  assumes "id_mapping v = Some (internal, external, rng)"
    and "unat internal + unat rng < 2 ^ 32" and "unat external + unat rng < 2 ^ 32"
    and "external \<le> ctx_uid ctx" and "ctx_uid ctx < external + rng"
    and "external \<le> ctx_gid ctx" and "ctx_gid ctx < external + rng"
  shows "\<exists>ctx'. vfs_id_remap ctx v = Ok ctx' \<and> ctx_pid ctx' = ctx_pid ctx \<and>
    internal \<le> ctx_uid ctx' \<and> ctx_uid ctx' < internal + rng \<and>
    internal \<le> ctx_gid ctx' \<and> ctx_gid ctx' < internal + rng \<and>
    (let st = remap_attr_id (id_mapping v) True (a\<lparr>st_uid := ctx_uid ctx', st_gid := ctx_gid ctx'\<rparr>)
     in st_uid st = ctx_uid ctx \<and> st_gid st = ctx_gid ctx)"
  using assms map_id_roundtrip [OF assms(3,2,4,5)] map_id_roundtrip [OF assms(3,2,6,7)]
  by (simp add: vfs_id_remap_def remap_attr_id_def Let_def)

theorem id_mapping_roundtrip_witness:
  "\<exists>ctx'. vfs_id_remap (context_default\<lparr>ctx_uid := 1000, ctx_gid := 1500\<rparr>)
       (sample_vfs\<lparr>id_mapping := Some (0, 1000, 1000)\<rparr>) = Ok ctx' \<and>
     ctx_uid ctx' < 1000 \<and> ctx_gid ctx' < 1000 \<and>
     (let st = remap_attr_id (Some (0, 1000, 1000)) True
          (stat64_zeroed\<lparr>st_uid := ctx_uid ctx', st_gid := ctx_gid ctx'\<rparr>)
      in st_uid st = 1000 \<and> st_gid st = 1500)"
  using id_mapping_roundtrip [of "sample_vfs\<lparr>id_mapping := Some (0, 1000, 1000)\<rparr>" 0 1000 1000
      "context_default\<lparr>ctx_uid := 1000, ctx_gid := 1500\<rparr>" stat64_zeroed]
  by (simp add: Let_def) blast

section \<open>Deviations\<close>

text \<open>
  The root entry of a mount is mapped to external ids when it is stored by
  \<^verbatim>\<open>insert_mount_locked\<close> and mapped once more each time a lookup crosses the mount point. With
  the mapping of the internal range 0..9 to the external range 5..14, the owner 0 of a
  backend root is reported as 10 by a lookup and as 5 by a listing of its parent.
\<close>

lemma mount_root_mapped_twice:
  "let idm = Some (0, 5, 10);
       stored = (case convert_entry idm 1 1 (entry_default\<lparr>e_inode := 1\<rparr>) of Ok e \<Rightarrow> e | _ \<Rightarrow> entry_default);
       looked_up = (case convert_entry idm 1 1 stored of Ok e \<Rightarrow> e | _ \<Rightarrow> entry_default)
   in st_uid (e_attr stored) = 5 \<and> st_uid (e_attr looked_up) = 10"
  by (simp add: convert_entry_def convert_inode_def map_id_def entry_default_def stat64_zeroed_def
      VFS_MAX_INO_def Let_def)

end
