(* ===== verification/Xattr_Map.thy ===== *)
theory Xattr_Map
  imports Fuse_Interfaces
begin

text \<open>
  The extended attribute maps of \<^verbatim>\<open>passthrough/xattrmap.rs\<close>: the parser of the rule language
  and the two translations, of a name in a client request and of the list of names in a
  server reply.

  The input of the parser is the list of Unicode scalar values of the Rust string; a
  \<^verbatim>\<open>CString\<close> is the list of its bytes without the final NUL. \<^verbatim>\<open>CString::new\<close> fails on a NUL
  byte, and the sources unwrap it, which is the value \<open>XPanic\<close>. The texts carried by the
  errors are the offending bytes.
\<close>

datatype xattr_error_kind =
    InvalidScope bytes | InvalidType bytes | InvalidDelimiter | IncompleteRule
  | MapRuleViolation | NoRulesProvided | UnterminatedMapping

record xattr_error =
  cause :: xattr_error_kind
  err_rule :: "nat option"

definition bstr :: "string \<Rightarrow> bytes" where
  "bstr s = map of_char s"

section \<open>Rules\<close>

type_synonym scope = u8

definition CLIENT :: scope where "CLIENT = 1"
definition SERVER :: scope where "SERVER = 2"

definition scope_from_bytes :: "bytes \<Rightarrow> (xattr_error_kind, scope) xresult" where
  "scope_from_bytes bs =
     (if bs = bstr ''all'' then XOk (CLIENT OR SERVER)
      else if bs = bstr ''client'' then XOk CLIENT
      else if bs = bstr ''server'' then XOk SERVER
      else XErr (InvalidScope bs))"

datatype rule_type = Prefix | Okay | Bad | Unsupported | Map

definition type_from_bytes :: "bytes \<Rightarrow> (xattr_error_kind, rule_type) xresult" where
  "type_from_bytes bs =
     (if bs = bstr ''prefix'' then XOk Prefix
      else if bs = bstr ''ok'' then XOk Okay
      else if bs = bstr ''bad'' then XOk Bad
      else if bs = bstr ''unsupported'' then XOk Unsupported
      else if bs = bstr ''map'' then XOk Map
      else XErr (InvalidType bs))"

record xattr_rule =
  scope :: scope
  rtype :: rule_type
  key :: bytes
  prepend :: bytes

definition starts_with_bytes :: "bytes \<Rightarrow> bytes \<Rightarrow> bool" where
  "starts_with_bytes xs p \<longleftrightarrow> take (length p) xs = p"

definition rule_matches :: "xattr_rule \<Rightarrow> scope \<Rightarrow> bytes \<Rightarrow> (xattr_error, bool) xresult" where
  "rule_matches r sc xattr_name =
     (if \<not> flags_contains (scope r) sc then XOk False
      else if sc = CLIENT then XOk (starts_with_bytes xattr_name (key r))
      else if sc = SERVER then XOk (starts_with_bytes xattr_name (prepend r))
      else XPanic)"

definition cstring_new :: "bytes \<Rightarrow> ('e, bytes) xresult" where
  "cstring_new bs = (if 0 \<in> set bs then XPanic else XOk bs)"

text \<open>The closure \<^verbatim>\<open>next_token\<close>: the bytes up to the delimiter, which is consumed.\<close>

fun next_token :: "nat \<Rightarrow> nat list \<Rightarrow> (xattr_error_kind, bytes \<times> nat list) xresult" where
  "next_token delim [] = XErr IncompleteRule"
| "next_token delim (ch # tokens) =
     (if ch \<noteq> delim
      then xbind (next_token delim tokens) (\<lambda>(bs, rest). XOk (of_nat ch # bs, rest))
      else XOk ([], tokens))"

fun from_tokens :: "nat list \<Rightarrow> (xattr_error_kind, xattr_rule \<times> nat list) xresult" where
  "from_tokens [] = XErr InvalidDelimiter"
| "from_tokens (delim # t0) =
     xbind (next_token delim t0) (\<lambda>(b1, t1).
     xbind (type_from_bytes b1) (\<lambda>ty.
     if ty = Map then
       xbind (next_token delim t1) (\<lambda>(b2, t2). xbind (cstring_new b2) (\<lambda>k.
       xbind (next_token delim t2) (\<lambda>(b3, t3). xbind (cstring_new b3) (\<lambda>p.
         XOk (\<lparr>scope = CLIENT OR SERVER, rtype = ty, key = k, prepend = p\<rparr>, t3)))))
     else
       xbind (next_token delim t1) (\<lambda>(bs, ts). xbind (scope_from_bytes bs) (\<lambda>sc.
       xbind (next_token delim ts) (\<lambda>(b2, t2). xbind (cstring_new b2) (\<lambda>k.
       xbind (next_token delim t2) (\<lambda>(b3, t3). xbind (cstring_new b3) (\<lambda>p.
         XOk (\<lparr>scope = sc, rtype = ty, key = k, prepend = p\<rparr>, t3)))))))))"

definition expand_map_type :: "xattr_rule \<Rightarrow> (xattr_error, xattr_rule list) xresult" where
  "expand_map_type r =
     (if rtype r \<noteq> Map then XPanic
      else
        (let all = CLIENT OR SERVER;
             first = \<lparr>scope = all, rtype = Prefix, key = key r, prepend = prepend r\<rparr>;
             middle = (if key r \<noteq> []
                       then [\<lparr>scope = all, rtype = Bad, key = prepend r, prepend = key r\<rparr>] else []);
             last_type = (if key r \<noteq> [] then Okay else Bad)
         in XOk (first # middle @ [\<lparr>scope = all, rtype = last_type, key = [], prepend = []\<rparr>])))"

section \<open>Parsing\<close>

text \<open>\<^verbatim>\<open>str::trim\<close> removes Unicode white space; between rules only ASCII white space is skipped.\<close>

definition is_whitespace :: "nat \<Rightarrow> bool" where
  "is_whitespace c \<longleftrightarrow>
     (9 \<le> c \<and> c \<le> 13) \<or> c = 0x20 \<or> c = 0x85 \<or> c = 0xA0 \<or> c = 0x1680 \<or>
     (0x2000 \<le> c \<and> c \<le> 0x200A) \<or> c = 0x2028 \<or> c = 0x2029 \<or> c = 0x202F \<or> c = 0x205F \<or> c = 0x3000"

definition is_ascii_whitespace :: "nat \<Rightarrow> bool" where
  "is_ascii_whitespace c \<longleftrightarrow> c = 0x20 \<or> c = 9 \<or> c = 10 \<or> c = 12 \<or> c = 13"

definition trim :: "nat list \<Rightarrow> nat list" where
  "trim cs = rev (dropWhile is_whitespace (rev (dropWhile is_whitespace cs)))"

lemma next_token_shorter: "next_token d ts = XOk (bs, rest) \<Longrightarrow> length rest < length ts"
  by (induction ts arbitrary: bs) (auto split: if_splits)

lemma from_tokens_shorter: "from_tokens ts = XOk (r, rest) \<Longrightarrow> length rest < length ts"
  by (cases ts) (auto split: if_splits dest!: next_token_shorter)

text \<open>The loop of \<^verbatim>\<open>try_from\<close>.\<close>

function parse_rules :: "nat list \<Rightarrow> xattr_rule list \<Rightarrow> (xattr_error, xattr_rule list) xresult" where
  "parse_rules ts rules =
     (case ts of
        [] \<Rightarrow> XOk rules
      | ch # ts' \<Rightarrow>
          if is_ascii_whitespace ch then parse_rules ts' rules
          else
            (case from_tokens ts of
               XErr e \<Rightarrow> XErr \<lparr>cause = e, err_rule = Some (length rules + 1)\<rparr>
             | XPanic \<Rightarrow> XPanic
             | XOk (r, rest) \<Rightarrow>
                 if rtype r = Map then
                   (if rest \<noteq> [] then XErr \<lparr>cause = MapRuleViolation, err_rule = Some (length rules + 1)\<rparr>
                    else xbind (expand_map_type r) (\<lambda>rs. parse_rules rest (rules @ rs)))
                 else parse_rules rest (rules @ [r])))"
  by pat_completeness auto
termination
  by (relation "measure (\<lambda>(ts, rules). length ts)") (auto dest: from_tokens_shorter simp del: from_tokens.simps)

declare parse_rules.simps [simp del] from_tokens.simps(2) [simp del]

definition xattr_map_try_from :: "nat list \<Rightarrow> (xattr_error, xattr_rule list) xresult" where
  "xattr_map_try_from input =
     xbind (parse_rules (trim input) []) (\<lambda>rules.
       if rules = [] then XErr \<lparr>cause = NoRulesProvided, err_rule = None\<rparr> else XOk rules)"

section \<open>Translation\<close>

datatype applied_rule = Pass bytes | Deny | UnsupportedName

fun find_rule :: "xattr_rule list \<Rightarrow> scope \<Rightarrow> bytes \<Rightarrow> (xattr_error, xattr_rule) xresult" where
  "find_rule [] sc name = XErr \<lparr>cause = UnterminatedMapping, err_rule = None\<rparr>"
| "find_rule (r # rules) sc name =
     xbind (rule_matches r sc name) (\<lambda>m. if m then XOk r else find_rule rules sc name)"

definition map_client_xattr :: "xattr_rule list \<Rightarrow> bytes \<Rightarrow> (xattr_error, applied_rule) xresult" where
  "map_client_xattr rules xattr_name =
     xbind (find_rule rules CLIENT xattr_name) (\<lambda>r.
       case rtype r of
         Okay \<Rightarrow> XOk (Pass xattr_name)
       | Bad \<Rightarrow> XOk Deny
       | Unsupported \<Rightarrow> XOk UnsupportedName
       | Prefix \<Rightarrow> xbind (cstring_new (prepend r @ xattr_name)) (\<lambda>c. XOk (Pass c))
       | Map \<Rightarrow> XPanic)"

fun filter_names :: "xattr_rule list \<Rightarrow> bytes list \<Rightarrow> (xattr_error, bytes) xresult" where
  "filter_names rules [] = XOk []"
| "filter_names rules (name # names) =
     xbind (find_rule rules SERVER name) (\<lambda>r.
       case rtype r of
         Bad \<Rightarrow> filter_names rules names
       | Unsupported \<Rightarrow> filter_names rules names
       | Okay \<Rightarrow> xbind (filter_names rules names) (\<lambda>bs. XOk (name @ 0 # bs))
       | Prefix \<Rightarrow>
           if length (prepend r) \<le> length name
           then xbind (filter_names rules names) (\<lambda>bs. XOk (drop (length (prepend r)) name @ 0 # bs))
           else XPanic
       | Map \<Rightarrow> XPanic)"

definition map_server_xattrlist :: "xattr_rule list \<Rightarrow> bytes \<Rightarrow> (xattr_error, bytes) xresult" where
  "map_server_xattrlist rules xattr_names =
     xbind (filter_names rules (filter (\<lambda>bs. bs \<noteq> []) (split_on 0 xattr_names))) (\<lambda>filtered.
       XOk (if filtered = [] then [0] else filtered))"

section \<open>Parsed maps\<close>

definition rule_ok :: "xattr_rule \<Rightarrow> bool" where
  "rule_ok r \<longleftrightarrow> rtype r \<noteq> Map \<and> 0 \<notin> set (key r) \<and> 0 \<notin> set (prepend r)"

lemma cstring_new_XOk [simp]: "cstring_new bs = XOk c \<longleftrightarrow> c = bs \<and> 0 \<notin> set bs"
  by (auto simp: cstring_new_def)

lemma from_tokens_ok:
  "from_tokens ts = XOk (r, rest) \<Longrightarrow> 0 \<notin> set (key r) \<and> 0 \<notin> set (prepend r)"
  by (cases ts) (auto simp: from_tokens.simps(2) split: if_splits)

lemma expand_map_type_ok:
  "expand_map_type r = XOk rs \<Longrightarrow> 0 \<notin> set (key r) \<Longrightarrow> 0 \<notin> set (prepend r) \<Longrightarrow> list_all rule_ok rs"
  by (auto simp: expand_map_type_def rule_ok_def Let_def split: if_splits)

lemma parse_rules_Nil [simp]: "parse_rules [] rules = XOk rules"
  by (subst parse_rules.simps) simp

lemma parse_rules_space [simp]: "is_ascii_whitespace ch \<Longrightarrow> parse_rules (ch # ts) rules = parse_rules ts rules"
  by (subst parse_rules.simps) simp

lemma parse_rules_rule [simp]:
  "\<not> is_ascii_whitespace ch \<Longrightarrow> from_tokens (ch # ts) = XOk (r, rest) \<Longrightarrow> rtype r \<noteq> Map \<Longrightarrow>
     parse_rules (ch # ts) rules = parse_rules rest (rules @ [r])"
  by (subst parse_rules.simps)  simp

lemma parse_rules_map [simp]:
  "\<not> is_ascii_whitespace ch \<Longrightarrow> from_tokens (ch # ts) = XOk (r, rest) \<Longrightarrow> rtype r = Map \<Longrightarrow>
     parse_rules (ch # ts) rules =
       (if rest \<noteq> [] then XErr \<lparr>cause = MapRuleViolation, err_rule = Some (length rules + 1)\<rparr>
        else xbind (expand_map_type r) (\<lambda>rs. XOk (rules @ rs)))"
  by (subst parse_rules.simps)  simp

lemma parse_rules_XOkE:
  assumes "parse_rules (ch # ts) rules = XOk rs" and "\<not> is_ascii_whitespace ch"
  obtains r rest where "from_tokens (ch # ts) = XOk (r, rest)"
proof (cases "from_tokens (ch # ts)")
  case (XOk x)
  then show ?thesis using that by (cases x) auto
qed (use assms in \<open>simp_all add: parse_rules.simps [of "ch # ts"]\<close>)

text \<open>What holds of the accumulated rules and is kept by each step holds of the result.\<close>

lemma parse_rules_inv:
  assumes "parse_rules ts rules = XOk rs" and "P rules"
    and rule: "\<And>ts rules r rest. P rules \<Longrightarrow> from_tokens ts = XOk (r, rest) \<Longrightarrow> rtype r \<noteq> Map \<Longrightarrow> P (rules @ [r])"
    and map: "\<And>ts rules r rest rs'. P rules \<Longrightarrow> from_tokens ts = XOk (r, rest) \<Longrightarrow>
      expand_map_type r = XOk rs' \<Longrightarrow> P (rules @ rs')"
  shows "P rs"
  using assms(1,2)
proof (induction ts arbitrary: rules rule: length_induct)
  case (1 ts)
  show ?case
  proof (cases ts)
    case Nil
    with "1.prems" show ?thesis by simp
  next
    case (Cons ch ts')
    show ?thesis
    proof (cases "is_ascii_whitespace ch")
      case True
      with Cons "1.prems" have "parse_rules ts' rules = XOk rs" by simp
      moreover have "length ts' < length ts" using Cons by simp
      ultimately show ?thesis using "1.prems"(2) "1.IH" by blast
    next
      case False
      with Cons "1.prems"(1) obtain r rest where ft: "from_tokens (ch # ts') = XOk (r, rest)"
        using parse_rules_XOkE by blast
      show ?thesis
      proof (cases "rtype r = Map")
        case True
        have "\<exists>rs'. expand_map_type r = XOk rs' \<and> rules @ rs' = rs"
          using Cons "1.prems"(1) parse_rules_map [OF False ft True, of rules] by (simp split: if_splits)
        then show ?thesis using map [OF "1.prems"(2) ft] by blast
      next
        case nm: False
        have "parse_rules rest (rules @ [r]) = XOk rs"
          using Cons "1.prems"(1) parse_rules_rule [OF False ft nm] by simp
        then show ?thesis
          using "1.IH" from_tokens_shorter [OF ft] Cons rule [OF "1.prems"(2) ft nm] by blast
      qed
    qed
  qed
qed

lemma parse_rules_ok:
  assumes "parse_rules ts rules = XOk rs" and "list_all rule_ok rules"
  shows "list_all rule_ok rs"
proof (rule parse_rules_inv [OF assms(1), where P = "list_all rule_ok"], rule assms(2))
  fix ts rules r rest
  assume "list_all rule_ok rules" "from_tokens ts = XOk (r, rest)" "rtype r \<noteq> Map"
  then show "list_all rule_ok (rules @ [r])" using from_tokens_ok [of ts r rest] by (simp add: rule_ok_def [of r])
next
  fix ts rules r rest rs'
  assume "list_all rule_ok rules" "from_tokens ts = XOk (r, rest)" "expand_map_type r = XOk rs'"
  then show "list_all rule_ok (rules @ rs')"
    using from_tokens_ok [of ts r rest] expand_map_type_ok [of r rs'] by simp
qed

lemma try_from_ok: "xattr_map_try_from input = XOk rules \<Longrightarrow> list_all rule_ok rules"
  by (auto simp: xattr_map_try_from_def dest: parse_rules_ok split: if_splits)

section \<open>Matching\<close>

lemma rule_matches_client [simp]:
  "rule_matches r CLIENT name = XOk (flags_contains (scope r) CLIENT \<and> starts_with_bytes name (key r))"
  by (simp add: rule_matches_def)

lemma rule_matches_server [simp]:
  "rule_matches r SERVER name = XOk (flags_contains (scope r) SERVER \<and> starts_with_bytes name (prepend r))"
  by (simp add: rule_matches_def CLIENT_def SERVER_def)

lemma SERVER_neq_CLIENT [simp]: "SERVER \<noteq> CLIENT" "CLIENT \<noteq> SERVER"
  by (simp_all add: CLIENT_def SERVER_def)

definition rule_applies :: "xattr_rule \<Rightarrow> scope \<Rightarrow> bytes \<Rightarrow> bool" where
  "rule_applies r sc name \<longleftrightarrow> flags_contains (scope r) sc \<and>
     starts_with_bytes name (if sc = CLIENT then key r else prepend r)"

lemma find_rule_spec:
  assumes "sc = CLIENT \<or> sc = SERVER"
  shows "find_rule rules sc name =
    (case List.find (\<lambda>r. rule_applies r sc name) rules of
       Some r \<Rightarrow> XOk r | None \<Rightarrow> XErr \<lparr>cause = UnterminatedMapping, err_rule = None\<rparr>)"
proof (induction rules)
  case (Cons r rules)
  have "rule_matches r sc name = XOk (rule_applies r sc name)"
    using assms by (elim disjE) (simp_all add: rule_applies_def)
  with Cons show ?case by simp
qed simp

lemma find_rule_not_panic: "sc = CLIENT \<or> sc = SERVER \<Longrightarrow> find_rule rules sc name \<noteq> XPanic"
  by (simp add: find_rule_spec split: option.split)

lemma find_rule_in: "sc = CLIENT \<or> sc = SERVER \<Longrightarrow> find_rule rules sc name = XOk r \<Longrightarrow>
    r \<in> set rules \<and> rule_applies r sc name"
  by (auto simp: find_rule_spec split: option.splits dest: find_Some_in)

lemma starts_with_length: "starts_with_bytes xs p \<Longrightarrow> length p \<le> length xs"
  unfolding starts_with_bytes_def by (metis length_take min.cobounded1)

lemma find_rule_server_ok:
  assumes "list_all rule_ok rules" and "find_rule rules SERVER name = XOk r"
  shows "rule_ok r \<and> length (prepend r) \<le> length name \<and> starts_with_bytes name (prepend r)"
proof -
  have "r \<in> set rules \<and> rule_applies r SERVER name"
    using find_rule_in [OF _ assms(2)] by simp
  with assms(1) show ?thesis by (simp add: list_all_iff rule_applies_def starts_with_length)
qed

lemma filter_names_not_panic:
  assumes "list_all rule_ok rules"
  shows "filter_names rules names \<noteq> XPanic"
proof (induction names)
  case (Cons name names)
  show ?case
  proof (cases "find_rule rules SERVER name")
    case (XOk r)
    note ok = find_rule_server_ok [OF assms XOk]
    with Cons show ?thesis unfolding filter_names.simps XOk
      by (cases "filter_names rules names"; cases "rtype r") (simp_all add: rule_ok_def)
  qed (use find_rule_not_panic [of SERVER rules name] in simp_all)
qed simp

section \<open>Map rules\<close>

lemma next_token_append: "d \<notin> set ts \<Longrightarrow> next_token d (ts @ d # rest) = XOk (map of_nat ts, rest)"
  by (induction ts) auto

definition codes :: "string \<Rightarrow> nat list" where
  "codes s = map of_char s"

definition map_rule_text :: "nat list \<Rightarrow> nat list \<Rightarrow> nat list" where
  "map_rule_text k p = codes '':map:'' @ k @ 58 # p @ [58]"

definition token_chars :: "nat list \<Rightarrow> bool" where
  "token_chars ts \<longleftrightarrow> 58 \<notin> set ts \<and> (\<forall>c \<in> set ts. 0 < c \<and> c < 256)"

lemma token_chars_no_nul:
  assumes "token_chars ts"
  shows "0 \<notin> set (map of_nat ts :: bytes)"
proof
  assume "0 \<in> set (map of_nat ts :: bytes)"
  then obtain c where c: "c \<in> set ts" "(of_nat c :: u8) = 0" by auto
  then have "c mod 256 = 0" using unat_of_nat [of c, where 'a = 8] by simp
  with c(1) assms show False by (auto simp: token_chars_def)
qed

lemma trim_map_rule_text: "trim (map_rule_text k p) = map_rule_text k p"
  by (simp add: trim_def map_rule_text_def codes_def is_whitespace_def)

definition map_rules :: "bytes \<Rightarrow> bytes \<Rightarrow> xattr_rule list" where
  "map_rules k p =
     (let all = CLIENT OR SERVER in
      \<lparr>scope = all, rtype = Prefix, key = k, prepend = p\<rparr> #
      (if k \<noteq> [] then [\<lparr>scope = all, rtype = Bad, key = p, prepend = k\<rparr>] else []) @
      [\<lparr>scope = all, rtype = (if k \<noteq> [] then Okay else Bad), key = [], prepend = []\<rparr>])"

lemma from_tokens_map_rule:
  assumes "token_chars k" and "token_chars p"
  shows "from_tokens (map_rule_text k p) =
    XOk (\<lparr>scope = CLIENT OR SERVER, rtype = Map, key = map of_nat k, prepend = map of_nat p\<rparr>, [])"
proof -
  have "next_token 58 (codes ''map'' @ 58 # k @ 58 # p @ [58]) = XOk (bstr ''map'', k @ 58 # p @ [58])"
    by (subst next_token_append) (simp_all add: codes_def bstr_def)
  moreover have "map_rule_text k p = 58 # codes ''map'' @ 58 # k @ 58 # p @ [58]"
    by (simp add: map_rule_text_def codes_def)
  moreover have "type_from_bytes (bstr ''map'') = XOk Map"
    by (simp add: type_from_bytes_def bstr_def)
  ultimately show ?thesis
    using assms token_chars_no_nul [OF assms(1)] token_chars_no_nul [OF assms(2)]
    by (simp add: from_tokens.simps(2) next_token_append token_chars_def cstring_new_def)
qed

lemma try_from_map_rule:
  assumes "token_chars k" and "token_chars p"
  shows "xattr_map_try_from (map_rule_text k p) = XOk (map_rules (map of_nat k) (map of_nat p))"
proof -
  obtain ts where ts: "map_rule_text k p = 58 # ts" by (simp add: map_rule_text_def codes_def)
  note ft = from_tokens_map_rule [OF assms, unfolded ts]
  have "parse_rules (58 # ts) [] = XOk (map_rules (map of_nat k) (map of_nat p))"
    by (subst parse_rules_map [OF _ ft])
      (simp_all add: is_ascii_whitespace_def expand_map_type_def map_rules_def Let_def)
  moreover have "map_rules (map of_nat k) (map of_nat p) \<noteq> []" by (simp add: map_rules_def Let_def)
  moreover have "trim (58 # ts) = 58 # ts" using trim_map_rule_text [of k p] ts by simp
  ultimately show ?thesis unfolding xattr_map_try_from_def ts by simp
qed

lemma flags_contains_all [simp]:
  "flags_contains (CLIENT OR SERVER) CLIENT" "flags_contains (CLIENT OR SERVER) SERVER"
  by (simp_all add: flags_contains_def CLIENT_def SERVER_def)

lemma starts_with_simps [simp]: "starts_with_bytes xs []" "starts_with_bytes (p @ xs) p"
  by (simp_all add: starts_with_bytes_def)



definition name_list :: "bytes list \<Rightarrow> bytes" where
  "name_list ns = concat (map (\<lambda>n. n @ [0]) ns)"

lemma name_list_simps [simp]: "name_list [] = []" "name_list (n # ns) = n @ 0 # name_list ns"
  by (simp_all add: name_list_def)





lemma trim_head: "trim cs = ch # ts \<Longrightarrow> \<not> is_whitespace ch"
proof -
  assume a: "trim cs = ch # ts"
  let ?d = "dropWhile is_whitespace cs"
  have "\<exists>zs. ?d = trim cs @ zs"
    unfolding trim_def by (metis rev_append rev_rev_ident takeWhile_dropWhile_id)
  with a obtain zs where "?d = ch # ts @ zs" by auto
  then show ?thesis using hd_dropWhile [of is_whitespace cs] by simp
qed

lemma parse_rules_extends:
  assumes "parse_rules ts rules = XOk rs"
  shows "length rules \<le> length rs"
  by (rule parse_rules_inv [OF assms, where P = "\<lambda>rs. length rules \<le> length rs"]) simp_all

lemma parse_rules_err_rule: "parse_rules ts rules = XErr e \<Longrightarrow> err_rule e \<noteq> None"
proof (induction ts rules rule: parse_rules.induct)
  case (1 ts rules)
  show ?case
  proof (cases ts)
    case Nil
    with "1.prems" show ?thesis by simp
  next
    case (Cons ch ts')
    note unf = parse_rules.simps [of "ch # ts'" rules, simplified]
    show ?thesis
    proof (cases "is_ascii_whitespace ch")
      case True
      with Cons 1 show ?thesis by simp
    next
      case ns: False
      show ?thesis
      proof (cases "from_tokens (ch # ts')")
        case (XOk x)
        then obtain r rest where x: "from_tokens (ch # ts') = XOk (r, rest)" by (cases x) simp
        show ?thesis
        proof (cases "rtype r = Map")
          case True
          with x ns Cons "1.prems" show ?thesis
            by (auto simp: expand_map_type_def Let_def split: if_splits)
        next
          case False
          with x ns Cons "1.prems" show ?thesis
            using "1.IH"(3) [OF Cons ns, of "(r, rest)" r rest] by simp
        qed
      qed (use ns Cons "1.prems" unf in auto)
    qed
  qed
qed

lemma parse_rules_progress:
  assumes "\<not> is_ascii_whitespace ch"
  shows "parse_rules (ch # ts) [] \<noteq> XOk []"
proof
  assume ok: "parse_rules (ch # ts) [] = XOk []"
  obtain r rest where ft: "from_tokens (ch # ts) = XOk (r, rest)"
    using parse_rules_XOkE [OF ok assms] .
  show False
  proof (cases "rtype r = Map")
    case True
    with ok parse_rules_map [OF assms ft True, of "[]"] show False
      by (simp add: expand_map_type_def Let_def split: if_splits)
  next
    case False
    with ok parse_rules_rule [OF assms ft False, of "[]"] show False
      using parse_rules_extends [of rest "[r]" "[]"] by simp
  qed
qed

lemma next_token_spec:
  "next_token d ts = XOk (bs, rest) \<Longrightarrow> \<exists>pre. ts = pre @ d # rest \<and> bs = map of_nat pre"
proof (induction ts arbitrary: bs)
  case (Cons c ts)
  show ?case
  proof (cases "c = d")
    case False
    with Cons.prems obtain bs' where bs: "next_token d ts = XOk (bs', rest)" "bs = of_nat c # bs'"
      by auto
    from Cons.IH [OF bs(1)] bs(2) show ?thesis by (metis append_Cons list.simps(9))
  qed (use Cons.prems in auto)
qed simp

lemma next_token_set:
  "next_token d ts = XOk (bs, rest) \<Longrightarrow> set rest \<subseteq> set ts \<and> set bs \<subseteq> of_nat ` set ts"
  by (auto dest!: next_token_spec)

lemma next_token_not_panic [simp]: "next_token d ts \<noteq> XPanic"
proof (induction ts)
  case (Cons c ts)
  then show ?case by (cases "next_token d ts") auto
qed simp

lemma from_tokens_set: "from_tokens ts = XOk (r, rest) \<Longrightarrow> set rest \<subseteq> set ts"
  by (cases ts) (auto simp: from_tokens.simps(2) split: if_splits dest!: next_token_set, blast)

lemma from_tokens_panic:
  assumes "from_tokens ts = XPanic"
  shows "(0 :: u8) \<in> of_nat ` set ts"
proof (cases ts)
  case (Cons d t0)
  have [simp]: "type_from_bytes b \<noteq> XPanic" "scope_from_bytes b \<noteq> XPanic" for b
    by (simp_all add: type_from_bytes_def scope_from_bytes_def)
  have [simp]: "cstring_new b = XPanic \<longleftrightarrow> 0 \<in> set b" for b
    by (simp add: cstring_new_def)
  show ?thesis using assms unfolding Cons from_tokens.simps(2)
    by (auto simp: xbind_XPanic_iff split: if_splits dest!: next_token_set) (blast+)?
qed (use assms in simp)

lemma parse_rules_panic: "parse_rules ts rules = XPanic \<Longrightarrow> (0 :: u8) \<in> of_nat ` set ts"
proof (induction ts arbitrary: rules rule: length_induct)
  case (1 ts)
  show ?case
  proof (cases ts)
    case Nil
    with "1.prems" show ?thesis by simp
  next
    case (Cons ch ts')
    show ?thesis
    proof (cases "is_ascii_whitespace ch")
      case True
      with Cons "1.prems" "1.IH" show ?thesis by auto
    next
      case ns: False
      show ?thesis
      proof (cases "from_tokens (ch # ts')")
        case (XOk x)
        then obtain r rest where x: "from_tokens (ch # ts') = XOk (r, rest)" by (cases x) simp
        show ?thesis
        proof (cases "rtype r = Map")
          case True
          with x ns Cons "1.prems" show ?thesis
            by (simp add: expand_map_type_def Let_def split: if_splits)
        next
          case False
          then have "parse_rules rest (rules @ [r]) = XPanic"
            using Cons "1.prems" parse_rules_rule [OF ns x False] by simp
          then have "(0 :: u8) \<in> of_nat ` set rest"
            using "1.IH" from_tokens_shorter [OF x] Cons by blast
          then show ?thesis using from_tokens_set [OF x] Cons by blast
        qed
      next
        case (XErr e)
        with "1.prems" ns Cons show ?thesis by (simp add: parse_rules.simps [of "ch # ts'"])
      qed (use from_tokens_panic Cons in blast)
    qed
  qed
qed

lemma of_nat_u8_0: "(0 :: u8) \<in> of_nat ` A \<Longrightarrow> \<exists>c \<in> A. 256 dvd c"
proof -
  assume "(0 :: u8) \<in> of_nat ` A"
  then obtain c where "c \<in> A" "unat (of_nat c :: u8) = 0" by auto
  moreover from this(2) have "256 dvd c" using unat_of_nat [of c, where 'a = 8] by (simp add: mod_eq_0_iff_dvd)
  ultimately show ?thesis by (intro bexI)
qed

lemma trim_set: "set (trim cs) \<subseteq> set cs"
  unfolding trim_def by (auto dest!: set_dropWhileD)

lemma trim_Nil_iff: "trim cs = [] \<longleftrightarrow> list_all is_whitespace cs"
proof (cases "dropWhile is_whitespace cs")
  case Nil
  then have "list_all is_whitespace cs" by (simp add: list_all_iff)
  with Nil show ?thesis unfolding trim_def Nil by simp
next
  case (Cons c ds)
  then have "\<not> is_whitespace c" using hd_dropWhile [of is_whitespace cs] by simp
  moreover have "c \<in> set cs" using Cons set_dropWhileD [of c is_whitespace cs] by simp
  ultimately show ?thesis by (auto simp: trim_def Cons dropWhile_append list_all_iff)
qed

lemma try_from_empty:
  "xattr_map_try_from input = XErr \<lparr>cause = NoRulesProvided, err_rule = None\<rparr> \<longleftrightarrow> trim input = []"
proof (cases "trim input")
  case (Cons ch ts)
  then have nw: "\<not> is_whitespace ch" by (rule trim_head)
  then have "\<not> is_ascii_whitespace ch" by (auto simp: is_whitespace_def is_ascii_whitespace_def)
  then have "parse_rules (ch # ts) [] \<noteq> XOk []"
    by (rule parse_rules_progress)
  then show ?thesis
    by (cases "parse_rules (ch # ts) []") (auto simp: xattr_map_try_from_def Cons dest: parse_rules_err_rule)
qed (simp add: xattr_map_try_from_def)

section \<open>Properties\<close>

text \<open>
  (C33) A map that \<^verbatim>\<open>XattrMap::try_from\<close> accepts is well formed: it has a rule, no rule of it is an
  unexpanded \<^verbatim>\<open>map\<close> rule and no key or prefix contains a NUL. Hence the panics of the two
  translations (the unexpanded rule, the \<^verbatim>\<open>unwrap\<close> of \<^verbatim>\<open>CString::new\<close>, the slice past the end of
  a name) are unreachable: neither panics on a map that came from the parser.
\<close>

theorem parsed_map_never_panics:
  assumes "xattr_map_try_from input = XOk rules"
  shows "rules \<noteq> [] \<and> list_all rule_ok rules \<and> map_server_xattrlist rules xattr_names \<noteq> XPanic \<and>
    (0 \<notin> set name \<longrightarrow> map_client_xattr rules name \<noteq> XPanic)"
proof -
  have ok: "list_all rule_ok rules" by (rule try_from_ok [OF assms])
  have "map_client_xattr rules name \<noteq> XPanic" if n: "0 \<notin> set name"
  proof (cases "find_rule rules CLIENT name")
    case (XOk r)
    then have "rule_ok r" using ok find_rule_in [of CLIENT rules name r] by (simp add: list_all_iff)
    with n XOk show ?thesis
      by (cases "rtype r") (simp_all add: map_client_xattr_def cstring_new_def rule_ok_def)
  qed (use find_rule_not_panic [of CLIENT rules name] in \<open>simp_all add: map_client_xattr_def\<close>)
  moreover have "map_server_xattrlist rules xattr_names \<noteq> XPanic"
    unfolding map_server_xattrlist_def
    using filter_names_not_panic [OF ok, of "filter (\<lambda>bs. bs \<noteq> []) (split_on 0 xattr_names)"]
    by (cases "filter_names rules (filter (\<lambda>bs. bs \<noteq> []) (split_on 0 xattr_names))") simp_all
  moreover have "rules \<noteq> []" using assms by (auto simp: xattr_map_try_from_def split: if_splits)
  ultimately show ?thesis using ok by blast
qed

theorem parsed_map_never_panics_witness:
  "\<exists>rules. xattr_map_try_from (map_rule_text [97] [98]) = XOk rules \<and>
     map_server_xattrlist rules [98, 97, 0, 97, 0] \<noteq> XPanic"
proof -
  have "xattr_map_try_from (map_rule_text [97] [98]) = XOk (map_rules (map of_nat [97]) (map of_nat [98]))"
    by (rule try_from_map_rule) (simp_all add: token_chars_def)
  with parsed_map_never_panics [OF this, of "[98, 97, 0, 97, 0]"] show ?thesis by blast
qed



text \<open>
  (C34) \<^verbatim>\<open>try_from\<close> reports that no rules were provided exactly on the blank inputs, those made of
  white space only; on every other input it yields a map with at least one rule or an error that
  carries the number of a rule; it panics only if the input has a character whose number is a multiple
  of 256, which the cast to \<^verbatim>\<open>u8\<close> turns into a NUL.
\<close>

theorem no_rules_iff_blank:
  "(xattr_map_try_from input = XErr \<lparr>cause = NoRulesProvided, err_rule = None\<rparr> \<longleftrightarrow>
      list_all is_whitespace input) \<and>
   (case xattr_map_try_from input of
      XOk rules \<Rightarrow> rules \<noteq> []
    | XErr e \<Rightarrow> list_all is_whitespace input \<or> (\<exists>n. err_rule e = Some n)
    | XPanic \<Rightarrow> \<exists>c \<in> set input. 256 dvd c)"
  (is "?blank \<and> ?cases")
proof
  show ?blank by (simp add: try_from_empty trim_Nil_iff)
  show ?cases
  proof (cases "parse_rules (trim input) []")
    case (XOk rules)
    then show ?thesis
      using try_from_empty [of input] trim_Nil_iff [of input]
      by (cases "rules = []") (auto simp: xattr_map_try_from_def)
  next
    case (XErr e)
    then show ?thesis using parse_rules_err_rule [OF XErr] by (auto simp: xattr_map_try_from_def)
  next
    case XPanic
    then show ?thesis
      using of_nat_u8_0 [OF parse_rules_panic [OF XPanic]] trim_set [of input]
      by (auto simp: xattr_map_try_from_def)
  qed
qed

end
