(* ===== verification/Byte_Codec.thy ===== *)
theory Byte_Codec
  imports Fuse_Prelude
begin

text \<open>
  The byte representation of plain data. \<^verbatim>\<open>vm_memory::ByteValued\<close> lets the sources view a
  \<^verbatim>\<open>repr(C)\<close> structure without padding as its bytes, in the order of the fields and, on the
  machines the crate supports, little endian. A codec lists the widths of the fields of a
  structure and converts between the structure and the values of its fields; the locale
  \<open>byte_valued\<close> is the contract that makes both directions of the byte view total and inverse
  to each other.
\<close>

section \<open>Little endian numbers\<close>

fun le_bytes :: "nat \<Rightarrow> nat \<Rightarrow> bytes" where
  "le_bytes 0 v = []"
| "le_bytes (Suc n) v = of_nat (v mod 256) # le_bytes n (v div 256)"

fun le_value :: "bytes \<Rightarrow> nat" where
  "le_value [] = 0"
| "le_value (b # bs) = unat b + 256 * le_value bs"

lemma length_le_bytes [simp]: "length (le_bytes n v) = n"
  by (induction n arbitrary: v) auto

lemma le_value_bound: "le_value bs < 256 ^ length bs"
proof (induction bs)
  case (Cons b bs)
  have "unat b + 256 * le_value bs < 256 + 256 * le_value bs"
    using unat_u8_less by simp
  also have "\<dots> = 256 * Suc (le_value bs)" by simp
  also have "\<dots> \<le> 256 * 256 ^ length bs" using Cons by (intro mult_le_mono) auto
  finally show ?case by simp
qed simp

lemma le_value_le_bytes: "v < 256 ^ n \<Longrightarrow> le_value (le_bytes n v) = v"
proof (induction n arbitrary: v)
  case (Suc n)
  then have "v div 256 < 256 ^ n" by (simp add: less_mult_imp_div_less mult.commute)
  moreover have "unat (of_nat (v mod 256) :: u8) = v mod 256" by (simp add: unat_of_nat)
  ultimately show ?case using Suc.IH [of "v div 256"] by simp
qed simp

lemma le_bytes_le_value: "le_bytes (length bs) (le_value bs) = bs"
proof (induction bs)
  case (Cons b bs)
  have "of_nat ((unat b + 256 * le_value bs) mod 256) = b" by simp
  moreover have "(unat b + 256 * le_value bs) div 256 = le_value bs" by simp
  ultimately show ?case using Cons by simp
qed simp

section \<open>Sequences of fields\<close>

fun enc_fields :: "nat list \<Rightarrow> nat list \<Rightarrow> bytes" where
  "enc_fields (n # ns) (v # vs) = le_bytes n v @ enc_fields ns vs"
| "enc_fields ns vs = []"

fun dec_fields :: "nat list \<Rightarrow> bytes \<Rightarrow> nat list" where
  "dec_fields [] bs = []"
| "dec_fields (n # ns) bs = le_value (take n bs) # dec_fields ns (drop n bs)"

definition fields_ok :: "nat list \<Rightarrow> nat list \<Rightarrow> bool" where
  "fields_ok ns vs \<longleftrightarrow> list_all2 (\<lambda>n v. v < 256 ^ n) ns vs"

lemma fields_ok_simps [simp]:
  "fields_ok [] vs \<longleftrightarrow> vs = []"
  "fields_ok (n # ns) (v # vs) \<longleftrightarrow> v < 256 ^ n \<and> fields_ok ns vs"
  "fields_ok ns [] \<longleftrightarrow> ns = []"
  by (auto simp: fields_ok_def)

lemma fields_ok_append [simp]:
  "length vs = length ns \<Longrightarrow> fields_ok (ns @ ms) (vs @ ws) \<longleftrightarrow> fields_ok ns vs \<and> fields_ok ms ws"
  by (auto simp: fields_ok_def list_all2_append)

lemma fields_ok_length: "fields_ok ns vs \<Longrightarrow> length vs = length ns"
  by (auto simp: fields_ok_def dest: list_all2_lengthD)

lemma length_enc_fields: "fields_ok ns vs \<Longrightarrow> length (enc_fields ns vs) = sum_list ns"
  by (induction ns vs rule: enc_fields.induct) auto

lemma dec_fields_ok: "length bs = sum_list ns \<Longrightarrow> fields_ok ns (dec_fields ns bs)"
proof (induction ns arbitrary: bs)
  case (Cons n ns)
  then show ?case using le_value_bound [of "take n bs"] by simp
qed simp

lemma dec_enc_fields: "fields_ok ns vs \<Longrightarrow> dec_fields ns (enc_fields ns vs @ rest) = vs"
proof (induction ns vs rule: enc_fields.induct)
  case (1 n ns v vs)
  then show ?case by (simp add: le_value_le_bytes)
qed auto

lemma enc_dec_fields: "length bs = sum_list ns \<Longrightarrow> enc_fields ns (dec_fields ns bs) = bs"
proof (induction ns arbitrary: bs)
  case (Cons n ns)
  have "le_bytes n (le_value (take n bs)) = take n bs"
    using le_bytes_le_value [of "take n bs"] Cons.prems by simp
  then show ?case using Cons by simp
qed simp

section \<open>Codecs\<close>

record 'a codec =
  co_layout :: "nat list"
  co_vals :: "'a \<Rightarrow> nat list"
  co_of :: "nat list \<Rightarrow> 'a"

text \<open>\<^verbatim>\<open>size_of\<close>, \<^verbatim>\<open>ByteValued::as_slice\<close> and the structure that \<^verbatim>\<open>read_obj\<close> builds from bytes.\<close>

definition size_of :: "'a codec \<Rightarrow> nat" where
  "size_of c = sum_list (co_layout c)"

definition as_slice :: "'a codec \<Rightarrow> 'a \<Rightarrow> bytes" where
  "as_slice c x = enc_fields (co_layout c) (co_vals c x)"

definition from_slice :: "'a codec \<Rightarrow> bytes \<Rightarrow> 'a" where
  "from_slice c bs = co_of c (dec_fields (co_layout c) bs)"

locale byte_valued =
  fixes c :: "'a codec"
  assumes vals_ok: "fields_ok (co_layout c) (co_vals c x)"
    and of_vals: "co_of c (co_vals c x) = x"
    and vals_of: "fields_ok (co_layout c) vs \<Longrightarrow> co_vals c (co_of c vs) = vs"
begin

lemma length_as_slice [simp]: "length (as_slice c x) = size_of c"
  by (simp add: as_slice_def size_of_def length_enc_fields vals_ok)

lemma from_as_slice: "from_slice c (as_slice c x) = x"
  using dec_enc_fields [OF vals_ok, of x "[]"] by (simp add: from_slice_def as_slice_def of_vals)

lemma as_from_slice: "length bs = size_of c \<Longrightarrow> as_slice c (from_slice c bs) = bs"
  by (simp add: as_slice_def from_slice_def vals_of dec_fields_ok enc_dec_fields size_of_def)

lemma as_slice_inj: "as_slice c x = as_slice c y \<longleftrightarrow> x = y"
  using from_as_slice by metis

text \<open>A stream of structures, read one after the other.\<close>

lemma from_slice_stream:
  "from_slice c (take (size_of c) (as_slice c x @ rest)) = x"
  "drop (size_of c) (as_slice c x @ rest) = rest"
  by (simp_all add: from_as_slice)

end

text \<open>Values of the machine integers as fields.\<close>

lemma unat_word_less [simp]:
  "unat (a :: u16) < 65536" "unat (b :: u32) < 4294967296" "unat (c :: u64) < 18446744073709551616"
  using unsigned_less [of a] unsigned_less [of b] unsigned_less [of c] by simp_all

lemma unat_of_nat_small:
  "n < 2 ^ LENGTH('a) \<Longrightarrow> unat (of_nat n :: 'a::len word) = n"
  by (simp add: unat_of_nat)

lemma unat_of_nat_field [simp]:
  "n < 256 \<Longrightarrow> unat (of_nat n :: u8) = n"
  "n < 65536 \<Longrightarrow> unat (of_nat n :: u16) = n"
  "n < 4294967296 \<Longrightarrow> unat (of_nat n :: u32) = n"
  "n < 18446744073709551616 \<Longrightarrow> unat (of_nat n :: u64) = n"
  by (simp_all add: unat_of_nat)

text \<open>Reserved arrays of \<open>u32\<close> are words of their whole width, which has the same bytes.\<close>

lemma unat_wide_less:
  "unat (x :: 'a::len word) < 256 ^ n" if "LENGTH('a) = 8 * n"
  using unsigned_less [of x, where 'a = nat] that by (simp add: power_mult)

lemma unat_of_nat_wide:
  "v < 256 ^ n \<Longrightarrow> unat (of_nat v :: 'a::len word) = v" if "LENGTH('a) = 8 * n"
  using that by (simp add: unat_of_nat_small power_mult)

end
