(* ===== verification/Fuse_Abi.thy ===== *)
theory Fuse_Abi
  imports Fuse_Types Byte_Codec
begin

text \<open>
  The wire format of the FUSE protocol: the message structures of \<^verbatim>\<open>abi/fuse_abi_linux.rs\<close> and
  \<^verbatim>\<open>abi/virtio_fs.rs\<close> with their byte representation, the operation codes, and the conversions
  between the structures of the protocol and those of the file system interface
  (\<^verbatim>\<open>api/filesystem/mod.rs\<close>). Every structure is an instance of the contract \<open>byte_valued\<close>.
\<close>

section \<open>Constants\<close>

definition KERNEL_VERSION :: u32 where "KERNEL_VERSION = 7"
definition KERNEL_MINOR_VERSION :: u32 where "KERNEL_MINOR_VERSION = 33"
definition KERNEL_MINOR_VERSION_INIT_OUT_SIZE :: u32 where "KERNEL_MINOR_VERSION_INIT_OUT_SIZE = 5"
definition KERNEL_MINOR_VERSION_INIT_22_OUT_SIZE :: u32 where "KERNEL_MINOR_VERSION_INIT_22_OUT_SIZE = 23"
definition KERNEL_MINOR_VERSION_LOOKUP_NEGATIVE_ENTRY_ZERO :: u32 where "KERNEL_MINOR_VERSION_LOOKUP_NEGATIVE_ENTRY_ZERO = 4"
definition FUSE_COMPAT_INIT_OUT_SIZE :: nat where "FUSE_COMPAT_INIT_OUT_SIZE = 8"
definition FUSE_COMPAT_22_INIT_OUT_SIZE :: nat where "FUSE_COMPAT_22_INIT_OUT_SIZE = 24"
definition FATTR_MODE :: u32 where "FATTR_MODE = 0x1"
definition FATTR_UID :: u32 where "FATTR_UID = 0x2"
definition FATTR_GID :: u32 where "FATTR_GID = 0x4"
definition FATTR_SIZE :: u32 where "FATTR_SIZE = 0x8"
definition FATTR_ATIME :: u32 where "FATTR_ATIME = 0x10"
definition FATTR_MTIME :: u32 where "FATTR_MTIME = 0x20"
definition FATTR_FH :: u32 where "FATTR_FH = 0x40"
definition FATTR_ATIME_NOW :: u32 where "FATTR_ATIME_NOW = 0x80"
definition FATTR_MTIME_NOW :: u32 where "FATTR_MTIME_NOW = 0x100"
definition FATTR_CTIME :: u32 where "FATTR_CTIME = 0x400"
definition FATTR_KILL_SUIDGID :: u32 where "FATTR_KILL_SUIDGID = 0x800"
definition GETATTR_FH :: u32 where "GETATTR_FH = 1"
definition RELEASE_FLUSH :: u32 where "RELEASE_FLUSH = 1"
definition RELEASE_FLOCK_UNLOCK :: u32 where "RELEASE_FLOCK_UNLOCK = 2"
definition WRITE_CACHE :: u32 where "WRITE_CACHE = 1"
definition WRITE_LOCKOWNER :: u32 where "WRITE_LOCKOWNER = 2"
definition READ_LOCKOWNER :: u32 where "READ_LOCKOWNER = 2"

lemmas abi_const_defs =
  KERNEL_VERSION_def KERNEL_MINOR_VERSION_def KERNEL_MINOR_VERSION_INIT_OUT_SIZE_def
  KERNEL_MINOR_VERSION_INIT_22_OUT_SIZE_def KERNEL_MINOR_VERSION_LOOKUP_NEGATIVE_ENTRY_ZERO_def FUSE_COMPAT_INIT_OUT_SIZE_def
  FUSE_COMPAT_22_INIT_OUT_SIZE_def FATTR_MODE_def FATTR_UID_def
  FATTR_GID_def FATTR_SIZE_def FATTR_ATIME_def
  FATTR_MTIME_def FATTR_FH_def FATTR_ATIME_NOW_def
  FATTR_MTIME_NOW_def FATTR_CTIME_def FATTR_KILL_SUIDGID_def
  GETATTR_FH_def RELEASE_FLUSH_def RELEASE_FLOCK_UNLOCK_def
  WRITE_CACHE_def WRITE_LOCKOWNER_def READ_LOCKOWNER_def

text \<open>The union of the flags of the \<^verbatim>\<open>bitflags!\<close> type \<^verbatim>\<open>SetattrValid\<close>.\<close>

definition setattr_valid_all :: setattr_valid where
  "setattr_valid_all =
     FATTR_MODE OR FATTR_UID OR FATTR_GID OR FATTR_SIZE OR FATTR_ATIME OR FATTR_MTIME OR
     FATTR_ATIME_NOW OR FATTR_MTIME_NOW OR FATTR_CTIME OR FATTR_KILL_SUIDGID"

section \<open>Operation codes\<close>

text \<open>The sources use the members of the enumeration \<^verbatim>\<open>Opcode\<close> as the numbers they stand for.\<close>

definition OpLookup :: u32 where "OpLookup = 1"
definition OpForget :: u32 where "OpForget = 2"
definition OpGetattr :: u32 where "OpGetattr = 3"
definition OpSetattr :: u32 where "OpSetattr = 4"
definition OpReadlink :: u32 where "OpReadlink = 5"
definition OpSymlink :: u32 where "OpSymlink = 6"
definition OpMknod :: u32 where "OpMknod = 8"
definition OpMkdir :: u32 where "OpMkdir = 9"
definition OpUnlink :: u32 where "OpUnlink = 10"
definition OpRmdir :: u32 where "OpRmdir = 11"
definition OpRename :: u32 where "OpRename = 12"
definition OpLink :: u32 where "OpLink = 13"
definition OpOpen :: u32 where "OpOpen = 14"
definition OpRead :: u32 where "OpRead = 15"
definition OpWrite :: u32 where "OpWrite = 16"
definition OpStatfs :: u32 where "OpStatfs = 17"
definition OpRelease :: u32 where "OpRelease = 18"
definition OpFsync :: u32 where "OpFsync = 20"
definition OpSetxattr :: u32 where "OpSetxattr = 21"
definition OpGetxattr :: u32 where "OpGetxattr = 22"
definition OpListxattr :: u32 where "OpListxattr = 23"
definition OpRemovexattr :: u32 where "OpRemovexattr = 24"
definition OpFlush :: u32 where "OpFlush = 25"
definition OpInit :: u32 where "OpInit = 26"
definition OpOpendir :: u32 where "OpOpendir = 27"
definition OpReaddir :: u32 where "OpReaddir = 28"
definition OpReleasedir :: u32 where "OpReleasedir = 29"
definition OpFsyncdir :: u32 where "OpFsyncdir = 30"
definition OpGetlk :: u32 where "OpGetlk = 31"
definition OpSetlk :: u32 where "OpSetlk = 32"
definition OpSetlkw :: u32 where "OpSetlkw = 33"
definition OpAccess :: u32 where "OpAccess = 34"
definition OpCreate :: u32 where "OpCreate = 35"
definition OpInterrupt :: u32 where "OpInterrupt = 36"
definition OpBmap :: u32 where "OpBmap = 37"
definition OpDestroy :: u32 where "OpDestroy = 38"
definition OpIoctl :: u32 where "OpIoctl = 39"
definition OpPoll :: u32 where "OpPoll = 40"
definition OpNotifyReply :: u32 where "OpNotifyReply = 41"
definition OpBatchForget :: u32 where "OpBatchForget = 42"
definition OpFallocate :: u32 where "OpFallocate = 43"
definition OpReaddirplus :: u32 where "OpReaddirplus = 44"
definition OpRename2 :: u32 where "OpRename2 = 45"
definition OpLseek :: u32 where "OpLseek = 46"
definition OpCopyFileRange :: u32 where "OpCopyFileRange = 47"
definition OpSetupMapping :: u32 where "OpSetupMapping = 48"
definition OpRemoveMapping :: u32 where "OpRemoveMapping = 49"
definition OpMaxOpcode :: u32 where "OpMaxOpcode = 50"
definition OpCuseInitBswapReserved :: u32 where "OpCuseInitBswapReserved = 1048576"
definition OpInitBswapReserved :: u32 where "OpInitBswapReserved = 436207616"

lemmas opcode_defs =
  OpLookup_def OpForget_def OpGetattr_def OpSetattr_def OpReadlink_def
  OpSymlink_def OpMknod_def OpMkdir_def OpUnlink_def OpRmdir_def
  OpRename_def OpLink_def OpOpen_def OpRead_def OpWrite_def
  OpStatfs_def OpRelease_def OpFsync_def OpSetxattr_def OpGetxattr_def
  OpListxattr_def OpRemovexattr_def OpFlush_def OpInit_def OpOpendir_def
  OpReaddir_def OpReleasedir_def OpFsyncdir_def OpGetlk_def OpSetlk_def
  OpSetlkw_def OpAccess_def OpCreate_def OpInterrupt_def OpBmap_def
  OpDestroy_def OpIoctl_def OpPoll_def OpNotifyReply_def OpBatchForget_def
  OpFallocate_def OpReaddirplus_def OpRename2_def OpLseek_def OpCopyFileRange_def
  OpSetupMapping_def OpRemoveMapping_def OpMaxOpcode_def OpCuseInitBswapReserved_def OpInitBswapReserved_def

section \<open>Structures\<close>

record in_header =
  ih_len :: u32
  ih_opcode :: u32
  ih_unique :: u64
  ih_nodeid :: u64
  ih_uid :: u32
  ih_gid :: u32
  ih_pid :: u32
  ih_padding :: u32

definition in_header_codec :: "in_header codec" where
  "in_header_codec = \<lparr>
     co_layout = [4, 4, 8, 8, 4, 4, 4, 4],
     co_vals = (\<lambda>x. [unat (ih_len x), unat (ih_opcode x), unat (ih_unique x), unat (ih_nodeid x),
           unat (ih_uid x), unat (ih_gid x), unat (ih_pid x), unat (ih_padding x)]),
     co_of = (\<lambda>vs. \<lparr>ih_len = of_nat (vs ! 0), ih_opcode = of_nat (vs ! 1), ih_unique = of_nat (vs ! 2),
           ih_nodeid = of_nat (vs ! 3), ih_uid = of_nat (vs ! 4), ih_gid = of_nat (vs ! 5),
           ih_pid = of_nat (vs ! 6), ih_padding = of_nat (vs ! 7)\<rparr>)\<rparr>"

record out_header =
  oh_len :: u32
  oh_error :: i32
  oh_unique :: u64

definition out_header_codec :: "out_header codec" where
  "out_header_codec = \<lparr>
     co_layout = [4, 4, 8],
     co_vals = (\<lambda>x. [unat (oh_len x), unat (oh_error x), unat (oh_unique x)]),
     co_of = (\<lambda>vs. \<lparr>oh_len = of_nat (vs ! 0), oh_error = of_nat (vs ! 1), oh_unique = of_nat (vs ! 2)\<rparr>)\<rparr>"

definition attr_codec :: "attr codec" where
  "attr_codec = \<lparr>
     co_layout = [8, 8, 8, 8, 8, 8, 4, 4, 4, 4, 4, 4, 4, 4, 4, 4],
     co_vals = (\<lambda>x. [unat (at_ino x), unat (at_size x), unat (at_blocks x), unat (at_atime x),
           unat (at_mtime x), unat (at_ctime x), unat (at_atimensec x), unat (at_mtimensec x),
           unat (at_ctimensec x), unat (at_mode x), unat (at_nlink x), unat (at_uid x),
           unat (at_gid x), unat (at_rdev x), unat (at_blksize x), unat (at_flags x)]),
     co_of = (\<lambda>vs. \<lparr>at_ino = of_nat (vs ! 0), at_size = of_nat (vs ! 1), at_blocks = of_nat (vs ! 2),
           at_atime = of_nat (vs ! 3), at_mtime = of_nat (vs ! 4), at_ctime = of_nat (vs ! 5),
           at_atimensec = of_nat (vs ! 6), at_mtimensec = of_nat (vs ! 7),
           at_ctimensec = of_nat (vs ! 8), at_mode = of_nat (vs ! 9),
           at_nlink = of_nat (vs ! 10), at_uid = of_nat (vs ! 11), at_gid = of_nat (vs ! 12),
           at_rdev = of_nat (vs ! 13), at_blksize = of_nat (vs ! 14),
           at_flags = of_nat (vs ! 15)\<rparr>)\<rparr>"

record kstatfs =
  kf_blocks :: u64
  kf_bfree :: u64
  kf_bavail :: u64
  kf_files :: u64
  kf_ffree :: u64
  kf_bsize :: u32
  kf_namelen :: u32
  kf_frsize :: u32
  kf_padding :: u32
  kf_spare :: "192 word"

definition kstatfs_codec :: "kstatfs codec" where
  "kstatfs_codec = \<lparr>
     co_layout = [8, 8, 8, 8, 8, 4, 4, 4, 4, 24],
     co_vals = (\<lambda>x. [unat (kf_blocks x), unat (kf_bfree x), unat (kf_bavail x), unat (kf_files x),
           unat (kf_ffree x), unat (kf_bsize x), unat (kf_namelen x), unat (kf_frsize x),
           unat (kf_padding x), unat (kf_spare x)]),
     co_of = (\<lambda>vs. \<lparr>kf_blocks = of_nat (vs ! 0), kf_bfree = of_nat (vs ! 1), kf_bavail = of_nat (vs ! 2),
           kf_files = of_nat (vs ! 3), kf_ffree = of_nat (vs ! 4), kf_bsize = of_nat (vs ! 5),
           kf_namelen = of_nat (vs ! 6), kf_frsize = of_nat (vs ! 7),
           kf_padding = of_nat (vs ! 8), kf_spare = of_nat (vs ! 9)\<rparr>)\<rparr>"

definition file_lock_codec :: "file_lock codec" where
  "file_lock_codec = \<lparr>
     co_layout = [8, 8, 4, 4],
     co_vals = (\<lambda>x. [unat (fl_start x), unat (fl_end x), unat (fl_type x), unat (fl_pid x)]),
     co_of = (\<lambda>vs. \<lparr>fl_start = of_nat (vs ! 0), fl_end = of_nat (vs ! 1), fl_type = of_nat (vs ! 2),
           fl_pid = of_nat (vs ! 3)\<rparr>)\<rparr>"

record entry_out =
  eo_nodeid :: u64
  eo_generation :: u64
  eo_entry_valid :: u64
  eo_attr_valid :: u64
  eo_entry_valid_nsec :: u32
  eo_attr_valid_nsec :: u32
  eo_attr :: attr

definition entry_out_codec :: "entry_out codec" where
  "entry_out_codec = \<lparr>
     co_layout = [8, 8, 8, 8, 4, 4] @ co_layout attr_codec,
     co_vals = (\<lambda>x. [unat (eo_nodeid x), unat (eo_generation x), unat (eo_entry_valid x),
           unat (eo_attr_valid x), unat (eo_entry_valid_nsec x),
           unat (eo_attr_valid_nsec x)] @ co_vals attr_codec (eo_attr x)),
     co_of = (\<lambda>vs. \<lparr>eo_nodeid = of_nat (vs ! 0), eo_generation = of_nat (vs ! 1),
           eo_entry_valid = of_nat (vs ! 2), eo_attr_valid = of_nat (vs ! 3),
           eo_entry_valid_nsec = of_nat (vs ! 4), eo_attr_valid_nsec = of_nat (vs ! 5),
           eo_attr = co_of attr_codec (take 16 (drop 6 vs))\<rparr>)\<rparr>"

record forget_in =
  fin_nlookup :: u64

definition forget_in_codec :: "forget_in codec" where
  "forget_in_codec = \<lparr>
     co_layout = [8],
     co_vals = (\<lambda>x. [unat (fin_nlookup x)]),
     co_of = (\<lambda>vs. \<lparr>fin_nlookup = of_nat (vs ! 0)\<rparr>)\<rparr>"

record forget_one =
  fo_nodeid :: u64
  fo_nlookup :: u64

definition forget_one_codec :: "forget_one codec" where
  "forget_one_codec = \<lparr>
     co_layout = [8, 8],
     co_vals = (\<lambda>x. [unat (fo_nodeid x), unat (fo_nlookup x)]),
     co_of = (\<lambda>vs. \<lparr>fo_nodeid = of_nat (vs ! 0), fo_nlookup = of_nat (vs ! 1)\<rparr>)\<rparr>"

record batch_forget_in =
  bf_count :: u32
  bf_dummy :: u32

definition batch_forget_in_codec :: "batch_forget_in codec" where
  "batch_forget_in_codec = \<lparr>
     co_layout = [4, 4],
     co_vals = (\<lambda>x. [unat (bf_count x), unat (bf_dummy x)]),
     co_of = (\<lambda>vs. \<lparr>bf_count = of_nat (vs ! 0), bf_dummy = of_nat (vs ! 1)\<rparr>)\<rparr>"

record getattr_in =
  ga_flags :: u32
  ga_dummy :: u32
  ga_fh :: u64

definition getattr_in_codec :: "getattr_in codec" where
  "getattr_in_codec = \<lparr>
     co_layout = [4, 4, 8],
     co_vals = (\<lambda>x. [unat (ga_flags x), unat (ga_dummy x), unat (ga_fh x)]),
     co_of = (\<lambda>vs. \<lparr>ga_flags = of_nat (vs ! 0), ga_dummy = of_nat (vs ! 1), ga_fh = of_nat (vs ! 2)\<rparr>)\<rparr>"

record attr_out =
  ao_attr_valid :: u64
  ao_attr_valid_nsec :: u32
  ao_dummy :: u32
  ao_attr :: attr

definition attr_out_codec :: "attr_out codec" where
  "attr_out_codec = \<lparr>
     co_layout = [8, 4, 4] @ co_layout attr_codec,
     co_vals = (\<lambda>x. [unat (ao_attr_valid x), unat (ao_attr_valid_nsec x),
           unat (ao_dummy x)] @ co_vals attr_codec (ao_attr x)),
     co_of = (\<lambda>vs. \<lparr>ao_attr_valid = of_nat (vs ! 0), ao_attr_valid_nsec = of_nat (vs ! 1),
           ao_dummy = of_nat (vs ! 2), ao_attr = co_of attr_codec (take 16 (drop 3 vs))\<rparr>)\<rparr>"

record mknod_in =
  mn_mode :: u32
  mn_rdev :: u32
  mn_umask :: u32
  mn_padding :: u32

definition mknod_in_codec :: "mknod_in codec" where
  "mknod_in_codec = \<lparr>
     co_layout = [4, 4, 4, 4],
     co_vals = (\<lambda>x. [unat (mn_mode x), unat (mn_rdev x), unat (mn_umask x), unat (mn_padding x)]),
     co_of = (\<lambda>vs. \<lparr>mn_mode = of_nat (vs ! 0), mn_rdev = of_nat (vs ! 1), mn_umask = of_nat (vs ! 2),
           mn_padding = of_nat (vs ! 3)\<rparr>)\<rparr>"

record mkdir_in =
  mk_mode :: u32
  mk_umask :: u32

definition mkdir_in_codec :: "mkdir_in codec" where
  "mkdir_in_codec = \<lparr>
     co_layout = [4, 4],
     co_vals = (\<lambda>x. [unat (mk_mode x), unat (mk_umask x)]),
     co_of = (\<lambda>vs. \<lparr>mk_mode = of_nat (vs ! 0), mk_umask = of_nat (vs ! 1)\<rparr>)\<rparr>"

record rename_in =
  rn_newdir :: u64

definition rename_in_codec :: "rename_in codec" where
  "rename_in_codec = \<lparr>
     co_layout = [8],
     co_vals = (\<lambda>x. [unat (rn_newdir x)]),
     co_of = (\<lambda>vs. \<lparr>rn_newdir = of_nat (vs ! 0)\<rparr>)\<rparr>"

record rename2_in =
  r2_newdir :: u64
  r2_flags :: u32
  r2_padding :: u32

definition rename2_in_codec :: "rename2_in codec" where
  "rename2_in_codec = \<lparr>
     co_layout = [8, 4, 4],
     co_vals = (\<lambda>x. [unat (r2_newdir x), unat (r2_flags x), unat (r2_padding x)]),
     co_of = (\<lambda>vs. \<lparr>r2_newdir = of_nat (vs ! 0), r2_flags = of_nat (vs ! 1), r2_padding = of_nat (vs ! 2)\<rparr>)\<rparr>"

record link_in =
  li_oldnodeid :: u64

definition link_in_codec :: "link_in codec" where
  "link_in_codec = \<lparr>
     co_layout = [8],
     co_vals = (\<lambda>x. [unat (li_oldnodeid x)]),
     co_of = (\<lambda>vs. \<lparr>li_oldnodeid = of_nat (vs ! 0)\<rparr>)\<rparr>"

record setattr_in =
  sa_valid :: u32
  sa_padding :: u32
  sa_fh :: u64
  sa_size :: u64
  sa_lock_owner :: u64
  sa_atime :: u64
  sa_mtime :: u64
  sa_ctime :: u64
  sa_atimensec :: u32
  sa_mtimensec :: u32
  sa_ctimensec :: u32
  sa_mode :: u32
  sa_unused4 :: u32
  sa_uid :: u32
  sa_gid :: u32
  sa_unused5 :: u32

definition setattr_in_codec :: "setattr_in codec" where
  "setattr_in_codec = \<lparr>
     co_layout = [4, 4, 8, 8, 8, 8, 8, 8, 4, 4, 4, 4, 4, 4, 4, 4],
     co_vals = (\<lambda>x. [unat (sa_valid x), unat (sa_padding x), unat (sa_fh x), unat (sa_size x),
           unat (sa_lock_owner x), unat (sa_atime x), unat (sa_mtime x), unat (sa_ctime x),
           unat (sa_atimensec x), unat (sa_mtimensec x), unat (sa_ctimensec x), unat (sa_mode x),
           unat (sa_unused4 x), unat (sa_uid x), unat (sa_gid x), unat (sa_unused5 x)]),
     co_of = (\<lambda>vs. \<lparr>sa_valid = of_nat (vs ! 0), sa_padding = of_nat (vs ! 1), sa_fh = of_nat (vs ! 2),
           sa_size = of_nat (vs ! 3), sa_lock_owner = of_nat (vs ! 4),
           sa_atime = of_nat (vs ! 5), sa_mtime = of_nat (vs ! 6), sa_ctime = of_nat (vs ! 7),
           sa_atimensec = of_nat (vs ! 8), sa_mtimensec = of_nat (vs ! 9),
           sa_ctimensec = of_nat (vs ! 10), sa_mode = of_nat (vs ! 11),
           sa_unused4 = of_nat (vs ! 12), sa_uid = of_nat (vs ! 13), sa_gid = of_nat (vs ! 14),
           sa_unused5 = of_nat (vs ! 15)\<rparr>)\<rparr>"

record open_in =
  oi_flags :: u32
  oi_fuse_flags :: u32

definition open_in_codec :: "open_in codec" where
  "open_in_codec = \<lparr>
     co_layout = [4, 4],
     co_vals = (\<lambda>x. [unat (oi_flags x), unat (oi_fuse_flags x)]),
     co_of = (\<lambda>vs. \<lparr>oi_flags = of_nat (vs ! 0), oi_fuse_flags = of_nat (vs ! 1)\<rparr>)\<rparr>"

definition create_in_codec :: "create_in codec" where
  "create_in_codec = \<lparr>
     co_layout = [4, 4, 4, 4],
     co_vals = (\<lambda>x. [unat (ci_flags x), unat (ci_mode x), unat (ci_umask x), unat (ci_fuse_flags x)]),
     co_of = (\<lambda>vs. \<lparr>ci_flags = of_nat (vs ! 0), ci_mode = of_nat (vs ! 1), ci_umask = of_nat (vs ! 2),
           ci_fuse_flags = of_nat (vs ! 3)\<rparr>)\<rparr>"

record open_out =
  oo_fh :: u64
  oo_open_flags :: u32
  oo_passthrough :: u32

definition open_out_codec :: "open_out codec" where
  "open_out_codec = \<lparr>
     co_layout = [8, 4, 4],
     co_vals = (\<lambda>x. [unat (oo_fh x), unat (oo_open_flags x), unat (oo_passthrough x)]),
     co_of = (\<lambda>vs. \<lparr>oo_fh = of_nat (vs ! 0), oo_open_flags = of_nat (vs ! 1),
           oo_passthrough = of_nat (vs ! 2)\<rparr>)\<rparr>"

record release_in =
  re_fh :: u64
  re_flags :: u32
  re_release_flags :: u32
  re_lock_owner :: u64

definition release_in_codec :: "release_in codec" where
  "release_in_codec = \<lparr>
     co_layout = [8, 4, 4, 8],
     co_vals = (\<lambda>x. [unat (re_fh x), unat (re_flags x), unat (re_release_flags x),
           unat (re_lock_owner x)]),
     co_of = (\<lambda>vs. \<lparr>re_fh = of_nat (vs ! 0), re_flags = of_nat (vs ! 1),
           re_release_flags = of_nat (vs ! 2), re_lock_owner = of_nat (vs ! 3)\<rparr>)\<rparr>"

record flush_in =
  fu_fh :: u64
  fu_unused :: u32
  fu_padding :: u32
  fu_lock_owner :: u64

definition flush_in_codec :: "flush_in codec" where
  "flush_in_codec = \<lparr>
     co_layout = [8, 4, 4, 8],
     co_vals = (\<lambda>x. [unat (fu_fh x), unat (fu_unused x), unat (fu_padding x), unat (fu_lock_owner x)]),
     co_of = (\<lambda>vs. \<lparr>fu_fh = of_nat (vs ! 0), fu_unused = of_nat (vs ! 1), fu_padding = of_nat (vs ! 2),
           fu_lock_owner = of_nat (vs ! 3)\<rparr>)\<rparr>"

record read_in =
  rd_fh :: u64
  rd_offset :: u64
  rd_size :: u32
  rd_read_flags :: u32
  rd_lock_owner :: u64
  rd_flags :: u32
  rd_padding :: u32

definition read_in_codec :: "read_in codec" where
  "read_in_codec = \<lparr>
     co_layout = [8, 8, 4, 4, 8, 4, 4],
     co_vals = (\<lambda>x. [unat (rd_fh x), unat (rd_offset x), unat (rd_size x), unat (rd_read_flags x),
           unat (rd_lock_owner x), unat (rd_flags x), unat (rd_padding x)]),
     co_of = (\<lambda>vs. \<lparr>rd_fh = of_nat (vs ! 0), rd_offset = of_nat (vs ! 1), rd_size = of_nat (vs ! 2),
           rd_read_flags = of_nat (vs ! 3), rd_lock_owner = of_nat (vs ! 4),
           rd_flags = of_nat (vs ! 5), rd_padding = of_nat (vs ! 6)\<rparr>)\<rparr>"

record write_in =
  wr_fh :: u64
  wr_offset :: u64
  wr_size :: u32
  wr_fuse_flags :: u32
  wr_lock_owner :: u64
  wr_flags :: u32
  wr_padding :: u32

definition write_in_codec :: "write_in codec" where
  "write_in_codec = \<lparr>
     co_layout = [8, 8, 4, 4, 8, 4, 4],
     co_vals = (\<lambda>x. [unat (wr_fh x), unat (wr_offset x), unat (wr_size x), unat (wr_fuse_flags x),
           unat (wr_lock_owner x), unat (wr_flags x), unat (wr_padding x)]),
     co_of = (\<lambda>vs. \<lparr>wr_fh = of_nat (vs ! 0), wr_offset = of_nat (vs ! 1), wr_size = of_nat (vs ! 2),
           wr_fuse_flags = of_nat (vs ! 3), wr_lock_owner = of_nat (vs ! 4),
           wr_flags = of_nat (vs ! 5), wr_padding = of_nat (vs ! 6)\<rparr>)\<rparr>"

record write_out =
  wo_size :: u32
  wo_padding :: u32

definition write_out_codec :: "write_out codec" where
  "write_out_codec = \<lparr>
     co_layout = [4, 4],
     co_vals = (\<lambda>x. [unat (wo_size x), unat (wo_padding x)]),
     co_of = (\<lambda>vs. \<lparr>wo_size = of_nat (vs ! 0), wo_padding = of_nat (vs ! 1)\<rparr>)\<rparr>"

record fsync_in =
  fsn_fh :: u64
  fsn_fsync_flags :: u32
  fsn_padding :: u32

definition fsync_in_codec :: "fsync_in codec" where
  "fsync_in_codec = \<lparr>
     co_layout = [8, 4, 4],
     co_vals = (\<lambda>x. [unat (fsn_fh x), unat (fsn_fsync_flags x), unat (fsn_padding x)]),
     co_of = (\<lambda>vs. \<lparr>fsn_fh = of_nat (vs ! 0), fsn_fsync_flags = of_nat (vs ! 1),
           fsn_padding = of_nat (vs ! 2)\<rparr>)\<rparr>"

record setxattr_in =
  sx_size :: u32
  sx_flags :: u32

definition setxattr_in_codec :: "setxattr_in codec" where
  "setxattr_in_codec = \<lparr>
     co_layout = [4, 4],
     co_vals = (\<lambda>x. [unat (sx_size x), unat (sx_flags x)]),
     co_of = (\<lambda>vs. \<lparr>sx_size = of_nat (vs ! 0), sx_flags = of_nat (vs ! 1)\<rparr>)\<rparr>"

record getxattr_in =
  gx_size :: u32
  gx_padding :: u32

definition getxattr_in_codec :: "getxattr_in codec" where
  "getxattr_in_codec = \<lparr>
     co_layout = [4, 4],
     co_vals = (\<lambda>x. [unat (gx_size x), unat (gx_padding x)]),
     co_of = (\<lambda>vs. \<lparr>gx_size = of_nat (vs ! 0), gx_padding = of_nat (vs ! 1)\<rparr>)\<rparr>"

record getxattr_out =
  go_size :: u32
  go_padding :: u32

definition getxattr_out_codec :: "getxattr_out codec" where
  "getxattr_out_codec = \<lparr>
     co_layout = [4, 4],
     co_vals = (\<lambda>x. [unat (go_size x), unat (go_padding x)]),
     co_of = (\<lambda>vs. \<lparr>go_size = of_nat (vs ! 0), go_padding = of_nat (vs ! 1)\<rparr>)\<rparr>"

record lk_in =
  lk_fh :: u64
  lk_owner :: u64
  lk_lk :: file_lock
  lk_lk_flags :: u32
  lk_padding :: u32

definition lk_in_codec :: "lk_in codec" where
  "lk_in_codec = \<lparr>
     co_layout = [8, 8] @ co_layout file_lock_codec @ [4, 4],
     co_vals = (\<lambda>x. [unat (lk_fh x),
           unat (lk_owner x)] @ co_vals file_lock_codec (lk_lk x) @ [unat (lk_lk_flags x),
           unat (lk_padding x)]),
     co_of = (\<lambda>vs. \<lparr>lk_fh = of_nat (vs ! 0), lk_owner = of_nat (vs ! 1),
           lk_lk = co_of file_lock_codec (take 4 (drop 2 vs)), lk_lk_flags = of_nat (vs ! 6),
           lk_padding = of_nat (vs ! 7)\<rparr>)\<rparr>"

record lk_out =
  lo_lk :: file_lock

definition lk_out_codec :: "lk_out codec" where
  "lk_out_codec = \<lparr>
     co_layout = co_layout file_lock_codec,
     co_vals = (\<lambda>x. co_vals file_lock_codec (lo_lk x)),
     co_of = (\<lambda>vs. \<lparr>lo_lk = co_of file_lock_codec (take 4 (drop 0 vs))\<rparr>)\<rparr>"

record access_in =
  ac_mask :: u32
  ac_padding :: u32

definition access_in_codec :: "access_in codec" where
  "access_in_codec = \<lparr>
     co_layout = [4, 4],
     co_vals = (\<lambda>x. [unat (ac_mask x), unat (ac_padding x)]),
     co_of = (\<lambda>vs. \<lparr>ac_mask = of_nat (vs ! 0), ac_padding = of_nat (vs ! 1)\<rparr>)\<rparr>"

record init_in =
  ii_major :: u32
  ii_minor :: u32
  ii_max_readahead :: u32
  ii_flags :: u32

definition init_in_codec :: "init_in codec" where
  "init_in_codec = \<lparr>
     co_layout = [4, 4, 4, 4],
     co_vals = (\<lambda>x. [unat (ii_major x), unat (ii_minor x), unat (ii_max_readahead x), unat (ii_flags x)]),
     co_of = (\<lambda>vs. \<lparr>ii_major = of_nat (vs ! 0), ii_minor = of_nat (vs ! 1),
           ii_max_readahead = of_nat (vs ! 2), ii_flags = of_nat (vs ! 3)\<rparr>)\<rparr>"

record init_in2 =
  i2_flags2 :: u32
  i2_unused :: "352 word"

definition init_in2_codec :: "init_in2 codec" where
  "init_in2_codec = \<lparr>
     co_layout = [4, 44],
     co_vals = (\<lambda>x. [unat (i2_flags2 x), unat (i2_unused x)]),
     co_of = (\<lambda>vs. \<lparr>i2_flags2 = of_nat (vs ! 0), i2_unused = of_nat (vs ! 1)\<rparr>)\<rparr>"

record init_out =
  ino_major :: u32
  ino_minor :: u32
  ino_max_readahead :: u32
  ino_flags :: u32
  ino_max_background :: u16
  ino_congestion_threshold :: u16
  ino_max_write :: u32
  ino_time_gran :: u32
  ino_max_pages :: u16
  ino_map_alignment :: u16
  ino_flags2 :: u32
  ino_unused :: "224 word"

definition init_out_codec :: "init_out codec" where
  "init_out_codec = \<lparr>
     co_layout = [4, 4, 4, 4, 2, 2, 4, 4, 2, 2, 4, 28],
     co_vals = (\<lambda>x. [unat (ino_major x), unat (ino_minor x), unat (ino_max_readahead x),
           unat (ino_flags x), unat (ino_max_background x), unat (ino_congestion_threshold x),
           unat (ino_max_write x), unat (ino_time_gran x), unat (ino_max_pages x),
           unat (ino_map_alignment x), unat (ino_flags2 x), unat (ino_unused x)]),
     co_of = (\<lambda>vs. \<lparr>ino_major = of_nat (vs ! 0), ino_minor = of_nat (vs ! 1),
           ino_max_readahead = of_nat (vs ! 2), ino_flags = of_nat (vs ! 3),
           ino_max_background = of_nat (vs ! 4), ino_congestion_threshold = of_nat (vs ! 5),
           ino_max_write = of_nat (vs ! 6), ino_time_gran = of_nat (vs ! 7),
           ino_max_pages = of_nat (vs ! 8), ino_map_alignment = of_nat (vs ! 9),
           ino_flags2 = of_nat (vs ! 10), ino_unused = of_nat (vs ! 11)\<rparr>)\<rparr>"

record bmap_in =
  bi_block :: u64
  bi_blocksize :: u32
  bi_padding :: u32

definition bmap_in_codec :: "bmap_in codec" where
  "bmap_in_codec = \<lparr>
     co_layout = [8, 4, 4],
     co_vals = (\<lambda>x. [unat (bi_block x), unat (bi_blocksize x), unat (bi_padding x)]),
     co_of = (\<lambda>vs. \<lparr>bi_block = of_nat (vs ! 0), bi_blocksize = of_nat (vs ! 1),
           bi_padding = of_nat (vs ! 2)\<rparr>)\<rparr>"

record bmap_out =
  bo_block :: u64

definition bmap_out_codec :: "bmap_out codec" where
  "bmap_out_codec = \<lparr>
     co_layout = [8],
     co_vals = (\<lambda>x. [unat (bo_block x)]),
     co_of = (\<lambda>vs. \<lparr>bo_block = of_nat (vs ! 0)\<rparr>)\<rparr>"

record ioctl_in =
  ic_fh :: u64
  ic_flags :: u32
  ic_cmd :: u32
  ic_arg :: u64
  ic_in_size :: u32
  ic_out_size :: u32

definition ioctl_in_codec :: "ioctl_in codec" where
  "ioctl_in_codec = \<lparr>
     co_layout = [8, 4, 4, 8, 4, 4],
     co_vals = (\<lambda>x. [unat (ic_fh x), unat (ic_flags x), unat (ic_cmd x), unat (ic_arg x),
           unat (ic_in_size x), unat (ic_out_size x)]),
     co_of = (\<lambda>vs. \<lparr>ic_fh = of_nat (vs ! 0), ic_flags = of_nat (vs ! 1), ic_cmd = of_nat (vs ! 2),
           ic_arg = of_nat (vs ! 3), ic_in_size = of_nat (vs ! 4), ic_out_size = of_nat (vs ! 5)\<rparr>)\<rparr>"

record ioctl_out =
  iu_result :: i32
  iu_flags :: u32
  iu_in_iovs :: u32
  iu_out_iovs :: u32

definition ioctl_out_codec :: "ioctl_out codec" where
  "ioctl_out_codec = \<lparr>
     co_layout = [4, 4, 4, 4],
     co_vals = (\<lambda>x. [unat (iu_result x), unat (iu_flags x), unat (iu_in_iovs x), unat (iu_out_iovs x)]),
     co_of = (\<lambda>vs. \<lparr>iu_result = of_nat (vs ! 0), iu_flags = of_nat (vs ! 1), iu_in_iovs = of_nat (vs ! 2),
           iu_out_iovs = of_nat (vs ! 3)\<rparr>)\<rparr>"

record poll_in =
  pi_fh :: u64
  pi_kh :: u64
  pi_flags :: u32
  pi_events :: u32

definition poll_in_codec :: "poll_in codec" where
  "poll_in_codec = \<lparr>
     co_layout = [8, 8, 4, 4],
     co_vals = (\<lambda>x. [unat (pi_fh x), unat (pi_kh x), unat (pi_flags x), unat (pi_events x)]),
     co_of = (\<lambda>vs. \<lparr>pi_fh = of_nat (vs ! 0), pi_kh = of_nat (vs ! 1), pi_flags = of_nat (vs ! 2),
           pi_events = of_nat (vs ! 3)\<rparr>)\<rparr>"

record poll_out =
  po_revents :: u32
  po_padding :: u32

definition poll_out_codec :: "poll_out codec" where
  "poll_out_codec = \<lparr>
     co_layout = [4, 4],
     co_vals = (\<lambda>x. [unat (po_revents x), unat (po_padding x)]),
     co_of = (\<lambda>vs. \<lparr>po_revents = of_nat (vs ! 0), po_padding = of_nat (vs ! 1)\<rparr>)\<rparr>"

record fallocate_in =
  fa_fh :: u64
  fa_offset :: u64
  fa_length :: u64
  fa_mode :: u32
  fa_padding :: u32

definition fallocate_in_codec :: "fallocate_in codec" where
  "fallocate_in_codec = \<lparr>
     co_layout = [8, 8, 8, 4, 4],
     co_vals = (\<lambda>x. [unat (fa_fh x), unat (fa_offset x), unat (fa_length x), unat (fa_mode x),
           unat (fa_padding x)]),
     co_of = (\<lambda>vs. \<lparr>fa_fh = of_nat (vs ! 0), fa_offset = of_nat (vs ! 1), fa_length = of_nat (vs ! 2),
           fa_mode = of_nat (vs ! 3), fa_padding = of_nat (vs ! 4)\<rparr>)\<rparr>"

record dirent =
  dt_ino :: u64
  dt_off :: u64
  dt_namelen :: u32
  dt_type :: u32

definition dirent_codec :: "dirent codec" where
  "dirent_codec = \<lparr>
     co_layout = [8, 8, 4, 4],
     co_vals = (\<lambda>x. [unat (dt_ino x), unat (dt_off x), unat (dt_namelen x), unat (dt_type x)]),
     co_of = (\<lambda>vs. \<lparr>dt_ino = of_nat (vs ! 0), dt_off = of_nat (vs ! 1), dt_namelen = of_nat (vs ! 2),
           dt_type = of_nat (vs ! 3)\<rparr>)\<rparr>"

record notify_inval_entry_out =
  ni_parent :: u64
  ni_namelen :: u32
  ni_padding :: u32

definition notify_inval_entry_out_codec :: "notify_inval_entry_out codec" where
  "notify_inval_entry_out_codec = \<lparr>
     co_layout = [8, 4, 4],
     co_vals = (\<lambda>x. [unat (ni_parent x), unat (ni_namelen x), unat (ni_padding x)]),
     co_of = (\<lambda>vs. \<lparr>ni_parent = of_nat (vs ! 0), ni_namelen = of_nat (vs ! 1),
           ni_padding = of_nat (vs ! 2)\<rparr>)\<rparr>"

record lseek_in =
  ls_fh :: u64
  ls_offset :: u64
  ls_whence :: u32
  ls_padding :: u32

definition lseek_in_codec :: "lseek_in codec" where
  "lseek_in_codec = \<lparr>
     co_layout = [8, 8, 4, 4],
     co_vals = (\<lambda>x. [unat (ls_fh x), unat (ls_offset x), unat (ls_whence x), unat (ls_padding x)]),
     co_of = (\<lambda>vs. \<lparr>ls_fh = of_nat (vs ! 0), ls_offset = of_nat (vs ! 1), ls_whence = of_nat (vs ! 2),
           ls_padding = of_nat (vs ! 3)\<rparr>)\<rparr>"

record lseek_out =
  lu_offset :: u64

definition lseek_out_codec :: "lseek_out codec" where
  "lseek_out_codec = \<lparr>
     co_layout = [8],
     co_vals = (\<lambda>x. [unat (lu_offset x)]),
     co_of = (\<lambda>vs. \<lparr>lu_offset = of_nat (vs ! 0)\<rparr>)\<rparr>"

record setupmapping_in =
  sm_fh :: u64
  sm_foffset :: u64
  sm_len :: u64
  sm_flags :: u64
  sm_moffset :: u64

definition setupmapping_in_codec :: "setupmapping_in codec" where
  "setupmapping_in_codec = \<lparr>
     co_layout = [8, 8, 8, 8, 8],
     co_vals = (\<lambda>x. [unat (sm_fh x), unat (sm_foffset x), unat (sm_len x), unat (sm_flags x),
           unat (sm_moffset x)]),
     co_of = (\<lambda>vs. \<lparr>sm_fh = of_nat (vs ! 0), sm_foffset = of_nat (vs ! 1), sm_len = of_nat (vs ! 2),
           sm_flags = of_nat (vs ! 3), sm_moffset = of_nat (vs ! 4)\<rparr>)\<rparr>"

record removemapping_in =
  rmi_count :: u32

definition removemapping_in_codec :: "removemapping_in codec" where
  "removemapping_in_codec = \<lparr>
     co_layout = [4],
     co_vals = (\<lambda>x. [unat (rmi_count x)]),
     co_of = (\<lambda>vs. \<lparr>rmi_count = of_nat (vs ! 0)\<rparr>)\<rparr>"

definition removemapping_one_codec :: "removemapping_one codec" where
  "removemapping_one_codec = \<lparr>
     co_layout = [8, 8],
     co_vals = (\<lambda>x. [unat (rm_moffset x), unat (rm_len x)]),
     co_of = (\<lambda>vs. \<lparr>rm_moffset = of_nat (vs ! 0), rm_len = of_nat (vs ! 1)\<rparr>)\<rparr>"

text \<open>The structures have no padding, so the byte view is the one the kernel uses.\<close>

lemmas codec_defs =
  in_header_codec_def out_header_codec_def attr_codec_def kstatfs_codec_def
  file_lock_codec_def entry_out_codec_def forget_in_codec_def forget_one_codec_def
  batch_forget_in_codec_def getattr_in_codec_def attr_out_codec_def mknod_in_codec_def
  mkdir_in_codec_def rename_in_codec_def rename2_in_codec_def link_in_codec_def
  setattr_in_codec_def open_in_codec_def create_in_codec_def open_out_codec_def
  release_in_codec_def flush_in_codec_def read_in_codec_def write_in_codec_def
  write_out_codec_def fsync_in_codec_def setxattr_in_codec_def getxattr_in_codec_def
  getxattr_out_codec_def lk_in_codec_def lk_out_codec_def access_in_codec_def
  init_in_codec_def init_in2_codec_def init_out_codec_def bmap_in_codec_def
  bmap_out_codec_def ioctl_in_codec_def ioctl_out_codec_def poll_in_codec_def
  poll_out_codec_def fallocate_in_codec_def dirent_codec_def notify_inval_entry_out_codec_def
  lseek_in_codec_def lseek_out_codec_def setupmapping_in_codec_def removemapping_in_codec_def
  removemapping_one_codec_def

lemma wide_fields:
  "unat (x :: 192 word) < 256 ^ 24" "unat (y :: 224 word) < 256 ^ 28" "unat (z :: 352 word) < 256 ^ 44"
  by (rule unat_wide_less; simp)+

lemma wide_fields_of:
  "v < 256 ^ 24 \<Longrightarrow> unat (of_nat v :: 192 word) = v"
  "v < 256 ^ 28 \<Longrightarrow> unat (of_nat v :: 224 word) = v"
  "v < 256 ^ 44 \<Longrightarrow> unat (of_nat v :: 352 word) = v"
  by (rule unat_of_nat_wide [rotated], assumption, simp)+

lemmas wide_field_simps [simp] = wide_fields [simplified] wide_fields_of [simplified]

lemmas codec_proofs = fields_ok_def list_all2_Cons1

interpretation in_header_b: byte_valued in_header_codec
  by unfold_locales (auto simp: codec_defs codec_proofs)

interpretation out_header_b: byte_valued out_header_codec
  by unfold_locales (auto simp: codec_defs codec_proofs)

interpretation attr_b: byte_valued attr_codec
  by unfold_locales (auto simp: codec_defs codec_proofs)

interpretation kstatfs_b: byte_valued kstatfs_codec
  by unfold_locales (auto simp: codec_defs codec_proofs)

interpretation file_lock_b: byte_valued file_lock_codec
  by unfold_locales (auto simp: codec_defs codec_proofs)

interpretation entry_out_b: byte_valued entry_out_codec
  by unfold_locales (auto simp: codec_defs codec_proofs)

interpretation forget_in_b: byte_valued forget_in_codec
  by unfold_locales (auto simp: codec_defs codec_proofs)

interpretation forget_one_b: byte_valued forget_one_codec
  by unfold_locales (auto simp: codec_defs codec_proofs)

interpretation batch_forget_in_b: byte_valued batch_forget_in_codec
  by unfold_locales (auto simp: codec_defs codec_proofs)

interpretation getattr_in_b: byte_valued getattr_in_codec
  by unfold_locales (auto simp: codec_defs codec_proofs)

interpretation attr_out_b: byte_valued attr_out_codec
  by unfold_locales (auto simp: codec_defs codec_proofs)

interpretation mknod_in_b: byte_valued mknod_in_codec
  by unfold_locales (auto simp: codec_defs codec_proofs)

interpretation mkdir_in_b: byte_valued mkdir_in_codec
  by unfold_locales (auto simp: codec_defs codec_proofs)

interpretation rename_in_b: byte_valued rename_in_codec
  by unfold_locales (auto simp: codec_defs codec_proofs)

interpretation rename2_in_b: byte_valued rename2_in_codec
  by unfold_locales (auto simp: codec_defs codec_proofs)

interpretation link_in_b: byte_valued link_in_codec
  by unfold_locales (auto simp: codec_defs codec_proofs)

interpretation setattr_in_b: byte_valued setattr_in_codec
  by unfold_locales (auto simp: codec_defs codec_proofs)

interpretation open_in_b: byte_valued open_in_codec
  by unfold_locales (auto simp: codec_defs codec_proofs)

interpretation create_in_b: byte_valued create_in_codec
  by unfold_locales (auto simp: codec_defs codec_proofs)

interpretation open_out_b: byte_valued open_out_codec
  by unfold_locales (auto simp: codec_defs codec_proofs)

interpretation release_in_b: byte_valued release_in_codec
  by unfold_locales (auto simp: codec_defs codec_proofs)

interpretation flush_in_b: byte_valued flush_in_codec
  by unfold_locales (auto simp: codec_defs codec_proofs)

interpretation read_in_b: byte_valued read_in_codec
  by unfold_locales (auto simp: codec_defs codec_proofs)

interpretation write_in_b: byte_valued write_in_codec
  by unfold_locales (auto simp: codec_defs codec_proofs)

interpretation write_out_b: byte_valued write_out_codec
  by unfold_locales (auto simp: codec_defs codec_proofs)

interpretation fsync_in_b: byte_valued fsync_in_codec
  by unfold_locales (auto simp: codec_defs codec_proofs)

interpretation setxattr_in_b: byte_valued setxattr_in_codec
  by unfold_locales (auto simp: codec_defs codec_proofs)

interpretation getxattr_in_b: byte_valued getxattr_in_codec
  by unfold_locales (auto simp: codec_defs codec_proofs)

interpretation getxattr_out_b: byte_valued getxattr_out_codec
  by unfold_locales (auto simp: codec_defs codec_proofs)

interpretation lk_in_b: byte_valued lk_in_codec
  by unfold_locales (auto simp: codec_defs codec_proofs)

interpretation lk_out_b: byte_valued lk_out_codec
  by unfold_locales (auto simp: codec_defs codec_proofs)

interpretation access_in_b: byte_valued access_in_codec
  by unfold_locales (auto simp: codec_defs codec_proofs)

interpretation init_in_b: byte_valued init_in_codec
  by unfold_locales (auto simp: codec_defs codec_proofs)

interpretation init_in2_b: byte_valued init_in2_codec
  by unfold_locales (auto simp: codec_defs codec_proofs)

interpretation init_out_b: byte_valued init_out_codec
  by unfold_locales (auto simp: codec_defs codec_proofs)

interpretation bmap_in_b: byte_valued bmap_in_codec
  by unfold_locales (auto simp: codec_defs codec_proofs)

interpretation bmap_out_b: byte_valued bmap_out_codec
  by unfold_locales (auto simp: codec_defs codec_proofs)

interpretation ioctl_in_b: byte_valued ioctl_in_codec
  by unfold_locales (auto simp: codec_defs codec_proofs)

interpretation ioctl_out_b: byte_valued ioctl_out_codec
  by unfold_locales (auto simp: codec_defs codec_proofs)

interpretation poll_in_b: byte_valued poll_in_codec
  by unfold_locales (auto simp: codec_defs codec_proofs)

interpretation poll_out_b: byte_valued poll_out_codec
  by unfold_locales (auto simp: codec_defs codec_proofs)

interpretation fallocate_in_b: byte_valued fallocate_in_codec
  by unfold_locales (auto simp: codec_defs codec_proofs)

interpretation dirent_b: byte_valued dirent_codec
  by unfold_locales (auto simp: codec_defs codec_proofs)

interpretation notify_inval_entry_out_b: byte_valued notify_inval_entry_out_codec
  by unfold_locales (auto simp: codec_defs codec_proofs)

interpretation lseek_in_b: byte_valued lseek_in_codec
  by unfold_locales (auto simp: codec_defs codec_proofs)

interpretation lseek_out_b: byte_valued lseek_out_codec
  by unfold_locales (auto simp: codec_defs codec_proofs)

interpretation setupmapping_in_b: byte_valued setupmapping_in_codec
  by unfold_locales (auto simp: codec_defs codec_proofs)

interpretation removemapping_in_b: byte_valued removemapping_in_codec
  by unfold_locales (auto simp: codec_defs codec_proofs)

interpretation removemapping_one_b: byte_valued removemapping_one_codec
  by unfold_locales (auto simp: codec_defs codec_proofs)

section \<open>Conversions\<close>

definition entry_out_from :: "entry \<Rightarrow> entry_out" where
  "entry_out_from e =
     \<lparr>eo_nodeid = e_inode e, eo_generation = e_generation e,
      eo_entry_valid = fst (e_entry_timeout e), eo_attr_valid = fst (e_attr_timeout e),
      eo_entry_valid_nsec = snd (e_entry_timeout e), eo_attr_valid_nsec = snd (e_attr_timeout e),
      eo_attr = attr_with_flags (e_attr e) (e_attr_flags e)\<rparr>"

definition kstatfs_from :: "statvfs64 \<Rightarrow> kstatfs" where
  "kstatfs_from st =
     \<lparr>kf_blocks = f_blocks st, kf_bfree = f_bfree st, kf_bavail = f_bavail st, kf_files = f_files st,
      kf_ffree = f_ffree st, kf_bsize = ucast (f_bsize st), kf_namelen = ucast (f_namemax st),
      kf_frsize = ucast (f_frsize st), kf_padding = 0, kf_spare = 0\<rparr>"

definition stat64_from_setattr :: "setattr_in \<Rightarrow> stat64" where
  "stat64_from_setattr s =
     stat64_zeroed
       \<lparr>st_mode := sa_mode s, st_uid := sa_uid s, st_gid := sa_gid s, st_size := sa_size s,
        st_atime := sa_atime s, st_mtime := sa_mtime s, st_ctime := sa_ctime s,
        st_atime_nsec := ucast (sa_atimensec s), st_mtime_nsec := ucast (sa_mtimensec s),
        st_ctime_nsec := ucast (sa_ctimensec s)\<rparr>"

definition context_from :: "in_header \<Rightarrow> fuse_context" where
  "context_from h = \<lparr>ctx_uid = ih_uid h, ctx_gid = ih_gid h, ctx_pid = ih_pid h\<rparr>"

end
