(* ===== verification/Io_Buffers.thy ===== *)
theory Io_Buffers
  imports Byte_Codec Fuse_Interfaces
begin

text \<open>
  The scattered buffers of a request and the reader over them (\<^verbatim>\<open>transport/mod.rs\<close>). A
  \<^verbatim>\<open>VolatileSlice\<close> is a range of addresses of a memory that is passed explicitly, so that
  slices may overlap and a write through one is seen through another. \<^verbatim>\<open>usize\<close> counts are
  natural numbers with the overflow checks of the sources written out.

  The abstract view of a reader is the sequence of bytes its slices cover: every operation is
  shown to be \<open>take\<close>, \<open>drop\<close> or a split of that sequence, whatever the scattering.
\<close>

section \<open>Slices of memory\<close>

type_synonym memory = "nat \<Rightarrow> u8"

record vslice =
  sl_addr :: nat
  sl_len :: nat

text \<open>
  \<^verbatim>\<open>VolatileSlice::subslice(0, n)\<close> and \<^verbatim>\<open>offset(n)\<close>; the sources call them after checking
  that \<open>n\<close> is in range and unwrap the result.
\<close>

definition vs_take :: "nat \<Rightarrow> vslice \<Rightarrow> vslice" where
  "vs_take n s = s\<lparr>sl_len := n\<rparr>"

definition vs_drop :: "nat \<Rightarrow> vslice \<Rightarrow> vslice" where
  "vs_drop n s = \<lparr>sl_addr = sl_addr s + n, sl_len = sl_len s - n\<rparr>"

definition slice_bytes :: "memory \<Rightarrow> vslice \<Rightarrow> bytes" where
  "slice_bytes m s = map (\<lambda>i. m (sl_addr s + i)) [0..<sl_len s]"

definition chain_bytes :: "memory \<Rightarrow> vslice list \<Rightarrow> bytes" where
  "chain_bytes m ss = concat (map (slice_bytes m) ss)"

definition USIZE_MAX :: nat where "USIZE_MAX = 2 ^ 64 - 1"

datatype transport_error =
    DescriptorChainOverflow | FindMemoryRegion | InvalidChain | InvalidParameter
  | IoError io_error | SplitOutOfBounds nat | VolatileMemoryError

section \<open>IoBuffers\<close>

record io_buffers =
  buffers :: "vslice list"
  bytes_consumed :: nat

definition io_buffers_default :: io_buffers where
  "io_buffers_default = \<lparr>buffers = [], bytes_consumed = 0\<rparr>"

definition available_bytes :: "io_buffers \<Rightarrow> nat" where
  "available_bytes b = foldl (\<lambda>count buf. count + sl_len buf) 0 (buffers b)"

fun allocate_file_volatile_slice :: "vslice list \<Rightarrow> nat \<Rightarrow> vslice list" where
  "allocate_file_volatile_slice [] rem = []"
| "allocate_file_volatile_slice (buf # bufs) rem =
     (if rem = 0 then []
      else
        (let local_buf = (if sl_len buf > rem then vs_take rem buf else buf)
         in local_buf # allocate_file_volatile_slice bufs (rem - sl_len local_buf)))"

text \<open>The ranges that \<^verbatim>\<open>mark_dirty\<close> records in the bitmaps.\<close>

fun mark_dirty :: "vslice list \<Rightarrow> nat \<Rightarrow> vslice list" where
  "mark_dirty [] rem = []"
| "mark_dirty (buf # bufs) rem =
     (if rem = 0 then []
      else
        (let local_buf = (if sl_len buf > rem then vs_take rem buf else buf)
         in local_buf # mark_dirty bufs (rem - sl_len local_buf)))"

fun pop_used :: "nat \<Rightarrow> vslice list \<Rightarrow> vslice list" where
  "pop_used rem [] = []"
| "pop_used rem (buf # bufs) =
     (if rem < sl_len buf then vs_drop rem buf # bufs else pop_used (rem - sl_len buf) bufs)"

definition mark_used :: "nat \<Rightarrow> io_buffers \<Rightarrow> unit res \<times> io_buffers" where
  "mark_used n b =
     (if bytes_consumed b + n > USIZE_MAX then (Err (Custom InvalidData), b)
      else (Ok (), \<lparr>buffers = pop_used n (buffers b), bytes_consumed = bytes_consumed b + n\<rparr>))"

text \<open>
  \<^verbatim>\<open>consume\<close> lends the first \<open>count\<close> bytes to a function that works on a state of its own
  and reports how many it used; \<open>mark\<close> is \<open>None\<close> for \<^verbatim>\<open>mark_dirty = false\<close>, and otherwise
  how the dirty ranges are recorded in that state.
\<close>

definition consume ::
  "(vslice list \<Rightarrow> 'st \<Rightarrow> 'st) option \<Rightarrow> nat \<Rightarrow> (vslice list \<Rightarrow> ('st, nat) op) \<Rightarrow>
     io_buffers \<Rightarrow> 'st \<Rightarrow> nat res \<times> io_buffers \<times> 'st" where
  "consume mark count f b st =
     (let bufs = allocate_file_volatile_slice (buffers b) count
      in if bufs = [] then (Ok 0, b, st)
         else
           (case f bufs st of
              (Ok n, st1) \<Rightarrow>
                (let st2 = (case mark of None \<Rightarrow> st1 | Some g \<Rightarrow> g (mark_dirty (buffers b) n) st1)
                 in case mark_used n b of
                      (Ok _, b') \<Rightarrow> (Ok n, b', st2)
                    | (Err e, b') \<Rightarrow> (Err e, b', st2)
                    | (Panic, b') \<Rightarrow> (Panic, b', st2))
            | (Err e, st1) \<Rightarrow> (Err e, b, st1)
            | (Panic, st1) \<Rightarrow> (Panic, b, st1)))"

text \<open>The closure of \<^verbatim>\<open>position\<close>: the index of the slice that holds the offset, and the rest.\<close>

fun split_position :: "vslice list \<Rightarrow> nat \<Rightarrow> nat option \<times> nat" where
  "split_position [] rem = (None, rem)"
| "split_position (buf # bufs) rem =
     (if rem < sl_len buf then (Some 0, rem)
      else (case split_position bufs (rem - sl_len buf) of (pos, r) \<Rightarrow> (map_option Suc pos, r)))"

definition split_at ::
  "nat \<Rightarrow> io_buffers \<Rightarrow> (transport_error, io_buffers) xresult \<times> io_buffers" where
  "split_at offset b =
     (case split_position (buffers b) offset of
        (Some at, rem) \<Rightarrow>
          (let other = drop at (buffers b); self = take at (buffers b)
           in if rem > 0 then
                (case other of
                   [] \<Rightarrow> (XPanic, b\<lparr>buffers := self\<rparr>)
                 | front # tail \<Rightarrow>
                     (XOk \<lparr>buffers = vs_drop rem front # tail, bytes_consumed = 0\<rparr>,
                      b\<lparr>buffers := self @ [vs_take rem front]\<rparr>))
              else (XOk \<lparr>buffers = other, bytes_consumed = 0\<rparr>, b\<lparr>buffers := self\<rparr>))
      | (None, rem) \<Rightarrow>
          if rem = 0 then (XOk io_buffers_default, b) else (XErr (SplitOutOfBounds offset), b))"

section \<open>Reader\<close>

text \<open>The loop of \<^verbatim>\<open>Reader::read\<close> that copies from the slices into the caller's buffer.\<close>

fun copy_from :: "memory \<Rightarrow> vslice list \<Rightarrow> nat \<Rightarrow> bytes" where
  "copy_from m [] rem = []"
| "copy_from m (buf # bufs) rem =
     (let copy_len = min rem (sl_len buf)
      in take copy_len (slice_bytes m buf) @ copy_from m bufs (rem - copy_len))"

definition reader_read :: "memory \<Rightarrow> nat \<Rightarrow> (io_buffers, bytes) op" where
  "reader_read m n r =
     (let data = copy_from m (allocate_file_volatile_slice (buffers r) n) n
      in case consume None n (\<lambda>bufs st. (Ok (length (copy_from m bufs n)), st)) r () of
           (Ok _, r', _) \<Rightarrow> (Ok data, r')
         | (Err e, r', _) \<Rightarrow> (Err e, r')
         | (Panic, r', _) \<Rightarrow> (Panic, r'))"

text \<open>
  \<^verbatim>\<open>Read::read_exact\<close> of the standard library: read until the buffer is full or nothing
  comes any more. The only error of the reader is \<^verbatim>\<open>InvalidData\<close>, so the retry on
  \<^verbatim>\<open>Interrupted\<close> does not arise.
\<close>

function read_exact :: "memory \<Rightarrow> nat \<Rightarrow> (io_buffers, bytes) op" where
  "read_exact m n r =
     (if n = 0 then (Ok [], r)
      else
        (case reader_read m n r of
           (Ok data, r') \<Rightarrow>
             if data = [] then (Err (Custom UnexpectedEof), r')
             else op_bind (read_exact m (n - length data) r') (\<lambda>rest r''. (Ok (data @ rest), r''))
         | (Err e, r') \<Rightarrow> (Err e, r')
         | (Panic, r') \<Rightarrow> (Panic, r')))"
  by pat_completeness auto
termination
  by (relation "measure (\<lambda>(m, n, r). n)") auto

declare read_exact.simps [simp del]

definition read_obj :: "'a codec \<Rightarrow> memory \<Rightarrow> (io_buffers, 'a) op" where
  "read_obj c m r = op_bind (read_exact m (size_of c) r) (\<lambda>bs r'. (Ok (from_slice c bs), r'))"

text \<open>
  \<^verbatim>\<open>read_to_at\<close> lends the slices to the vectored write of a file, which is the parameter
  \<open>write_at\<close> on the state of the file; \<^verbatim>\<open>read_to\<close> likewise without the offset.
\<close>

definition read_to_at ::
  "(vslice list \<Rightarrow> u64 \<Rightarrow> ('f, nat) op) \<Rightarrow> nat \<Rightarrow> u64 \<Rightarrow> io_buffers \<Rightarrow> 'f \<Rightarrow>
     nat res \<times> io_buffers \<times> 'f" where
  "read_to_at write_at count off = consume None count (\<lambda>bufs. write_at bufs off)"

definition read_to ::
  "(vslice list \<Rightarrow> ('f, nat) op) \<Rightarrow> nat \<Rightarrow> io_buffers \<Rightarrow> 'f \<Rightarrow> nat res \<times> io_buffers \<times> 'f" where
  "read_to write count = consume None count write"

section \<open>The sequence of bytes behind the slices\<close>

lemma length_slice_bytes [simp]: "length (slice_bytes m s) = sl_len s"
  by (simp add: slice_bytes_def)

lemma chain_bytes_simps [simp]:
  "chain_bytes m [] = []" "chain_bytes m (s # ss) = slice_bytes m s @ chain_bytes m ss"
  "chain_bytes m (ss @ ts) = chain_bytes m ss @ chain_bytes m ts"
  by (simp_all add: chain_bytes_def)

lemma slice_bytes_take [simp]: "n \<le> sl_len s \<Longrightarrow> slice_bytes m (vs_take n s) = take n (slice_bytes m s)"
  by (simp add: slice_bytes_def vs_take_def take_map)

lemma slice_bytes_drop [simp]: "slice_bytes m (vs_drop n s) = drop n (slice_bytes m s)"
  by (rule nth_equalityI) (auto simp: slice_bytes_def vs_drop_def add.assoc)

lemma vs_len_simps [simp]: "sl_len (vs_take n s) = n" "sl_len (vs_drop n s) = sl_len s - n"
  by (simp_all add: vs_take_def vs_drop_def)

definition chain_len :: "vslice list \<Rightarrow> nat" where
  "chain_len ss = sum_list (map sl_len ss)"

lemma chain_len_simps [simp]:
  "chain_len [] = 0" "chain_len (s # ss) = sl_len s + chain_len ss"
  "chain_len (ss @ ts) = chain_len ss + chain_len ts"
  by (simp_all add: chain_len_def)

lemma length_chain_bytes [simp]: "length (chain_bytes m ss) = chain_len ss"
  by (induction ss) auto

lemma available_bytes_eq: "available_bytes b = chain_len (buffers b)"
proof -
  have "foldl (\<lambda>count buf. count + sl_len buf) n ss = n + chain_len ss" for n ss
    by (induction ss arbitrary: n) auto
  then show ?thesis by (simp add: available_bytes_def)
qed

lemma allocate_bytes: "chain_bytes m (allocate_file_volatile_slice ss n) = take n (chain_bytes m ss)"
  by (induction ss arbitrary: n) (auto simp: Let_def)

lemma allocate_len: "chain_len (allocate_file_volatile_slice ss n) = min n (chain_len ss)"
  by (induction ss arbitrary: n) (auto simp: Let_def)

lemma mark_dirty_eq: "mark_dirty ss n = allocate_file_volatile_slice ss n"
  by (induction ss arbitrary: n) (auto simp: Let_def)

lemma pop_used_bytes: "chain_bytes m (pop_used n ss) = drop n (chain_bytes m ss)"
  by (induction ss arbitrary: n) auto

lemma pop_used_len [simp]: "chain_len (pop_used n ss) = chain_len ss - n"
  by (induction ss arbitrary: n) auto

lemma copy_from_eq: "copy_from m ss n = take n (chain_bytes m ss)"
  by (induction ss arbitrary: n) (auto simp: Let_def min_def)

text \<open>The addresses a chain covers, in order.\<close>

definition chain_addrs :: "vslice list \<Rightarrow> nat list" where
  "chain_addrs ss = concat (map (\<lambda>s. [sl_addr s..<sl_addr s + sl_len s]) ss)"

lemma chain_addrs_simps [simp]:
  "chain_addrs [] = []" "chain_addrs (s # ss) = [sl_addr s..<sl_addr s + sl_len s] @ chain_addrs ss"
  "chain_addrs (ss @ ts) = chain_addrs ss @ chain_addrs ts"
  by (simp_all add: chain_addrs_def)

lemma length_chain_addrs [simp]: "length (chain_addrs ss) = chain_len ss"
  by (induction ss) auto

lemma slice_bytes_addrs: "slice_bytes m s = map m [sl_addr s..<sl_addr s + sl_len s]"
  by (rule nth_equalityI) (auto simp: slice_bytes_def)

lemma chain_bytes_addrs: "chain_bytes m ss = map m (chain_addrs ss)"
  by (induction ss) (auto simp: slice_bytes_addrs)

lemma allocate_addrs: "chain_addrs (allocate_file_volatile_slice ss n) = take n (chain_addrs ss)"
  by (induction ss arbitrary: n) (auto simp: Let_def vs_take_def take_upt)

lemma pop_used_addrs: "chain_addrs (pop_used n ss) = drop n (chain_addrs ss)"
  by (induction ss arbitrary: n) (auto simp: vs_drop_def drop_upt)

section \<open>The reader as a sequence of bytes\<close>

definition reader_wf :: "io_buffers \<Rightarrow> bool" where
  "reader_wf r \<longleftrightarrow> bytes_consumed r + chain_len (buffers r) \<le> USIZE_MAX"

definition reader_bytes :: "memory \<Rightarrow> io_buffers \<Rightarrow> bytes" where
  "reader_bytes m r = chain_bytes m (buffers r)"

lemma length_reader_bytes [simp]: "length (reader_bytes m r) = available_bytes r"
  by (simp add: reader_bytes_def available_bytes_eq)

lemma reader_read_spec:
  assumes "reader_wf r"
  obtains r' where "reader_read m n r = (Ok (take n (reader_bytes m r)), r')" "reader_wf r'"
    "reader_bytes m r' = drop n (reader_bytes m r)"
    "bytes_consumed r' = bytes_consumed r + min n (available_bytes r)"
proof -
  let ?ss = "buffers r"
  let ?k = "min n (chain_len ?ss)"
  have copy: "copy_from m (allocate_file_volatile_slice ?ss n) n = take n (chain_bytes m ?ss)"
    by (simp add: copy_from_eq allocate_bytes)
  show ?thesis
  proof (cases "allocate_file_volatile_slice ?ss n = []")
    case True
    then have "take n (chain_bytes m ?ss) = []" using allocate_bytes [of m ?ss n] by simp
    with True copy have "reader_read m n r = (Ok (take n (reader_bytes m r)), r)"
      by (simp add: reader_read_def consume_def reader_bytes_def)
    moreover have "drop n (chain_bytes m ?ss) = chain_bytes m ?ss"
      using \<open>take n (chain_bytes m ?ss) = []\<close> by auto
    moreover have "min n (chain_len ?ss) = 0"
      using arg_cong [OF \<open>take n (chain_bytes m ?ss) = []\<close>, of length] by simp
    ultimately show ?thesis using that [of r] assms by (simp add: reader_bytes_def available_bytes_eq)
  next
    case False
    let ?r' = "\<lparr>buffers = pop_used ?k ?ss, bytes_consumed = bytes_consumed r + ?k\<rparr>"
    have "\<not> bytes_consumed r + ?k > USIZE_MAX" using assms by (auto simp: reader_wf_def)
    then have "reader_read m n r = (Ok (take n (reader_bytes m r)), ?r')"
      using False copy by (simp add: reader_read_def consume_def mark_used_def reader_bytes_def min.commute)
    moreover have "reader_wf ?r'" using assms by (auto simp: reader_wf_def)
    moreover have "drop ?k (chain_bytes m ?ss) = drop n (chain_bytes m ?ss)" by (simp add: min_def)
    ultimately show ?thesis
      using that [of ?r'] by (simp add: reader_bytes_def pop_used_bytes available_bytes_eq)
  qed
qed

lemma read_exact_ok:
  assumes "reader_wf r" and "n \<le> available_bytes r"
  obtains r' where "read_exact m n r = (Ok (take n (reader_bytes m r)), r')" "reader_wf r'"
    "reader_bytes m r' = drop n (reader_bytes m r)"
proof (cases "n = 0")
  case True
  then show ?thesis using that [of r] assms by (simp add: read_exact.simps)
next
  case False
  obtain r' where r': "reader_read m n r = (Ok (take n (reader_bytes m r)), r')" "reader_wf r'"
      "reader_bytes m r' = drop n (reader_bytes m r)"
    using reader_read_spec [OF assms(1)] by metis
  have len: "length (take n (reader_bytes m r)) = n" using assms(2) by simp
  moreover have "take n (reader_bytes m r) \<noteq> []" using False len by (metis list.size(3))
  ultimately have "read_exact m n r = (Ok (take n (reader_bytes m r)), r')"
    using False r'(1) by (simp add: read_exact.simps [of m n] read_exact.simps [of m 0])
  with r' that show ?thesis by blast
qed

lemma read_exact_eof:
  assumes "reader_wf r" and "available_bytes r < n"
  shows "\<exists>r'. read_exact m n r = (Err (Custom UnexpectedEof), r') \<and> reader_wf r' \<and> available_bytes r' = 0"
  using assms
proof (induction m n r rule: read_exact.induct)
  case (1 m n r)
  obtain r' where r': "reader_read m n r = (Ok (reader_bytes m r), r')" "reader_wf r'"
      "reader_bytes m r' = []"
    using reader_read_spec [OF 1(2), of m n] 1(3) by auto
  have av: "available_bytes r' = 0" using r'(3) length_reader_bytes [of m r'] by simp
  show ?case
  proof (cases "reader_bytes m r = []")
    case True
    with r' 1(3) av show ?thesis by (simp add: read_exact.simps [of m n])
  next
    case False
    have "available_bytes r' < n - length (reader_bytes m r)" using 1(3) av by simp
    then obtain r'' where "read_exact m (n - length (reader_bytes m r)) r' = (Err (Custom UnexpectedEof), r'')"
        "reader_wf r''" "available_bytes r'' = 0"
      using 1(1) [OF _ r'(1) [symmetric] refl False r'(2)] 1(3) by auto
    with False r'(1) 1(3) show ?thesis by (simp add: read_exact.simps [of m n])
  qed
qed

section \<open>The contract of a byte source\<close>

text \<open>The reader over a memory provides the byte source that the decoding of requests relies on.\<close>

interpretation reader: byte_source reader_wf "reader_bytes m" "read_exact m" for m
proof
  fix r n
  assume "reader_wf r" "n \<le> length (reader_bytes m r)"
  then obtain r' where "read_exact m n r = (Ok (take n (reader_bytes m r)), r')" "reader_wf r'"
      "reader_bytes m r' = drop n (reader_bytes m r)"
    using read_exact_ok [of r n m] by auto
  then show "\<exists>r'. read_exact m n r = (Ok (take n (reader_bytes m r)), r') \<and> reader_wf r' \<and>
      reader_bytes m r' = drop n (reader_bytes m r)" by blast
next
  fix r n
  assume "reader_wf r" "length (reader_bytes m r) < n"
  then show "\<exists>r'. read_exact m n r = (Err (Custom UnexpectedEof), r') \<and> reader_wf r' \<and>
      reader_bytes m r' = []"
    using read_exact_eof [of r n m] length_reader_bytes [of m] by (metis length_0_conv)
qed

section \<open>Splitting\<close>

lemma split_position_None:
  "split_position ss n = (None, r) \<Longrightarrow> r = n - chain_len ss \<and> chain_len ss \<le> n"
proof (induction ss arbitrary: n)
  case (Cons s ss)
  then have "\<not> n < sl_len s" "split_position ss (n - sl_len s) = (None, r)"
    by (auto split: if_splits prod.splits)
  then show ?case using Cons.IH [of "n - sl_len s"] by auto
qed simp

lemma split_position_Some:
  "split_position ss n = (Some at, r) \<Longrightarrow>
     at < length ss \<and> n = chain_len (take at ss) + r \<and> r < sl_len (ss ! at)"
proof (induction ss arbitrary: n at)
  case (Cons s ss)
  show ?case
  proof (cases "n < sl_len s")
    case False
    then obtain at' where "at = Suc at'" "split_position ss (n - sl_len s) = (Some at', r)"
      using Cons.prems by (auto split: prod.splits)
    then show ?thesis using Cons.IH [of "n - sl_len s" at'] False by auto
  qed (use Cons.prems in auto)
qed simp

lemma split_at_ok:
  assumes "n \<le> available_bytes b"
  obtains o1 b1 where "split_at n b = (XOk o1, b1)" "bytes_consumed o1 = 0"
    "bytes_consumed b1 = bytes_consumed b" "chain_len (buffers b1) = n"
    "chain_len (buffers o1) = available_bytes b - n"
    "\<And>m. chain_bytes m (buffers b1) @ chain_bytes m (buffers o1) = chain_bytes m (buffers b)"
proof (cases "split_position (buffers b) n")
  case (Pair pos r)
  show ?thesis
  proof (cases pos)
    case None
    then have "r = 0" "chain_len (buffers b) = n"
      using Pair split_position_None [of "buffers b" n r] assms by (auto simp: available_bytes_eq)
    with None Pair show ?thesis
      by (intro that [of io_buffers_default b])
        (simp_all add: split_at_def io_buffers_default_def available_bytes_eq)
  next
    case (Some at)
    let ?front = "buffers b ! at"
    have at: "at < length (buffers b)" "n = chain_len (take at (buffers b)) + r" "r < sl_len ?front"
      using Pair Some split_position_Some [of "buffers b" n at r] by auto
    have drop: "drop at (buffers b) = ?front # drop (Suc at) (buffers b)"
      using at(1) by (simp add: Cons_nth_drop_Suc)
    have all: "buffers b = take at (buffers b) @ ?front # drop (Suc at) (buffers b)"
      using at(1) by (simp add: id_take_nth_drop)
    then have len: "available_bytes b = chain_len (take at (buffers b)) + sl_len ?front +
        chain_len (drop (Suc at) (buffers b))"
      unfolding available_bytes_eq by (metis add.assoc chain_len_simps(2,3))
    have bytes: "chain_bytes m (buffers b) = chain_bytes m (take at (buffers b)) @ slice_bytes m ?front @
        chain_bytes m (drop (Suc at) (buffers b))" for m
      using all by (metis chain_bytes_simps(2,3))
    show ?thesis
    proof (cases "r > 0")
      case True
      with Pair Some drop at len bytes show ?thesis
        by (intro that [of "\<lparr>buffers = vs_drop r ?front # drop (Suc at) (buffers b), bytes_consumed = 0\<rparr>"
              "b\<lparr>buffers := take at (buffers b) @ [vs_take r ?front]\<rparr>"])
          (simp_all add: split_at_def)
    next
      case False
      with Pair Some drop at len bytes show ?thesis
        by (intro that [of "\<lparr>buffers = drop at (buffers b), bytes_consumed = 0\<rparr>"
              "b\<lparr>buffers := take at (buffers b)\<rparr>"])
          (simp_all add: split_at_def)
    qed
  qed
qed

lemma split_at_out_of_bounds:
  assumes "available_bytes b < n"
  shows "split_at n b = (XErr (SplitOutOfBounds n), b)"
proof (cases "split_position (buffers b) n")
  case (Pair pos r)
  show ?thesis
  proof (cases pos)
    case None
    then show ?thesis using Pair split_position_None [of "buffers b" n r] assms
      by (simp add: split_at_def available_bytes_eq)
  next
    case (Some at)
    then have at: "at < length (buffers b)" "n = chain_len (take at (buffers b)) + r" "r < sl_len (buffers b ! at)"
      using Pair split_position_Some [of "buffers b" n at r] by auto
    have "chain_len (buffers b) = chain_len (take at (buffers b)) + sl_len (buffers b ! at) +
        chain_len (drop (Suc at) (buffers b))"
      using id_take_nth_drop [OF at(1)] by (metis add.assoc chain_len_simps(2,3))
    with at assms show ?thesis by (simp add: available_bytes_eq)
  qed
qed

section \<open>Properties\<close>

text \<open>
  (C9) The reader implements a plain sequence of bytes, however the request is scattered over
  slices of memory. Reading exactly \<open>n\<close> bytes yields the next \<open>n\<close> bytes and leaves the rest;
  with fewer left it fails with \<^verbatim>\<open>UnexpectedEof\<close>. Splitting at an offset cuts the sequence
  there, and is refused exactly when the offset lies beyond the end.
\<close>

theorem reader_refines_stream:
  assumes "reader_wf r"
  shows "(\<exists>r'. read_exact m n r =
            (if n \<le> length (reader_bytes m r) then Ok (take n (reader_bytes m r)) else Err (Custom UnexpectedEof), r') \<and>
          reader_wf r' \<and> reader_bytes m r' = drop n (reader_bytes m r)) \<and>
    (if n \<le> length (reader_bytes m r)
     then \<exists>r1 r2. split_at n r = (XOk r2, r1) \<and> reader_wf r1 \<and> reader_wf r2 \<and>
            reader_bytes m r1 = take n (reader_bytes m r) \<and> reader_bytes m r2 = drop n (reader_bytes m r)
     else split_at n r = (XErr (SplitOutOfBounds n), r))"
proof (cases "n \<le> length (reader_bytes m r)")
  case True
  then have "n \<le> available_bytes r" by simp
  then obtain r2 r1 where s: "split_at n r = (XOk r2, r1)" "bytes_consumed r2 = 0"
      "bytes_consumed r1 = bytes_consumed r" "chain_len (buffers r1) = n"
      "chain_len (buffers r2) = available_bytes r - n"
      "chain_bytes m (buffers r1) @ chain_bytes m (buffers r2) = chain_bytes m (buffers r)"
    by (rule split_at_ok) blast
  have "reader_wf r1" "reader_wf r2"
    using s assms True by (auto simp: reader_wf_def available_bytes_eq)
  moreover have "reader_bytes m r1 = take n (reader_bytes m r)" "reader_bytes m r2 = drop n (reader_bytes m r)"
    using s(4,6) by (simp_all add: reader_bytes_def flip: s(6))
  ultimately show ?thesis using True s(1) reader.fetch_ok [OF assms True] by auto
next
  case False
  then show ?thesis
    using reader.fetch_eof [OF assms, of m n] split_at_out_of_bounds [of r n] by auto
qed

theorem reader_refines_stream_witness:
  "let r = \<lparr>buffers = [\<lparr>sl_addr = 10, sl_len = 2\<rparr>, \<lparr>sl_addr = 4, sl_len = 3\<rparr>], bytes_consumed = 0\<rparr>
   in \<exists>r'. read_exact of_nat 4 r = (Ok [10, 11, 4, 5], r') \<and> reader_bytes of_nat r' = [6]"
proof -
  let ?r = "\<lparr>buffers = [\<lparr>sl_addr = 10, sl_len = 2\<rparr>, \<lparr>sl_addr = 4, sl_len = 3\<rparr>], bytes_consumed = 0\<rparr>"
  have wf: "reader_wf ?r" by (simp add: reader_wf_def USIZE_MAX_def)
  have bytes: "reader_bytes of_nat ?r = [10, 11, 4, 5, 6]"
    by (simp add: reader_bytes_def slice_bytes_def upt_rec)
  show ?thesis using reader_refines_stream [OF wf, of of_nat 4] unfolding bytes Let_def by auto
qed

end
