(* ===== verification/Writers.thy ===== *)
theory Writers
  imports Io_Buffers
begin

text \<open>
  The writers that carry a reply back (\<^verbatim>\<open>transport/mod.rs\<close>, \<^verbatim>\<open>transport/fusedev/mod.rs\<close> and
  \<^verbatim>\<open>transport/virtiofs/mod.rs\<close>). The virtio-fs writer copies into the slices of guest memory and
  records them as dirty. The FUSE device writer either sends each write to the device at once,
  or, once it was split, collects the parts and sends them with \<^verbatim>\<open>commit\<close>.

  The device is a parameter: \<open>dev log msg\<close> is what \<^verbatim>\<open>write(2)\<close> or \<^verbatim>\<open>writev(2)\<close> of the message
  returns after the messages in \<open>log\<close>, a count or an error number.
\<close>

section \<open>The world behind a writer\<close>

record world =
  wd_mem :: memory
  wd_dirty :: "vslice list"
  wd_dev :: "bytes list"

type_synonym device = "bytes list \<Rightarrow> bytes \<Rightarrow> int + nat"

section \<open>Writing to virtio-fs buffers\<close>

definition mem_store :: "nat \<Rightarrow> bytes \<Rightarrow> memory \<Rightarrow> memory" where
  "mem_store a bs m = (\<lambda>x. if a \<le> x \<and> x < a + length bs then bs ! (x - a) else m x)"

text \<open>The copy loop of \<^verbatim>\<open>VirtioFsWriter::write\<close>: the memory it leaves and the total it returns.\<close>

fun copy_to :: "vslice list \<Rightarrow> bytes \<Rightarrow> memory \<Rightarrow> nat \<times> memory" where
  "copy_to [] rem m = (0, m)"
| "copy_to (buf # bufs) rem m =
     (let copy_len = min (length rem) (sl_len buf);
          (total, m') = copy_to bufs (drop copy_len rem) (mem_store (sl_addr buf) (take copy_len rem) m)
      in (copy_len + total, m'))"

definition vw_check_available_space :: "nat \<Rightarrow> nat \<Rightarrow> nat \<Rightarrow> io_buffers \<Rightarrow> unit res" where
  "vw_check_available_space len1 len2 len3 w =
     (if len1 + len2 > USIZE_MAX then Err (Custom InvalidData)
      else if len1 + len2 + len3 > USIZE_MAX then Err (Custom InvalidData)
      else if len1 + len2 + len3 > available_bytes w then Err (Custom InvalidData)
      else Ok ())"

definition add_dirty :: "vslice list \<Rightarrow> world \<Rightarrow> world" where
  "add_dirty ss wd = wd\<lparr>wd_dirty := wd_dirty wd @ ss\<rparr>"

definition vw_write :: "bytes \<Rightarrow> io_buffers \<Rightarrow> world \<Rightarrow> nat res \<times> io_buffers \<times> world" where
  "vw_write data w wd =
     (case vw_check_available_space (length data) 0 0 w of
        Ok _ \<Rightarrow>
          consume (Some add_dirty) (length data)
            (\<lambda>bufs wd. case copy_to bufs data (wd_mem wd) of (n, m) \<Rightarrow> (Ok n, wd\<lparr>wd_mem := m\<rparr>)) w wd
      | Err e \<Rightarrow> (Err e, w, wd)
      | Panic \<Rightarrow> (Panic, w, wd))"

fun vw_write_each :: "bytes list \<Rightarrow> nat \<Rightarrow> io_buffers \<Rightarrow> world \<Rightarrow> nat res \<times> io_buffers \<times> world" where
  "vw_write_each [] count w wd = (Ok count, w, wd)"
| "vw_write_each (buf # bufs) count w wd =
     (if buf = [] then vw_write_each bufs count w wd
      else
        (case vw_write buf w wd of
           (Ok n, w', wd') \<Rightarrow> vw_write_each bufs (count + n) w' wd'
         | (Err e, w', wd') \<Rightarrow> (Err e, w', wd')
         | (Panic, w', wd') \<Rightarrow> (Panic, w', wd')))"

definition vw_write_vectored :: "bytes list \<Rightarrow> io_buffers \<Rightarrow> world \<Rightarrow> nat res \<times> io_buffers \<times> world" where
  "vw_write_vectored bufs w wd =
     (case vw_check_available_space (foldl (\<lambda>acc x. acc + length x) 0 bufs) 0 0 w of
        Ok _ \<Rightarrow> vw_write_each bufs 0 w wd
      | Err e \<Rightarrow> (Err e, w, wd)
      | Panic \<Rightarrow> (Panic, w, wd))"

text \<open>
  \<^verbatim>\<open>write_from_at\<close> lends the slices to the vectored read of a file, the parameter \<open>read_at\<close>.
\<close>

definition vw_write_from_at ::
  "(vslice list \<Rightarrow> u64 \<Rightarrow> (world, nat) op) \<Rightarrow> nat \<Rightarrow> u64 \<Rightarrow> io_buffers \<Rightarrow> world \<Rightarrow>
     nat res \<times> io_buffers \<times> world" where
  "vw_write_from_at read_at count off w wd =
     (case vw_check_available_space count 0 0 w of
        Ok _ \<Rightarrow> consume (Some add_dirty) count (\<lambda>bufs. read_at bufs off) w wd
      | Err e \<Rightarrow> (Err e, w, wd)
      | Panic \<Rightarrow> (Panic, w, wd))"

section \<open>Writing to the FUSE device\<close>

text \<open>
  The vector \<^verbatim>\<open>buf\<close> of \<^verbatim>\<open>FuseDevWriter\<close> lies over the caller's buffer: \<open>fw_store\<close> is that
  memory, its length the capacity, and the first \<open>fw_len\<close> bytes are the vector's content.
\<close>

record fusedev_writer =
  fw_buffered :: bool
  fw_store :: bytes
  fw_len :: nat

text \<open>\<^verbatim>\<open>Reader::from_fuse_buffer\<close>: one slice over the buffer the device filled.\<close>

definition from_fuse_buffer :: "nat \<Rightarrow> nat \<Rightarrow> io_buffers" where
  "from_fuse_buffer addr len = \<lparr>buffers = [\<lparr>sl_addr = addr, sl_len = len\<rparr>], bytes_consumed = 0\<rparr>"

definition fw_new :: "bytes \<Rightarrow> fusedev_writer" where
  "fw_new data_buf = \<lparr>fw_buffered = False, fw_store = data_buf, fw_len = 0\<rparr>"

definition fw_slice :: "fusedev_writer \<Rightarrow> bytes" where
  "fw_slice w = take (fw_len w) (fw_store w)"

definition fw_split_at ::
  "nat \<Rightarrow> fusedev_writer \<Rightarrow> (transport_error, fusedev_writer) xresult \<times> fusedev_writer" where
  "fw_split_at offset w =
     (if length (fw_store w) < offset then (XErr (SplitOutOfBounds offset), w)
      else
        (let (len1, len2) = (if fw_len w > offset then (offset, fw_len w - offset) else (fw_len w, 0))
         in (XOk \<lparr>fw_buffered = True, fw_store = drop offset (fw_store w), fw_len = len2\<rparr>,
             \<lparr>fw_buffered = True, fw_store = take offset (fw_store w), fw_len = len1\<rparr>)))"

definition fw_bytes_written :: "fusedev_writer \<Rightarrow> nat" where
  "fw_bytes_written w = fw_len w"

definition fw_available_bytes :: "fusedev_writer \<Rightarrow> nat" where
  "fw_available_bytes w = length (fw_store w) - fw_len w"

definition fw_account_written :: "nat \<Rightarrow> fusedev_writer \<Rightarrow> fusedev_writer" where
  "fw_account_written count w = w\<lparr>fw_len := fw_len w + count\<rparr>"

definition fw_check_available_space :: "nat \<Rightarrow> fusedev_writer \<Rightarrow> unit res" where
  "fw_check_available_space sz w =
     (if \<not> (fw_buffered w \<or> fw_len w = 0) then Panic
      else if sz > fw_available_bytes w then Err (Custom InvalidData)
      else Ok ())"

text \<open>\<^verbatim>\<open>Vec::extend_from_slice\<close> within the capacity.\<close>

definition fw_extend :: "bytes \<Rightarrow> fusedev_writer \<Rightarrow> fusedev_writer" where
  "fw_extend data w =
     w\<lparr>fw_store := take (fw_len w) (fw_store w) @ data @ drop (fw_len w + length data) (fw_store w),
       fw_len := fw_len w + length data\<rparr>"

text \<open>One \<^verbatim>\<open>write\<close> or \<^verbatim>\<open>writev\<close> on the device.\<close>

definition dev_send :: "device \<Rightarrow> bytes \<Rightarrow> world \<Rightarrow> (int + nat) \<times> world" where
  "dev_send dev data wd =
     (case dev (wd_dev wd) data of
        Inl e \<Rightarrow> (Inl e, wd)
      | Inr n \<Rightarrow> (Inr n, wd\<lparr>wd_dev := wd_dev wd @ [take n data]\<rparr>))"

definition fw_write ::
  "device \<Rightarrow> bytes \<Rightarrow> fusedev_writer \<Rightarrow> world \<Rightarrow> nat res \<times> fusedev_writer \<times> world" where
  "fw_write dev data w wd =
     (case fw_check_available_space (length data) w of
        Ok _ \<Rightarrow>
          if fw_buffered w then (Ok (length data), fw_extend data w, wd)
          else
            (case dev_send dev data wd of
               (Inl e, wd') \<Rightarrow> (Err (Custom Other), w, wd')
             | (Inr n, wd') \<Rightarrow> (Ok n, fw_account_written n w, wd'))
      | Err e \<Rightarrow> (Err e, w, wd)
      | Panic \<Rightarrow> (Panic, w, wd))"

definition fw_write_vectored ::
  "device \<Rightarrow> bytes list \<Rightarrow> fusedev_writer \<Rightarrow> world \<Rightarrow> nat res \<times> fusedev_writer \<times> world" where
  "fw_write_vectored dev bufs w wd =
     (case fw_check_available_space (foldl (\<lambda>acc x. acc + length x) 0 bufs) w of
        Ok _ \<Rightarrow>
          if fw_buffered w then
            (case fold (\<lambda>b (acc, w). (acc + length b, fw_extend b w)) (filter (\<lambda>b. b \<noteq> []) bufs) (0, w) of
               (count, w') \<Rightarrow> (Ok count, w', wd))
          else if bufs = [] then (Ok 0, w, wd)
          else
            (case dev_send dev (concat bufs) wd of
               (Inl e, wd') \<Rightarrow> (Err (Custom Other), w, wd')
             | (Inr n, wd') \<Rightarrow> (Ok n, fw_account_written n w, wd'))
      | Err e \<Rightarrow> (Err e, w, wd)
      | Panic \<Rightarrow> (Panic, w, wd))"

text \<open>
  \<^verbatim>\<open>write_from_at\<close>: the file fills the free part of the vector, which the parameter
  \<open>read_at\<close> yields as the bytes it read.
\<close>

definition fw_write_from_at ::
  "device \<Rightarrow> (nat \<Rightarrow> u64 \<Rightarrow> bytes res) \<Rightarrow> nat \<Rightarrow> u64 \<Rightarrow> fusedev_writer \<Rightarrow> world \<Rightarrow>
     nat res \<times> fusedev_writer \<times> world" where
  "fw_write_from_at dev read_at count off w wd =
     (case fw_check_available_space count w of
        Ok _ \<Rightarrow>
          (case read_at count off of
             Ok data \<Rightarrow>
               (let w' = fw_extend data w
                in if fw_buffered w then (Ok (length data), w', wd)
                   else
                     (case dev_send dev (take (length data) (fw_store w')) wd of
                        (Inl e, wd') \<Rightarrow> (Err (Custom Other), w', wd')
                      | (Inr n, wd') \<Rightarrow> (Ok n, w', wd')))
           | Err e \<Rightarrow> (Err e, w, wd)
           | Panic \<Rightarrow> (Panic, w, wd))
      | Err e \<Rightarrow> (Err e, w, wd)
      | Panic \<Rightarrow> (Panic, w, wd))"

section \<open>The writer of a reply\<close>

datatype writer = FuseDev fusedev_writer | VirtioFs io_buffers | Noop

fun w_split_at :: "nat \<Rightarrow> writer \<Rightarrow> (transport_error, writer) xresult \<times> writer" where
  "w_split_at offset (FuseDev w) =
     (case fw_split_at offset w of (r, w') \<Rightarrow> (xbind r (\<lambda>v. XOk (FuseDev v)), FuseDev w'))"
| "w_split_at offset (VirtioFs w) =
     (case split_at offset w of (r, w') \<Rightarrow> (xbind r (\<lambda>v. XOk (VirtioFs v)), VirtioFs w'))"
| "w_split_at offset Noop = (XErr InvalidParameter, Noop)"

fun w_available_bytes :: "writer \<Rightarrow> nat" where
  "w_available_bytes (FuseDev w) = fw_available_bytes w"
| "w_available_bytes (VirtioFs w) = available_bytes w"
| "w_available_bytes Noop = 0"

fun w_bytes_written :: "writer \<Rightarrow> nat" where
  "w_bytes_written (FuseDev w) = fw_bytes_written w"
| "w_bytes_written (VirtioFs w) = bytes_consumed w"
| "w_bytes_written Noop = 0"

text \<open>\<^verbatim>\<open>FuseDevWriter::commit\<close> sends what this writer and the other one collected as one message.\<close>

fun fw_other :: "writer option \<Rightarrow> bytes" where
  "fw_other (Some (FuseDev w)) = fw_slice w"
| "fw_other _ = []"

definition fw_commit :: "device \<Rightarrow> writer option \<Rightarrow> fusedev_writer \<Rightarrow> world \<Rightarrow> nat res \<times> world" where
  "fw_commit dev other w wd =
     (if \<not> fw_buffered w then (Ok 0, wd)
      else if fw_len w = 0 \<and> length (fw_other other) = 0 then (Ok 0, wd)
      else
        (case dev_send dev (fw_slice w @ fw_other other) wd of
           (Inl e, wd') \<Rightarrow> (Err (Os e), wd')
         | (Inr n, wd') \<Rightarrow> (Ok n, wd')))"

fun w_commit :: "device \<Rightarrow> writer option \<Rightarrow> writer \<Rightarrow> world \<Rightarrow> nat res \<times> world" where
  "w_commit dev other (FuseDev w) wd = fw_commit dev other w wd"
| "w_commit dev other (VirtioFs w) wd = (Ok 0, wd)"
| "w_commit dev other Noop wd = (Ok 0, wd)"

fun w_write :: "device \<Rightarrow> bytes \<Rightarrow> writer \<times> world \<Rightarrow> nat res \<times> writer \<times> world" where
  "w_write dev data (FuseDev w, wd) =
     (case fw_write dev data w wd of (r, w', wd') \<Rightarrow> (r, FuseDev w', wd'))"
| "w_write dev data (VirtioFs w, wd) =
     (case vw_write data w wd of (r, w', wd') \<Rightarrow> (r, VirtioFs w', wd'))"
| "w_write dev data (Noop, wd) = (Err (Os EINVAL), Noop, wd)"

fun w_write_vectored :: "device \<Rightarrow> bytes list \<Rightarrow> writer \<times> world \<Rightarrow> nat res \<times> writer \<times> world" where
  "w_write_vectored dev bufs (FuseDev w, wd) =
     (case fw_write_vectored dev bufs w wd of (r, w', wd') \<Rightarrow> (r, FuseDev w', wd'))"
| "w_write_vectored dev bufs (VirtioFs w, wd) =
     (case vw_write_vectored bufs w wd of (r, w', wd') \<Rightarrow> (r, VirtioFs w', wd'))"
| "w_write_vectored dev bufs (Noop, wd) = (Err (Os EINVAL), Noop, wd)"

text \<open>
  \<^verbatim>\<open>Write::write_all\<close> of the standard library. The writers never fail with \<^verbatim>\<open>Interrupted\<close>,
  so its retry does not arise; a count beyond the data is an index out of range.
\<close>

function write_all :: "device \<Rightarrow> bytes \<Rightarrow> (writer \<times> world, unit) op" where
  "write_all dev data w =
     (if data = [] then (Ok (), w)
      else
        (case w_write dev data w of
           (Ok n, w') \<Rightarrow>
             if n = 0 then (Err (Custom WriteZero), w')
             else if n > length data then (Panic, w')
             else write_all dev (drop n data) w'
         | (Err e, w') \<Rightarrow> (Err e, w')
         | (Panic, w') \<Rightarrow> (Panic, w')))"
  by pat_completeness auto
termination
  by (relation "measure (\<lambda>(dev, data, w). length data)") auto

declare write_all.simps [simp del]

section \<open>Memory of the guest\<close>

text \<open>Storing bytes at a list of addresses, one by one.\<close>

fun store_list :: "nat list \<Rightarrow> bytes \<Rightarrow> memory \<Rightarrow> memory" where
  "store_list (a # as) (b # bs) m = store_list as bs (\<lambda>x. if x = a then b else m x)"
| "store_list _ _ m = m"

lemma store_list_outside: "x \<notin> set as \<Longrightarrow> store_list as bs m x = m x"
  by (induction as bs m rule: store_list.induct) auto

lemma store_list_outside' : "x \<notin> set (take (length bs) as) \<Longrightarrow> store_list as bs m x = m x"
  by (induction as bs m rule: store_list.induct) auto

lemma store_list_inside:
  "distinct as \<Longrightarrow> length bs \<le> length as \<Longrightarrow> map (store_list as bs m) (take (length bs) as) = bs"
proof (induction as bs m rule: store_list.induct)
  case (1 a as b bs m)
  then show ?case by (simp add: store_list_outside)
qed auto

lemma store_list_Nil [simp]: "store_list as [] m = m"
  by (cases as) auto

lemma mem_store_eq: "mem_store a bs m = store_list [a..<a + length bs] bs m"
proof (induction bs arbitrary: a m)
  case Nil
  show ?case by (rule ext) (auto simp: mem_store_def)
next
  case (Cons b bs)
  have "mem_store a (b # bs) m = mem_store (Suc a) bs (\<lambda>x. if x = a then b else m x)"
    by (rule ext) (auto simp: mem_store_def nth_Cons' Suc_diff_le)
  then show ?case using Cons.IH [of "Suc a" "\<lambda>x. if x = a then b else m x"] by (simp add: upt_conv_Cons del: upt_Suc)
qed

lemma store_list_take: "store_list (take (length bs) as) bs m = store_list as bs m"
  by (induction as bs m rule: store_list.induct) auto

lemma store_list_take_bytes: "store_list as (take (length as) bs) m = store_list as bs m"
  by (induction as bs m rule: store_list.induct) auto

lemma store_list_split:
  "store_list (as @ as') bs m = store_list as' (drop (length as) bs) (store_list as bs m)"
  by (induction as bs m rule: store_list.induct) auto

lemma copy_to_eq:
  "copy_to ss data m = (min (length data) (chain_len ss), store_list (chain_addrs ss) data m)"
proof (induction ss arbitrary: data m)
  case Nil
  then show ?case by simp
next
  case (Cons s ss)
  let ?k = "min (length data) (sl_len s)"
  let ?as = "[sl_addr s..<sl_addr s + sl_len s]"
  have "[sl_addr s..<sl_addr s + ?k] = take ?k ?as" by (simp add: take_upt)
  then have "mem_store (sl_addr s) (take ?k data) m = store_list ?as (take ?k data) m"
    using store_list_take [of "take ?k data" ?as m] by (simp add: mem_store_eq)
  also have "\<dots> = store_list ?as data m"
    using store_list_take_bytes [of ?as data m] by (cases "length data \<le> sl_len s") (simp_all add: min_def)
  finally have "mem_store (sl_addr s) (take ?k data) m = store_list ?as data m" .
  moreover have "drop ?k data = drop (length ?as) data" by (simp add: min_def)
  ultimately show ?case
    using Cons.IH by (auto simp: Let_def store_list_split simp del: upt_Suc)
qed

section \<open>Both writers are sinks of bytes\<close>

text \<open>The writer of the FUSE device, once it is buffered.\<close>

fun fd_inv :: "writer \<times> world \<Rightarrow> bool" where
  "fd_inv (FuseDev w, wd) \<longleftrightarrow> fw_buffered w \<and> fw_len w \<le> length (fw_store w)"
| "fd_inv _ \<longleftrightarrow> False"

fun fd_written :: "writer \<times> world \<Rightarrow> bytes" where
  "fd_written (FuseDev w, wd) = fw_slice w"
| "fd_written _ = []"

definition w_room :: "writer \<times> world \<Rightarrow> nat" where
  "w_room s = w_available_bytes (fst s)"

lemma fw_extend_simps:
  assumes "fw_len w + length d \<le> length (fw_store w)"
  shows "length (fw_store (fw_extend d w)) = length (fw_store w)" "fw_slice (fw_extend d w) = fw_slice w @ d"
    "fw_len (fw_extend d w) = fw_len w + length d" "fw_buffered (fw_extend d w) = fw_buffered w"
  using assms by (simp_all add: fw_extend_def fw_slice_def)

lemma write_all_done:
  "w_write dev d s = (Ok (length d), s') \<Longrightarrow> d \<noteq> [] \<Longrightarrow> write_all dev d s = (Ok (), s')"
  by (simp add: write_all.simps [of dev d] write_all.simps [of dev "[]"])

lemma write_all_Nil [simp]: "write_all dev [] s = (Ok (), s)"
  by (simp add: write_all.simps)

lemma write_all_err: "w_write dev d s = (Err e, s') \<Longrightarrow> d \<noteq> [] \<Longrightarrow> write_all dev d s = (Err e, s')"
  by (simp add: write_all.simps [of dev d])

interpretation fd_sink: byte_sink fd_inv w_room fd_written "write_all dev" for dev
proof
  fix s :: "writer \<times> world" and d :: bytes
  assume inv: "fd_inv s" and room: "length d \<le> w_room s"
  then obtain w wd where s: "s = (FuseDev w, wd)" and w: "fw_buffered w" "fw_len w \<le> length (fw_store w)"
    by (cases s rule: fd_inv.cases) auto
  have fit: "fw_len w + length d \<le> length (fw_store w)"
    using room w by (simp add: s w_room_def fw_available_bytes_def)
  show "\<exists>s'. write_all dev d s = (Ok (), s') \<and> fd_inv s' \<and> fd_written s' = fd_written s @ d \<and>
      w_room s' = w_room s - length d"
  proof (cases "d = []")
    case False
    have "w_write dev d s = (Ok (length d), FuseDev (fw_extend d w), wd)"
      using w fit by (simp add: s fw_write_def fw_check_available_space_def fw_available_bytes_def)
    then have "write_all dev d s = (Ok (), FuseDev (fw_extend d w), wd)"
      using False by (rule write_all_done)
    then show ?thesis
      using w fit fw_extend_simps [OF fit] by (simp add: s w_room_def fw_available_bytes_def)
  qed (use inv in simp)
next
  fix s :: "writer \<times> world" and d :: bytes
  assume inv: "fd_inv s" and room: "w_room s < length d"
  then obtain w wd where s: "s = (FuseDev w, wd)" and w: "fw_buffered w"
    by (cases s rule: fd_inv.cases) auto
  have "w_write dev d s = (Err (Custom InvalidData), s)"
    using w room by (simp add: s fw_write_def fw_check_available_space_def w_room_def)
  then show "write_all dev d s = (Err (Custom InvalidData), s)"
    using room by (intro write_all_err) auto
qed

text \<open>
  The virtio-fs writer over a chain of slices that covers the addresses \<open>as\<close>, none of them
  twice: what was written is what the guest finds in the first part of the chain.
\<close>

fun vw_inv :: "nat list \<Rightarrow> writer \<times> world \<Rightarrow> bool" where
  "vw_inv as (VirtioFs w, wd) \<longleftrightarrow> distinct as \<and> length as \<le> USIZE_MAX \<and> bytes_consumed w \<le> length as \<and>
     chain_addrs (buffers w) = drop (bytes_consumed w) as"
| "vw_inv as _ \<longleftrightarrow> False"

fun vw_written :: "nat list \<Rightarrow> writer \<times> world \<Rightarrow> bytes" where
  "vw_written as (VirtioFs w, wd) = map (wd_mem wd) (take (bytes_consumed w) as)"
| "vw_written as _ = []"

lemma vw_available: "chain_addrs (buffers w) = drop n as \<Longrightarrow> available_bytes w = length as - n"
  by (metis available_bytes_eq length_chain_addrs length_drop)

lemma allocate_Nil_iff: "allocate_file_volatile_slice ss n = [] \<longleftrightarrow> ss = [] \<or> n = 0"
  by (cases ss) (auto simp: Let_def)

lemma vw_write_ok:
  assumes "vw_inv as (VirtioFs w, wd)" and "length d \<le> available_bytes w" and "d \<noteq> []"
  shows "vw_write d w wd = (Ok (length d),
     \<lparr>buffers = pop_used (length d) (buffers w), bytes_consumed = bytes_consumed w + length d\<rparr>,
     add_dirty (allocate_file_volatile_slice (buffers w) (length d))
       (wd\<lparr>wd_mem := store_list (drop (bytes_consumed w) as) d (wd_mem wd)\<rparr>))"
proof -
  let ?bufs = "allocate_file_volatile_slice (buffers w) (length d)"
  have "buffers w \<noteq> []" using assms(2,3) by (auto simp: available_bytes_eq)
  then have ne: "?bufs \<noteq> []" using assms(3) by (simp add: allocate_Nil_iff)
  have len: "chain_len ?bufs = length d" using assms(2) by (simp add: allocate_len available_bytes_eq)
  have "store_list (chain_addrs ?bufs) d m = store_list (drop (bytes_consumed w) as) d m" for m
    using assms(1) by (simp add: allocate_addrs store_list_take)
  then have copy: "copy_to ?bufs d m = (length d, store_list (drop (bytes_consumed w) as) d m)" for m
    by (simp add: copy_to_eq len)
  have small: "length d \<le> USIZE_MAX" "\<not> USIZE_MAX < bytes_consumed w + length d"
    using assms(1,2) vw_available [of w "bytes_consumed w" as] by auto
  show ?thesis
    using ne copy small assms(2)
    by (simp add: vw_write_def vw_check_available_space_def consume_def mark_used_def mark_dirty_eq)
qed

interpretation vw_sink: byte_sink "vw_inv as" w_room "vw_written as" "write_all dev" for "as" dev
proof
  fix s :: "writer \<times> world" and d :: bytes
  assume inv: "vw_inv as s" and room: "length d \<le> w_room s"
  then obtain w wd where s: "s = (VirtioFs w, wd)" by (cases s rule: fd_inv.cases) auto
  let ?n = "bytes_consumed w"
  have av: "available_bytes w = length as - ?n" "distinct as" "?n \<le> length as"
    using inv vw_available [of w ?n as] by (simp_all add: s)
  show "\<exists>s'. write_all dev d s = (Ok (), s') \<and> vw_inv as s' \<and> vw_written as s' = vw_written as s @ d \<and>
      w_room s' = w_room s - length d"
  proof (cases "d = []")
    case False
    let ?w' = "\<lparr>buffers = pop_used (length d) (buffers w), bytes_consumed = ?n + length d\<rparr>"
    let ?m' = "store_list (drop ?n as) d (wd_mem wd)"
    let ?wd' = "add_dirty (allocate_file_volatile_slice (buffers w) (length d)) (wd\<lparr>wd_mem := ?m'\<rparr>)"
    have fit: "?n + length d \<le> length as" using room av by (simp add: s w_room_def)
    have "w_write dev d s = (Ok (length d), VirtioFs ?w', ?wd')"
      using vw_write_ok [of as w wd d] inv room False by (simp add: s w_room_def)
    then have "write_all dev d s = (Ok (), VirtioFs ?w', ?wd')" using False by (rule write_all_done)
    moreover have "vw_inv as (VirtioFs ?w', ?wd')" using inv fit by (simp add: s pop_used_addrs add.commute)
    moreover have "w_room (VirtioFs ?w', ?wd') = w_room s - length d"
      by (simp add: w_room_def s available_bytes_eq)
    moreover have "vw_written as (VirtioFs ?w', ?wd') = vw_written as s @ d"
    proof -
      have "map ?m' (take (length d) (drop ?n as)) = d"
        using store_list_inside [of "drop ?n as" d] av(2) fit by simp
      moreover have "map ?m' (take ?n as) = map (wd_mem wd) (take ?n as)"
        using set_take_disj_set_drop_if_distinct [OF av(2), of ?n ?n]
        by (intro map_cong refl store_list_outside) auto
      ultimately show ?thesis by (simp add: s add_dirty_def take_add)
    qed
    ultimately show ?thesis by blast
  qed (use inv in simp)
next
  fix s :: "writer \<times> world" and d :: bytes
  assume inv: "vw_inv as s" and room: "w_room s < length d"
  then obtain w wd where s: "s = (VirtioFs w, wd)" by (cases s rule: fd_inv.cases) auto
  have "w_write dev d s = (Err (Custom InvalidData), s)"
    using room by (simp add: s vw_write_def vw_check_available_space_def w_room_def)
  then show "write_all dev d s = (Err (Custom InvalidData), s)"
    using room by (intro write_all_err) auto
qed

end
