(* ===== verification/Server.thy ===== *)
theory Server
  imports Fuse_Abi Writers
begin

text \<open>
  The server (\<^verbatim>\<open>api/server/mod.rs\<close>, \<^verbatim>\<open>api/server/sync_io.rs\<close>): it decodes a request from the
  reader, calls the file system, and encodes the reply into the writer.

  The objects a request works on are one record: the state of the file system, the protocol
  version the server stored, the reader and the writer of the request with the world behind
  them, and the handler of the DAX window if the transport has one. A handler is a state
  transformer with a result or an error of the crate; a panic of the file system or of a writer
  ends it. The file system is a parameter, a record of the methods of the trait. Objects that
  are lent to it are values of the type \<open>lent\<close>. The metrics hook and the log are not modelled,
  and \<^verbatim>\<open>debug_assert\<close>, which the release profile drops, is not either.
\<close>

section \<open>Errors of the crate\<close>

datatype fuse_error =
    DecodeMessage io_error | EncodeMessage io_error | MissingParameter | InvalidCString
  | InvalidHeaderLength | InvalidXattrSize u32 nat | InvalidMessage io_error
  | FailedToWrite io_error | FailedToSplitWriter transport_error | FailedToRemapID u32 u32

text \<open>\<open>EPERM | EACCES\<close> is 13, the number of \<open>EACCES\<close>.\<close>

fun encode_io_error_kind :: "error_kind \<Rightarrow> int" where
  "encode_io_error_kind PermissionDenied = EPERM OR EACCES"
| "encode_io_error_kind NotFound = ENOENT"
| "encode_io_error_kind Interrupted = EINTR"
| "encode_io_error_kind AlreadyExists = EEXIST"
| "encode_io_error_kind WouldBlock = EAGAIN"
| "encode_io_error_kind _ = EIO"

text \<open>The index of the first element that satisfies a predicate.\<close>

fun position :: "('a \<Rightarrow> bool) \<Rightarrow> 'a list \<Rightarrow> nat option" where
  "position p [] = None"
| "position p (x # xs) = (if p x then Some 0 else map_option Suc (position p xs))"

definition name_of_bytes :: "bytes \<Rightarrow> cname" where
  "name_of_bytes bs = map (\<lambda>b. char_of (unat b)) bs"

definition bytes_of_name :: "cname \<Rightarrow> bytes" where
  "bytes_of_name s = map of_char s"

text \<open>
  \<^verbatim>\<open>CStr::from_bytes_with_nul\<close> accepts bytes with exactly one NUL, the last one.
\<close>

definition cstr_from_bytes_with_nul :: "bytes \<Rightarrow> (fuse_error, cname) xresult" where
  "cstr_from_bytes_with_nul bs =
     (if bs \<noteq> [] \<and> last bs = 0 \<and> 0 \<notin> set (butlast bs) then XOk (name_of_bytes (butlast bs))
      else XErr InvalidCString)"

definition bytes_to_cstr :: "bytes \<Rightarrow> (fuse_error, cname) xresult" where
  "bytes_to_cstr buf =
     (case position (\<lambda>x. x = 0) buf of
        Some pos \<Rightarrow> cstr_from_bytes_with_nul (take (pos + 1) buf)
      | None \<Rightarrow> cstr_from_bytes_with_nul buf)"

section \<open>State of a request\<close>

definition MAX_BUFFER_SIZE :: u32 where "MAX_BUFFER_SIZE = 0x100000"
definition MIN_READ_BUFFER :: u32 where "MIN_READ_BUFFER = 8192"
definition BUFFER_HEADER_SIZE :: u32 where "BUFFER_HEADER_SIZE = 0x1000"
definition DIRENT_PADDING :: bytes where "DIRENT_PADDING = [0, 0, 0, 0, 0, 0, 0, 0]"
definition MAX_REQ_PAGES :: u16 where "MAX_REQ_PAGES = 256"

datatype 'v lent = LWriter "writer \<times> world" | LReader io_buffers memory | LReq 'v

record ('s, 'v) srv =
  sv_fs :: 's
  sv_vers :: "u32 \<times> u32"
  sv_r :: io_buffers
  sv_w :: writer
  sv_world :: world
  sv_req :: "'v option"

type_synonym ('s, 'v, 'a) sop = "('s, 'v) srv \<Rightarrow> (fuse_error, 'a) xresult \<times> ('s, 'v) srv"

text \<open>\<^verbatim>\<open>Server::new\<close> starts with the version of this interface.\<close>

definition server_vers_new :: "u32 \<times> u32" where
  "server_vers_new = (KERNEL_VERSION, KERNEL_MINOR_VERSION)"

definition sret :: "'a \<Rightarrow> ('s, 'v, 'a) sop" where
  "sret x s = (XOk x, s)"

definition sfail :: "fuse_error \<Rightarrow> ('s, 'v, 'a) sop" where
  "sfail e s = (XErr e, s)"

definition sbind :: "('s, 'v, 'a) sop \<Rightarrow> ('a \<Rightarrow> ('s, 'v, 'b) sop) \<Rightarrow> ('s, 'v, 'b) sop" where
  "sbind m f s =
     (case m s of (XOk x, s') \<Rightarrow> f x s' | (XErr e, s') \<Rightarrow> (XErr e, s') | (XPanic, s') \<Rightarrow> (XPanic, s'))"

definition slift :: "(fuse_error, 'a) xresult \<Rightarrow> ('s, 'v, 'a) sop" where
  "slift r s = (r, s)"

text \<open>A call of the file system: its \<^verbatim>\<open>io::Result\<close> becomes a value that the handler inspects.\<close>

definition scall :: "('s, 'a) op \<Rightarrow> ('s, 'v, io_error + 'a) sop" where
  "scall f s =
     (case f (sv_fs s) of
        (Ok x, t) \<Rightarrow> (XOk (Inr x), s\<lparr>sv_fs := t\<rparr>)
      | (Err e, t) \<Rightarrow> (XOk (Inl e), s\<lparr>sv_fs := t\<rparr>)
      | (Panic, t) \<Rightarrow> (XPanic, s\<lparr>sv_fs := t\<rparr>))"

definition scall_lent ::
  "('v lent \<Rightarrow> 's \<Rightarrow> 'a res \<times> 'v lent \<times> 's) \<Rightarrow> 'v lent \<Rightarrow> ('s, 'v, (io_error + 'a) \<times> 'v lent) sop" where
  "scall_lent f l s =
     (case f l (sv_fs s) of
        (Ok x, l', t) \<Rightarrow> (XOk (Inr x, l'), s\<lparr>sv_fs := t\<rparr>)
      | (Err e, l', t) \<Rightarrow> (XOk (Inl e, l'), s\<lparr>sv_fs := t\<rparr>)
      | (Panic, l', t) \<Rightarrow> (XPanic, s\<lparr>sv_fs := t\<rparr>))"

section \<open>Decoding\<close>

definition srv_read_obj :: "'a codec \<Rightarrow> ('s, 'v, 'a) sop" where
  "srv_read_obj c s =
     (case read_obj c (wd_mem (sv_world s)) (sv_r s) of
        (Ok x, r) \<Rightarrow> (XOk x, s\<lparr>sv_r := r\<rparr>)
      | (Err e, r) \<Rightarrow> (XErr (DecodeMessage e), s\<lparr>sv_r := r\<rparr>)
      | (Panic, r) \<Rightarrow> (XPanic, s\<lparr>sv_r := r\<rparr>))"

definition get_message_body :: "in_header \<Rightarrow> nat \<Rightarrow> ('s, 'v, bytes) sop" where
  "get_message_body hdr sub_hdr_sz s =
     (if unat (ih_len hdr) < size_of in_header_codec \<or>
         unat (ih_len hdr) - size_of in_header_codec < sub_hdr_sz
      then (XErr InvalidHeaderLength, s)
      else
        (case read_exact (wd_mem (sv_world s))
                (unat (ih_len hdr) - size_of in_header_codec - sub_hdr_sz) (sv_r s) of
           (Ok buf, r) \<Rightarrow> (XOk buf, s\<lparr>sv_r := r\<rparr>)
         | (Err e, r) \<Rightarrow> (XErr (DecodeMessage e), s\<lparr>sv_r := r\<rparr>)
         | (Panic, r) \<Rightarrow> (XPanic, s\<lparr>sv_r := r\<rparr>)))"

definition extract_two_cstrs :: "bytes \<Rightarrow> (fuse_error, cname \<times> cname) xresult" where
  "extract_two_cstrs buf =
     (case position (\<lambda>x. x = 0) buf of
        Some pos \<Rightarrow>
          xbind (cstr_from_bytes_with_nul (take (pos + 1) buf)) (\<lambda>first.
            if pos + 1 < length buf
            then xbind (bytes_to_cstr (drop (pos + 1) buf)) (\<lambda>second. XOk (first, second))
            else XErr (DecodeMessage (Os EINVAL)))
      | None \<Rightarrow> XErr (DecodeMessage (Os EINVAL)))"

section \<open>Replies\<close>

definition srv_write :: "(writer \<times> world \<Rightarrow> 'a res \<times> writer \<times> world) \<Rightarrow> ('s, 'v, 'a) sop" where
  "srv_write f s =
     (case f (sv_w s, sv_world s) of
        (Ok x, w, wd) \<Rightarrow> (XOk x, s\<lparr>sv_w := w, sv_world := wd\<rparr>)
      | (Err e, w, wd) \<Rightarrow> (XErr (EncodeMessage e), s\<lparr>sv_w := w, sv_world := wd\<rparr>)
      | (Panic, w, wd) \<Rightarrow> (XPanic, s\<lparr>sv_w := w, sv_world := wd\<rparr>))"

definition srv_commit :: "device \<Rightarrow> writer option \<Rightarrow> ('s, 'v, nat) sop" where
  "srv_commit dev other =
     srv_write (\<lambda>(w, wd). case w_commit dev other w wd of (r, wd') \<Rightarrow> (r, w, wd'))"

definition opt_bytes :: "bytes option \<Rightarrow> bytes" where
  "opt_bytes b = (case b of None \<Rightarrow> [] | Some bs \<Rightarrow> bs)"

definition reply_ok :: "device \<Rightarrow> in_header \<Rightarrow> bytes option \<Rightarrow> bytes option \<Rightarrow> ('s, 'v, nat) sop" where
  "reply_ok dev hdr out data =
     (let data2 = opt_bytes out; data3 = opt_bytes data;
          len = size_of out_header_codec + length data2 + length data3;
          header = as_slice out_header_codec \<lparr>oh_len = of_nat len, oh_error = 0, oh_unique = ih_unique hdr\<rparr>
      in sbind
           (if length data2 = 0 \<and> length data3 = 0 then srv_write (w_write dev header)
            else if length data2 = 0 then srv_write (w_write_vectored dev [header, data3])
            else if length data3 = 0 then srv_write (w_write_vectored dev [header, data2])
            else srv_write (w_write_vectored dev [header, data2, data3]))
           (\<lambda>_ s. (XOk (w_bytes_written (sv_w s)), s)))"

definition error_code :: "io_error \<Rightarrow> int" where
  "error_code e =
     (case raw_os_error e of
        Some n \<Rightarrow> n
      | None \<Rightarrow> (case e of Custom k \<Rightarrow> encode_io_error_kind k | Os n \<Rightarrow> n))"

text \<open>The flag \<^verbatim>\<open>explicit\<close> chooses the level of the log only.\<close>

definition do_reply_error :: "device \<Rightarrow> in_header \<Rightarrow> io_error \<Rightarrow> ('s, 'v, nat) sop" where
  "do_reply_error dev hdr err =
     (let header = as_slice out_header_codec
            \<lparr>oh_len = of_nat (size_of out_header_codec), oh_error = - of_int (error_code err),
             oh_unique = ih_unique hdr\<rparr>
      in sbind (srv_write (write_all dev header)) (\<lambda>_.
         sbind (srv_commit dev None) (\<lambda>_ s. (XOk (w_bytes_written (sv_w s)), s))))"

abbreviation reply_error :: "device \<Rightarrow> in_header \<Rightarrow> io_error \<Rightarrow> ('s, 'v, nat) sop" where
  "reply_error \<equiv> do_reply_error"

abbreviation reply_error_explicit :: "device \<Rightarrow> in_header \<Rightarrow> io_error \<Rightarrow> ('s, 'v, nat) sop" where
  "reply_error_explicit \<equiv> do_reply_error"

text \<open>
  The end of most handlers: the reply to a result of the file system, with the structure and
  the data that \<open>f\<close> makes of a success.
\<close>

definition reply_result ::
  "device \<Rightarrow> in_header \<Rightarrow> ('a \<Rightarrow> bytes option \<times> bytes option) \<Rightarrow> io_error + 'a \<Rightarrow> ('s, 'v, nat) sop" where
  "reply_result dev hdr f r =
     (case r of
        Inr x \<Rightarrow> (case f x of (out, data) \<Rightarrow> reply_ok dev hdr out data)
      | Inl e \<Rightarrow> reply_error dev hdr e)"

abbreviation no_reply_data :: "unit \<Rightarrow> bytes option \<times> bytes option" where
  "no_reply_data \<equiv> \<lambda>_. (None, None)"

abbreviation entry_reply :: "entry \<Rightarrow> bytes option \<times> bytes option" where
  "entry_reply \<equiv> \<lambda>e. (Some (as_slice entry_out_codec (entry_out_from e)), None)"

definition attr_out_from :: "stat64 \<times> duration \<Rightarrow> attr_out" where
  "attr_out_from r =
     (case r of (st, timeout) \<Rightarrow>
        \<lparr>ao_attr_valid = fst timeout, ao_attr_valid_nsec = snd timeout, ao_dummy = 0,
         ao_attr = attr_from_stat64 st\<rparr>)"

definition handle_attr_result :: "device \<Rightarrow> in_header \<Rightarrow> io_error + stat64 \<times> duration \<Rightarrow> ('s, 'v, nat) sop" where
  "handle_attr_result dev hdr =
     reply_result dev hdr (\<lambda>r. (Some (as_slice attr_out_codec (attr_out_from r)), None))"

text \<open>A name that is no C string is answered with \<^verbatim>\<open>EINVAL\<close>, and the error is returned.\<close>

definition srv_cstr :: "device \<Rightarrow> in_header \<Rightarrow> bytes \<Rightarrow> ('s, 'v, cname) sop" where
  "srv_cstr dev hdr buf s =
     (case bytes_to_cstr buf of
        XOk name \<Rightarrow> (XOk name, s)
      | XErr e \<Rightarrow>
          (case reply_error_explicit dev hdr (Os EINVAL) s of
             (XPanic, s') \<Rightarrow> (XPanic, s')
           | (_, s') \<Rightarrow> (XErr e, s'))
      | XPanic \<Rightarrow> (XPanic, s))"

section \<open>Directory entries\<close>

text \<open>
  \<^verbatim>\<open>add_dirent\<close>, which a file system calls for each entry: it appends the entry, padded to
  eight bytes, and returns its length, or 0 when it does not fit into the space the client
  asked for. The sums are of numbers that fit into 40 bits, so the checked additions succeed.
\<close>

definition padded_len :: "nat \<Rightarrow> nat" where
  "padded_len n = (n + 7) div 8 * 8"

definition dirent_chunks :: "dir_entry \<Rightarrow> entry option \<Rightarrow> bytes list" where
  "dirent_chunks d e =
     (let dirent_len = size_of dirent_codec + length (de_name d);
          padding = padded_len dirent_len - dirent_len
      in (case e of None \<Rightarrow> [] | Some e \<Rightarrow> [as_slice entry_out_codec (entry_out_from e)]) @
         [as_slice dirent_codec
            \<lparr>dt_ino = de_ino d, dt_off = de_offset d, dt_namelen = of_nat (length (de_name d)), dt_type = de_type d\<rparr>,
          bytes_of_name (de_name d)] @
         (if padding > 0 then [take padding DIRENT_PADDING] else []))"

definition add_dirent_to :: "device \<Rightarrow> u32 \<Rightarrow> dir_entry \<Rightarrow> entry option \<Rightarrow> (writer \<times> world, usize) op" where
  "add_dirent_to dev max_size d e s =
     (if length (de_name d) > 2 ^ 32 - 1 then (Err (Os EOVERFLOW), s)
      else
        (let padded = padded_len (size_of dirent_codec + length (de_name d));
             total_len = (if e = None then padded else padded + size_of entry_out_codec)
         in if unat max_size - w_bytes_written (fst s) < total_len then (Ok 0, s)
            else op_bind (put_all (write_all dev) (dirent_chunks d e) s) (\<lambda>_ s'. (Ok (of_nat total_len), s'))))"

definition add_dirent :: "device \<Rightarrow> u32 \<Rightarrow> dir_entry \<Rightarrow> entry option \<Rightarrow> ('v lent, usize) op" where
  "add_dirent dev max_size d e l =
     (case l of
        LWriter s \<Rightarrow> (case add_dirent_to dev max_size d e s of (r, s') \<Rightarrow> (r, LWriter s'))
      | _ \<Rightarrow> (Panic, l))"

section \<open>Handlers\<close>

definition srv_lookup :: "device \<Rightarrow> ('s, 'v lent) fs_ops \<Rightarrow> in_header \<Rightarrow> fuse_context \<Rightarrow> ('s, 'v, nat) sop" where
  "srv_lookup dev fs hdr ctx =
     sbind (get_message_body hdr 0) (\<lambda>buf.
     sbind (srv_cstr dev hdr buf) (\<lambda>name.
     (\<lambda>s. let minor = snd (sv_vers s) in
     sbind (scall (fs_lookup fs ctx (ih_nodeid hdr) name)) (\<lambda>result.
       case result of
         Inr e \<Rightarrow>
           if minor < KERNEL_MINOR_VERSION_LOOKUP_NEGATIVE_ENTRY_ZERO \<and> e_inode e = 0
           then reply_error dev hdr (Os ENOENT)
           else reply_ok dev hdr (Some (as_slice entry_out_codec (entry_out_from e))) None
       | Inl err \<Rightarrow> reply_error dev hdr err) s)))"

definition srv_forget :: "('s, 'v lent) fs_ops \<Rightarrow> in_header \<Rightarrow> fuse_context \<Rightarrow> ('s, 'v, nat) sop" where
  "srv_forget fs hdr ctx =
     sbind (srv_read_obj forget_in_codec) (\<lambda>i s.
       (XOk 0, s\<lparr>sv_fs := fs_forget fs ctx (ih_nodeid hdr) (fin_nlookup i) (sv_fs s)\<rparr>))"

definition srv_getattr :: "device \<Rightarrow> ('s, 'v lent) fs_ops \<Rightarrow> in_header \<Rightarrow> fuse_context \<Rightarrow> ('s, 'v, nat) sop" where
  "srv_getattr dev fs hdr ctx =
     sbind (srv_read_obj getattr_in_codec) (\<lambda>i.
       let handle = (if ga_flags i AND GETATTR_FH \<noteq> 0 then Some (ga_fh i) else None)
       in sbind (scall (fs_getattr fs ctx (ih_nodeid hdr) handle)) (handle_attr_result dev hdr))"

definition srv_setattr :: "device \<Rightarrow> ('s, 'v lent) fs_ops \<Rightarrow> in_header \<Rightarrow> fuse_context \<Rightarrow> ('s, 'v, nat) sop" where
  "srv_setattr dev fs hdr ctx =
     sbind (srv_read_obj setattr_in_codec) (\<lambda>i.
       let handle = (if sa_valid i AND FATTR_FH \<noteq> 0 then Some (sa_fh i) else None);
           valid = flags_from_bits_truncate setattr_valid_all (sa_valid i)
       in sbind (scall (fs_setattr fs ctx (ih_nodeid hdr) (stat64_from_setattr i) handle valid))
            (handle_attr_result dev hdr))"

definition srv_readlink :: "device \<Rightarrow> ('s, 'v lent) fs_ops \<Rightarrow> in_header \<Rightarrow> fuse_context \<Rightarrow> ('s, 'v, nat) sop" where
  "srv_readlink dev fs hdr ctx =
     sbind (scall (fs_readlink fs ctx (ih_nodeid hdr))) (reply_result dev hdr (\<lambda>linkname. (None, Some linkname)))"

definition srv_symlink :: "device \<Rightarrow> ('s, 'v lent) fs_ops \<Rightarrow> in_header \<Rightarrow> fuse_context \<Rightarrow> ('s, 'v, nat) sop" where
  "srv_symlink dev fs hdr ctx =
     sbind (get_message_body hdr 0) (\<lambda>buf.
     sbind (slift (extract_two_cstrs buf)) (\<lambda>(name, linkname).
     sbind (scall (fs_symlink fs ctx linkname (ih_nodeid hdr) name)) (reply_result dev hdr entry_reply)))"

definition srv_mknod :: "device \<Rightarrow> ('s, 'v lent) fs_ops \<Rightarrow> in_header \<Rightarrow> fuse_context \<Rightarrow> ('s, 'v, nat) sop" where
  "srv_mknod dev fs hdr ctx =
     sbind (srv_read_obj mknod_in_codec) (\<lambda>i.
     sbind (get_message_body hdr (size_of mknod_in_codec)) (\<lambda>buf.
     sbind (srv_cstr dev hdr buf) (\<lambda>name.
     sbind (scall (fs_mknod fs ctx (ih_nodeid hdr) name (mn_mode i) (mn_rdev i) (mn_umask i)))
       (reply_result dev hdr entry_reply))))"

definition srv_mkdir :: "device \<Rightarrow> ('s, 'v lent) fs_ops \<Rightarrow> in_header \<Rightarrow> fuse_context \<Rightarrow> ('s, 'v, nat) sop" where
  "srv_mkdir dev fs hdr ctx =
     sbind (srv_read_obj mkdir_in_codec) (\<lambda>i.
     sbind (get_message_body hdr (size_of mkdir_in_codec)) (\<lambda>buf.
     sbind (srv_cstr dev hdr buf) (\<lambda>name.
     sbind (scall (fs_mkdir fs ctx (ih_nodeid hdr) name (mk_mode i) (mk_umask i)))
       (reply_result dev hdr entry_reply))))"

definition srv_unlink :: "device \<Rightarrow> ('s, 'v lent) fs_ops \<Rightarrow> in_header \<Rightarrow> fuse_context \<Rightarrow> ('s, 'v, nat) sop" where
  "srv_unlink dev fs hdr ctx =
     sbind (get_message_body hdr 0) (\<lambda>buf.
     sbind (srv_cstr dev hdr buf) (\<lambda>name.
     sbind (scall (fs_unlink fs ctx (ih_nodeid hdr) name)) (reply_result dev hdr no_reply_data)))"

definition srv_rmdir :: "device \<Rightarrow> ('s, 'v lent) fs_ops \<Rightarrow> in_header \<Rightarrow> fuse_context \<Rightarrow> ('s, 'v, nat) sop" where
  "srv_rmdir dev fs hdr ctx =
     sbind (get_message_body hdr 0) (\<lambda>buf.
     sbind (srv_cstr dev hdr buf) (\<lambda>name.
     sbind (scall (fs_rmdir fs ctx (ih_nodeid hdr) name)) (reply_result dev hdr no_reply_data)))"

definition do_rename ::
  "device \<Rightarrow> ('s, 'v lent) fs_ops \<Rightarrow> in_header \<Rightarrow> fuse_context \<Rightarrow> nat \<Rightarrow> u64 \<Rightarrow> u32 \<Rightarrow> ('s, 'v, nat) sop" where
  "do_rename dev fs hdr ctx msg_size newdir flags =
     sbind (get_message_body hdr msg_size) (\<lambda>buf.
     sbind (slift (extract_two_cstrs buf)) (\<lambda>(oldname, newname).
     sbind (scall (fs_rename fs ctx (ih_nodeid hdr) oldname newdir newname flags))
       (reply_result dev hdr no_reply_data)))"

definition srv_rename :: "device \<Rightarrow> ('s, 'v lent) fs_ops \<Rightarrow> in_header \<Rightarrow> fuse_context \<Rightarrow> ('s, 'v, nat) sop" where
  "srv_rename dev fs hdr ctx =
     sbind (srv_read_obj rename_in_codec) (\<lambda>i.
       do_rename dev fs hdr ctx (size_of rename_in_codec) (rn_newdir i) 0)"

text \<open>\<^verbatim>\<open>RENAME_EXCHANGE | RENAME_NOREPLACE | RENAME_WHITEOUT\<close> of \<^verbatim>\<open>libc\<close>.\<close>

definition RENAME_FLAGS :: u32 where "RENAME_FLAGS = 2 OR 1 OR 4"

definition srv_rename2 :: "device \<Rightarrow> ('s, 'v lent) fs_ops \<Rightarrow> in_header \<Rightarrow> fuse_context \<Rightarrow> ('s, 'v, nat) sop" where
  "srv_rename2 dev fs hdr ctx =
     sbind (srv_read_obj rename2_in_codec) (\<lambda>i.
       do_rename dev fs hdr ctx (size_of rename2_in_codec) (r2_newdir i) (r2_flags i AND RENAME_FLAGS))"

definition srv_link :: "device \<Rightarrow> ('s, 'v lent) fs_ops \<Rightarrow> in_header \<Rightarrow> fuse_context \<Rightarrow> ('s, 'v, nat) sop" where
  "srv_link dev fs hdr ctx =
     sbind (srv_read_obj link_in_codec) (\<lambda>i.
     sbind (get_message_body hdr (size_of link_in_codec)) (\<lambda>buf.
     sbind (srv_cstr dev hdr buf) (\<lambda>name.
     sbind (scall (fs_link fs ctx (li_oldnodeid i) (ih_nodeid hdr) name)) (reply_result dev hdr entry_reply))))"

definition opt_u64 :: "u64 option \<Rightarrow> u64" where
  "opt_u64 h = (case h of None \<Rightarrow> 0 | Some n \<Rightarrow> n)"

definition opt_u32 :: "u32 option \<Rightarrow> u32" where
  "opt_u32 h = (case h of None \<Rightarrow> 0 | Some n \<Rightarrow> n)"

definition open_out_from :: "u64 option \<times> open_options \<times> u32 option \<Rightarrow> open_out" where
  "open_out_from r =
     (case r of (handle, opts, passthrough) \<Rightarrow>
        \<lparr>oo_fh = opt_u64 handle, oo_open_flags = opts, oo_passthrough = opt_u32 passthrough\<rparr>)"

definition srv_open :: "device \<Rightarrow> ('s, 'v lent) fs_ops \<Rightarrow> in_header \<Rightarrow> fuse_context \<Rightarrow> ('s, 'v, nat) sop" where
  "srv_open dev fs hdr ctx =
     sbind (srv_read_obj open_in_codec) (\<lambda>i.
     sbind (scall (fs_open fs ctx (ih_nodeid hdr) (oi_flags i) (oi_fuse_flags i)))
       (reply_result dev hdr (\<lambda>r. (Some (as_slice open_out_codec (open_out_from r)), None))))"

text \<open>\<^verbatim>\<open>ctx.w.split_at\<close> as \<^verbatim>\<open>read\<close> and \<^verbatim>\<open>do_readdir\<close> use it.\<close>

definition srv_split :: "nat \<Rightarrow> ('s, 'v, writer) sop" where
  "srv_split offset s =
     (case w_split_at offset (sv_w s) of
        (XOk w2, w) \<Rightarrow> (XOk w2, s\<lparr>sv_w := w\<rparr>)
      | (XErr _, w) \<Rightarrow> (XErr InvalidHeaderLength, s\<lparr>sv_w := w\<rparr>)
      | (XPanic, w) \<Rightarrow> (XPanic, s\<lparr>sv_w := w\<rparr>))"

text \<open>The writer that was lent comes back with the world behind it.\<close>

definition srv_take_back :: "writer \<Rightarrow> 'v lent \<Rightarrow> ('s, 'v, writer) sop" where
  "srv_take_back w l s =
     (case l of LWriter (w', wd) \<Rightarrow> (XOk w', s\<lparr>sv_world := wd\<rparr>) | _ \<Rightarrow> (XOk w, s))"

text \<open>The header with a length of its own, then the data that another writer holds.\<close>

definition reply_with :: "device \<Rightarrow> in_header \<Rightarrow> usize \<Rightarrow> writer \<Rightarrow> ('s, 'v, nat) sop" where
  "reply_with dev hdr count data_writer =
     (let len = ucast (of_nat (size_of out_header_codec) + count) :: u32
      in sbind (srv_write (write_all dev
                  (as_slice out_header_codec \<lparr>oh_len = len, oh_error = 0, oh_unique = ih_unique hdr\<rparr>))) (\<lambda>_.
         sbind (srv_commit dev (Some data_writer)) (\<lambda>_. sret (unat len))))"

definition srv_read :: "device \<Rightarrow> ('s, 'v lent) fs_ops \<Rightarrow> in_header \<Rightarrow> fuse_context \<Rightarrow> ('s, 'v, nat) sop" where
  "srv_read dev fs hdr ctx =
     sbind (srv_read_obj read_in_codec) (\<lambda>i.
       let owner = (if rd_read_flags i AND READ_LOCKOWNER \<noteq> 0 then Some (rd_lock_owner i) else None) in
       sbind (srv_split (size_of out_header_codec)) (\<lambda>w2 s.
       sbind (scall_lent (\<lambda>l. fs_read fs ctx (ih_nodeid hdr) (rd_fh i) l (rd_size i) (rd_offset i) owner (rd_flags i))
                (LWriter (w2, sv_world s))) (\<lambda>(result, l).
       sbind (srv_take_back w2 l) (\<lambda>data_writer.
         case result of
           Inr count \<Rightarrow> reply_with dev hdr count data_writer
         | Inl e \<Rightarrow> reply_error dev hdr e)) s))"

text \<open>\<^verbatim>\<open>SrvContext::take_reader\<close> leaves an empty reader behind.\<close>

definition srv_take_reader :: "('s, 'v, io_buffers) sop" where
  "srv_take_reader s = (XOk (sv_r s), s\<lparr>sv_r := io_buffers_default\<rparr>)"

definition srv_write_op :: "device \<Rightarrow> ('s, 'v lent) fs_ops \<Rightarrow> in_header \<Rightarrow> fuse_context \<Rightarrow> ('s, 'v, nat) sop" where
  "srv_write_op dev fs hdr ctx =
     sbind (srv_read_obj write_in_codec) (\<lambda>i.
       let owner = (if wr_fuse_flags i AND WRITE_LOCKOWNER \<noteq> 0 then Some (wr_lock_owner i) else None);
           delayed_write = (wr_fuse_flags i AND WRITE_CACHE \<noteq> 0) in
       sbind srv_take_reader (\<lambda>r s.
       sbind (scall_lent (\<lambda>l. fs_write fs ctx (ih_nodeid hdr) (wr_fh i) l (wr_size i) (wr_offset i) owner
                  delayed_write (wr_flags i) (wr_fuse_flags i))
                (LReader r (wd_mem (sv_world s)))) (\<lambda>(result, _).
         reply_result dev hdr
           (\<lambda>count. (Some (as_slice write_out_codec \<lparr>wo_size = ucast count, wo_padding = 0\<rparr>), None)) result) s))"

definition srv_statfs :: "device \<Rightarrow> ('s, 'v lent) fs_ops \<Rightarrow> in_header \<Rightarrow> fuse_context \<Rightarrow> ('s, 'v, nat) sop" where
  "srv_statfs dev fs hdr ctx =
     sbind (scall (fs_statfs fs ctx (ih_nodeid hdr)))
       (reply_result dev hdr (\<lambda>st. (Some (as_slice kstatfs_codec (kstatfs_from st)), None)))"

definition srv_release :: "device \<Rightarrow> ('s, 'v lent) fs_ops \<Rightarrow> in_header \<Rightarrow> fuse_context \<Rightarrow> ('s, 'v, nat) sop" where
  "srv_release dev fs hdr ctx =
     sbind (srv_read_obj release_in_codec) (\<lambda>i.
       let do_flush = (re_release_flags i AND RELEASE_FLUSH \<noteq> 0);
           flock_release = (re_release_flags i AND RELEASE_FLOCK_UNLOCK \<noteq> 0);
           lock_owner = (if do_flush \<or> flock_release then Some (re_lock_owner i) else None)
       in sbind (scall (fs_release fs ctx (ih_nodeid hdr) (re_flags i) (re_fh i) do_flush flock_release lock_owner))
            (reply_result dev hdr no_reply_data))"

definition srv_fsync :: "device \<Rightarrow> ('s, 'v lent) fs_ops \<Rightarrow> in_header \<Rightarrow> fuse_context \<Rightarrow> ('s, 'v, nat) sop" where
  "srv_fsync dev fs hdr ctx =
     sbind (srv_read_obj fsync_in_codec) (\<lambda>i.
     sbind (scall (fs_fsync fs ctx (ih_nodeid hdr) (fsn_fsync_flags i AND 1 \<noteq> 0) (fsn_fh i)))
       (reply_result dev hdr no_reply_data))"

definition srv_setxattr :: "device \<Rightarrow> ('s, 'v lent) fs_ops \<Rightarrow> in_header \<Rightarrow> fuse_context \<Rightarrow> ('s, 'v, nat) sop" where
  "srv_setxattr dev fs hdr ctx =
     sbind (srv_read_obj setxattr_in_codec) (\<lambda>i.
     sbind (get_message_body hdr (size_of setxattr_in_codec)) (\<lambda>buf.
       case position (\<lambda>c. c = 0) buf of
         None \<Rightarrow> sfail MissingParameter
       | Some p \<Rightarrow>
           (let name_bytes = take (p + 1) buf; value = drop (p + 1) buf
            in if sx_size i \<noteq> of_nat (length value) then sfail (InvalidXattrSize (sx_size i) (length value))
               else
                 sbind (srv_cstr dev hdr name_bytes) (\<lambda>name.
                 sbind (scall (fs_setxattr fs ctx (ih_nodeid hdr) name value (sx_flags i)))
                   (reply_result dev hdr no_reply_data)))))"

fun getxattr_data :: "getxattr_reply \<Rightarrow> bytes option \<times> bytes option" where
  "getxattr_data (GxValue val) = (None, Some val)"
| "getxattr_data (GxCount count) = (Some (as_slice getxattr_out_codec \<lparr>go_size = count, go_padding = 0\<rparr>), None)"

definition srv_getxattr :: "device \<Rightarrow> ('s, 'v lent) fs_ops \<Rightarrow> in_header \<Rightarrow> fuse_context \<Rightarrow> ('s, 'v, nat) sop" where
  "srv_getxattr dev fs hdr ctx =
     sbind (srv_read_obj getxattr_in_codec) (\<lambda>i.
     sbind (get_message_body hdr (size_of getxattr_in_codec)) (\<lambda>buf.
     sbind (srv_cstr dev hdr buf) (\<lambda>name.
     sbind (scall (fs_getxattr fs ctx (ih_nodeid hdr) name (gx_size i))) (reply_result dev hdr getxattr_data))))"

fun listxattr_data :: "listxattr_reply \<Rightarrow> bytes option \<times> bytes option" where
  "listxattr_data (LxNames val) = (None, Some val)"
| "listxattr_data (LxCount count) = (Some (as_slice getxattr_out_codec \<lparr>go_size = count, go_padding = 0\<rparr>), None)"

definition srv_listxattr :: "device \<Rightarrow> ('s, 'v lent) fs_ops \<Rightarrow> in_header \<Rightarrow> fuse_context \<Rightarrow> ('s, 'v, nat) sop" where
  "srv_listxattr dev fs hdr ctx =
     sbind (srv_read_obj getxattr_in_codec) (\<lambda>i.
     sbind (scall (fs_listxattr fs ctx (ih_nodeid hdr) (gx_size i))) (reply_result dev hdr listxattr_data))"

definition srv_removexattr :: "device \<Rightarrow> ('s, 'v lent) fs_ops \<Rightarrow> in_header \<Rightarrow> fuse_context \<Rightarrow> ('s, 'v, nat) sop" where
  "srv_removexattr dev fs hdr ctx =
     sbind (get_message_body hdr 0) (\<lambda>buf.
     sbind (srv_cstr dev hdr buf) (\<lambda>name.
     sbind (scall (fs_removexattr fs ctx (ih_nodeid hdr) name)) (reply_result dev hdr no_reply_data)))"

definition srv_flush :: "device \<Rightarrow> ('s, 'v lent) fs_ops \<Rightarrow> in_header \<Rightarrow> fuse_context \<Rightarrow> ('s, 'v, nat) sop" where
  "srv_flush dev fs hdr ctx =
     sbind (srv_read_obj flush_in_codec) (\<lambda>i.
     sbind (scall (fs_flush fs ctx (ih_nodeid hdr) (fu_fh i) (fu_lock_owner i)))
       (reply_result dev hdr no_reply_data))"

text \<open>
  \<^verbatim>\<open>init\<close>. The size of a page is the parameter \<open>pagesize\<close>. The reply to a client of an older
  minor version is cut to the size that version knows.
\<close>

definition init_out_default :: init_out where
  "init_out_default =
     \<lparr>ino_major = 0, ino_minor = 0, ino_max_readahead = 0, ino_flags = 0, ino_max_background = 0,
      ino_congestion_threshold = 0, ino_max_write = 0, ino_time_gran = 0, ino_max_pages = 0,
      ino_map_alignment = 0, ino_flags2 = 0, ino_unused = 0\<rparr>"

definition init_out_from :: "u64 \<Rightarrow> u32 \<Rightarrow> fs_options \<Rightarrow> init_out" where
  "init_out_from pagesize max_readahead enabled =
     (let out = init_out_default
            \<lparr>ino_major := KERNEL_VERSION, ino_minor := KERNEL_MINOR_VERSION, ino_max_readahead := max_readahead,
             ino_flags := ucast enabled, ino_max_background := - 1,
             ino_congestion_threshold := (- 1 div 4) * 3,
             ino_max_write := MIN_READ_BUFFER - BUFFER_HEADER_SIZE, ino_time_gran := 1,
             ino_flags2 := ucast (drop_bit 32 enabled)\<rparr>;
          out1 = (if flags_contains enabled BIG_WRITES
                  then out\<lparr>ino_max_write := ucast MAX_REQ_PAGES * ucast pagesize\<rparr> else out)
      in if flags_contains enabled MAX_PAGES
         then out1\<lparr>ino_max_pages := MAX_REQ_PAGES, ino_max_write := ucast MAX_REQ_PAGES * ucast pagesize\<rparr>
         else out1)"

definition init_flags :: "u32 \<Rightarrow> ('s, 'v, u64) sop" where
  "init_flags flags =
     (if ucast flags AND INIT_EXT \<noteq> 0
      then sbind (srv_read_obj init_in2_codec) (\<lambda>i2. sret (ucast flags OR push_bit 32 (ucast (i2_flags2 i2))))
      else sret (ucast flags))"

definition srv_init :: "device \<Rightarrow> u64 \<Rightarrow> ('s, 'v lent) fs_ops \<Rightarrow> in_header \<Rightarrow> ('s, 'v, nat) sop" where
  "srv_init dev pagesize fs hdr =
     sbind (srv_read_obj init_in_codec) (\<lambda>i.
       if ii_major i < KERNEL_VERSION then reply_error_explicit dev hdr (Os EPROTO)
       else if ii_major i > KERNEL_VERSION then
         reply_ok dev hdr
           (Some (as_slice init_out_codec
              (init_out_default\<lparr>ino_major := KERNEL_VERSION, ino_minor := KERNEL_MINOR_VERSION\<rparr>))) None
       else
         sbind (init_flags (ii_flags i)) (\<lambda>flags_u64.
           let capable = flags_from_bits_truncate fs_options_all flags_u64 in
           sbind (scall (fs_init fs capable)) (\<lambda>result.
             case result of
               Inr want \<Rightarrow>
                 (\<lambda>s. let out = as_slice init_out_codec (init_out_from pagesize (ii_max_readahead i) (capable AND want));
                          minor = ii_minor i
                      in reply_ok dev hdr
                           (Some (if minor < KERNEL_MINOR_VERSION_INIT_OUT_SIZE then take FUSE_COMPAT_INIT_OUT_SIZE out
                                  else if minor < KERNEL_MINOR_VERSION_INIT_22_OUT_SIZE
                                  then take FUSE_COMPAT_22_INIT_OUT_SIZE out else out)) None
                           (s\<lparr>sv_vers := (ii_major i, minor)\<rparr>))
             | Inl e \<Rightarrow> reply_error dev hdr e)))"

definition srv_opendir :: "device \<Rightarrow> ('s, 'v lent) fs_ops \<Rightarrow> in_header \<Rightarrow> fuse_context \<Rightarrow> ('s, 'v, nat) sop" where
  "srv_opendir dev fs hdr ctx =
     sbind (srv_read_obj open_in_codec) (\<lambda>i.
     sbind (scall (fs_opendir fs ctx (ih_nodeid hdr) (oi_flags i)))
       (reply_result dev hdr (\<lambda>(handle, opts).
          (Some (as_slice open_out_codec \<lparr>oo_fh = opt_u64 handle, oo_open_flags = opts, oo_passthrough = 0\<rparr>), None))))"

definition srv_do_readdir ::
  "device \<Rightarrow> ('s, 'v lent) fs_ops \<Rightarrow> in_header \<Rightarrow> fuse_context \<Rightarrow> bool \<Rightarrow> ('s, 'v, nat) sop" where
  "srv_do_readdir dev fs hdr ctx is_plus =
     sbind (srv_read_obj read_in_codec) (\<lambda>i s.
       if w_available_bytes (sv_w s) < unat (rd_size i) then reply_error_explicit dev hdr (Os ENOMEM) s
       else
         sbind (srv_split (size_of out_header_codec)) (\<lambda>cursor s.
         sbind (scall_lent
                  (\<lambda>l. if is_plus
                       then fs_readdirplus fs ctx (ih_nodeid hdr) (rd_fh i) (rd_size i) (rd_offset i)
                              (\<lambda>d e. add_dirent dev (rd_size i) d (Some e)) l
                       else fs_readdir fs ctx (ih_nodeid hdr) (rd_fh i) (rd_size i) (rd_offset i)
                              (\<lambda>d. add_dirent dev (rd_size i) d None) l)
                  (LWriter (cursor, sv_world s))) (\<lambda>(result, l).
         sbind (srv_take_back cursor l) (\<lambda>cursor'.
           case result of
             Inl e \<Rightarrow> reply_error_explicit dev hdr e
           | Inr _ \<Rightarrow> reply_with dev hdr (of_nat (w_bytes_written cursor')) cursor')) s) s)"

definition srv_readdir :: "device \<Rightarrow> ('s, 'v lent) fs_ops \<Rightarrow> in_header \<Rightarrow> fuse_context \<Rightarrow> ('s, 'v, nat) sop" where
  "srv_readdir dev fs hdr ctx = srv_do_readdir dev fs hdr ctx False"

definition srv_readdirplus :: "device \<Rightarrow> ('s, 'v lent) fs_ops \<Rightarrow> in_header \<Rightarrow> fuse_context \<Rightarrow> ('s, 'v, nat) sop" where
  "srv_readdirplus dev fs hdr ctx = srv_do_readdir dev fs hdr ctx True"

definition srv_releasedir :: "device \<Rightarrow> ('s, 'v lent) fs_ops \<Rightarrow> in_header \<Rightarrow> fuse_context \<Rightarrow> ('s, 'v, nat) sop" where
  "srv_releasedir dev fs hdr ctx =
     sbind (srv_read_obj release_in_codec) (\<lambda>i.
     sbind (scall (fs_releasedir fs ctx (ih_nodeid hdr) (re_flags i) (re_fh i)))
       (reply_result dev hdr no_reply_data))"

definition srv_fsyncdir :: "device \<Rightarrow> ('s, 'v lent) fs_ops \<Rightarrow> in_header \<Rightarrow> fuse_context \<Rightarrow> ('s, 'v, nat) sop" where
  "srv_fsyncdir dev fs hdr ctx =
     sbind (srv_read_obj fsync_in_codec) (\<lambda>i.
     sbind (scall (fs_fsyncdir fs ctx (ih_nodeid hdr) (fsn_fsync_flags i AND 1 \<noteq> 0) (fsn_fh i)))
       (reply_result dev hdr no_reply_data))"

definition srv_getlk :: "device \<Rightarrow> ('s, 'v lent) fs_ops \<Rightarrow> in_header \<Rightarrow> fuse_context \<Rightarrow> ('s, 'v, nat) sop" where
  "srv_getlk dev fs hdr ctx =
     sbind (srv_read_obj lk_in_codec) (\<lambda>i.
     sbind (scall (fs_getlk fs ctx (ih_nodeid hdr) (lk_fh i) (lk_owner i) (lk_lk i) (lk_lk_flags i)))
       (reply_result dev hdr (\<lambda>l. (Some (as_slice lk_out_codec \<lparr>lo_lk = l\<rparr>), None))))"

definition srv_setlk :: "device \<Rightarrow> ('s, 'v lent) fs_ops \<Rightarrow> in_header \<Rightarrow> fuse_context \<Rightarrow> ('s, 'v, nat) sop" where
  "srv_setlk dev fs hdr ctx =
     sbind (srv_read_obj lk_in_codec) (\<lambda>i.
     sbind (scall (fs_setlk fs ctx (ih_nodeid hdr) (lk_fh i) (lk_owner i) (lk_lk i) (lk_lk_flags i)))
       (reply_result dev hdr no_reply_data))"

text \<open>The handler of the blocking request calls \<^verbatim>\<open>setlk\<close>, not \<^verbatim>\<open>setlkw\<close>.\<close>

definition srv_setlkw :: "device \<Rightarrow> ('s, 'v lent) fs_ops \<Rightarrow> in_header \<Rightarrow> fuse_context \<Rightarrow> ('s, 'v, nat) sop" where
  "srv_setlkw dev fs hdr ctx =
     sbind (srv_read_obj lk_in_codec) (\<lambda>i.
     sbind (scall (fs_setlk fs ctx (ih_nodeid hdr) (lk_fh i) (lk_owner i) (lk_lk i) (lk_lk_flags i)))
       (reply_result dev hdr no_reply_data))"

definition srv_access :: "device \<Rightarrow> ('s, 'v lent) fs_ops \<Rightarrow> in_header \<Rightarrow> fuse_context \<Rightarrow> ('s, 'v, nat) sop" where
  "srv_access dev fs hdr ctx =
     sbind (srv_read_obj access_in_codec) (\<lambda>i.
     sbind (scall (fs_access fs ctx (ih_nodeid hdr) (ac_mask i))) (reply_result dev hdr no_reply_data))"

text \<open>\<^verbatim>\<open>create\<close> builds its \<^verbatim>\<open>EntryOut\<close> itself, without the flags of the attributes.\<close>

definition create_reply ::
  "entry \<times> u64 option \<times> open_options \<times> u32 option \<Rightarrow> bytes option \<times> bytes option" where
  "create_reply r =
     (case r of (e, handle, opts, passthrough) \<Rightarrow>
        (Some (as_slice entry_out_codec
           \<lparr>eo_nodeid = e_inode e, eo_generation = e_generation e,
            eo_entry_valid = fst (e_entry_timeout e), eo_attr_valid = fst (e_attr_timeout e),
            eo_entry_valid_nsec = snd (e_entry_timeout e), eo_attr_valid_nsec = snd (e_attr_timeout e),
            eo_attr = attr_from_stat64 (e_attr e)\<rparr>),
         Some (as_slice open_out_codec (open_out_from (handle, opts, passthrough)))))"

definition srv_create :: "device \<Rightarrow> ('s, 'v lent) fs_ops \<Rightarrow> in_header \<Rightarrow> fuse_context \<Rightarrow> ('s, 'v, nat) sop" where
  "srv_create dev fs hdr ctx =
     sbind (srv_read_obj create_in_codec) (\<lambda>args.
     sbind (get_message_body hdr (size_of create_in_codec)) (\<lambda>buf.
     sbind (srv_cstr dev hdr buf) (\<lambda>name.
     sbind (scall (fs_create fs ctx (ih_nodeid hdr) name args)) (reply_result dev hdr create_reply))))"

definition srv_bmap :: "device \<Rightarrow> ('s, 'v lent) fs_ops \<Rightarrow> in_header \<Rightarrow> fuse_context \<Rightarrow> ('s, 'v, nat) sop" where
  "srv_bmap dev fs hdr ctx =
     sbind (srv_read_obj bmap_in_codec) (\<lambda>i.
     sbind (scall (fs_bmap fs ctx (ih_nodeid hdr) (bi_block i) (bi_blocksize i)))
       (reply_result dev hdr (\<lambda>block. (Some (as_slice bmap_out_codec \<lparr>bo_block = block\<rparr>), None))))"

text \<open>\<^verbatim>\<open>destroy\<close> replies, but its caller reports 0; a failure to reply is only logged.\<close>

definition srv_destroy :: "device \<Rightarrow> ('s, 'v lent) fs_ops \<Rightarrow> in_header \<Rightarrow> ('s, 'v, nat) sop" where
  "srv_destroy dev fs hdr s =
     (case reply_ok dev hdr None None (s\<lparr>sv_fs := fs_destroy fs (sv_fs s)\<rparr>) of
        (XPanic, s') \<Rightarrow> (XPanic, s')
      | (_, s') \<Rightarrow> (XOk 0, s'))"

definition srv_ioctl :: "device \<Rightarrow> ('s, 'v lent) fs_ops \<Rightarrow> in_header \<Rightarrow> fuse_context \<Rightarrow> ('s, 'v, nat) sop" where
  "srv_ioctl dev fs hdr ctx =
     sbind (srv_read_obj ioctl_in_codec) (\<lambda>i s.
       if unat (ic_in_size i) > available_bytes (sv_r s) then reply_error dev hdr (Os ENOTTY) s
       else
         sbind (\<lambda>s. if unat (ic_in_size i) > 0
                    then (case reader_read (wd_mem (sv_world s)) (unat (ic_in_size i)) (sv_r s) of
                            (Ok data, r) \<Rightarrow> (XOk (if data = [] then None else Some data), s\<lparr>sv_r := r\<rparr>)
                          | (Err e, r) \<Rightarrow> (XErr (DecodeMessage e), s\<lparr>sv_r := r\<rparr>)
                          | (Panic, r) \<Rightarrow> (XPanic, s\<lparr>sv_r := r\<rparr>))
                    else (XOk None, s)) (\<lambda>data.
         sbind (scall (fs_ioctl fs ctx (ih_nodeid hdr) (ic_fh i) (ic_flags i) (ic_cmd i)
                  \<lparr>io_result = 0, io_data = data\<rparr> (ic_out_size i)))
           (reply_result dev hdr (\<lambda>res.
              (Some (as_slice ioctl_out_codec
                 \<lparr>iu_result = io_result res, iu_flags = 0, iu_in_iovs = 0, iu_out_iovs = 0\<rparr>), io_data res)))) s)"

definition srv_poll :: "device \<Rightarrow> ('s, 'v lent) fs_ops \<Rightarrow> in_header \<Rightarrow> fuse_context \<Rightarrow> ('s, 'v, nat) sop" where
  "srv_poll dev fs hdr ctx =
     sbind (srv_read_obj poll_in_codec) (\<lambda>i.
     sbind (scall (fs_poll fs ctx (ih_nodeid hdr) (pi_fh i) (pi_kh i) (pi_flags i) (pi_events i)))
       (reply_result dev hdr (\<lambda>revents.
          (Some (as_slice poll_out_codec \<lparr>po_revents = revents, po_padding = 0\<rparr>), None))))"

definition srv_notify_reply :: "device \<Rightarrow> ('s, 'v lent) fs_ops \<Rightarrow> in_header \<Rightarrow> ('s, 'v, nat) sop" where
  "srv_notify_reply dev fs hdr =
     sbind (scall (fs_notify_reply fs)) (\<lambda>r. case r of Inl e \<Rightarrow> reply_error dev hdr e | Inr _ \<Rightarrow> sret 0)"

fun read_objs :: "'a codec \<Rightarrow> nat \<Rightarrow> ('s, 'v, 'a list) sop" where
  "read_objs c 0 = sret []"
| "read_objs c (Suc n) = sbind (srv_read_obj c) (\<lambda>x. sbind (read_objs c n) (\<lambda>xs. sret (x # xs)))"

definition srv_batch_forget :: "('s, 'v lent) fs_ops \<Rightarrow> in_header \<Rightarrow> fuse_context \<Rightarrow> ('s, 'v, nat) sop" where
  "srv_batch_forget fs hdr ctx =
     sbind (srv_read_obj batch_forget_in_codec) (\<lambda>i.
       if unat (bf_count i) * size_of forget_one_codec > USIZE_MAX \<or>
          unat (bf_count i) * size_of forget_one_codec >
            unat (MAX_BUFFER_SIZE + BUFFER_HEADER_SIZE - of_nat (size_of batch_forget_in_codec) -
                    of_nat (size_of in_header_codec))
       then sfail (InvalidMessage (Os EOVERFLOW))
       else
         sbind (read_objs forget_one_codec (unat (bf_count i))) (\<lambda>fos s.
           (XOk 0, s\<lparr>sv_fs := fs_batch_forget fs ctx (map (\<lambda>f. (fo_nodeid f, fo_nlookup f)) fos) (sv_fs s)\<rparr>)))"

definition srv_fallocate :: "device \<Rightarrow> ('s, 'v lent) fs_ops \<Rightarrow> in_header \<Rightarrow> fuse_context \<Rightarrow> ('s, 'v, nat) sop" where
  "srv_fallocate dev fs hdr ctx =
     sbind (srv_read_obj fallocate_in_codec) (\<lambda>i.
     sbind (scall (fs_fallocate fs ctx (ih_nodeid hdr) (fa_fh i) (fa_mode i) (fa_offset i) (fa_length i)))
       (reply_result dev hdr no_reply_data))"

definition srv_lseek :: "device \<Rightarrow> ('s, 'v lent) fs_ops \<Rightarrow> in_header \<Rightarrow> fuse_context \<Rightarrow> ('s, 'v, nat) sop" where
  "srv_lseek dev fs hdr ctx =
     sbind (srv_read_obj lseek_in_codec) (\<lambda>i.
     sbind (scall (fs_lseek fs ctx (ih_nodeid hdr) (ls_fh i) (ls_offset i) (ls_whence i)))
       (reply_result dev hdr (\<lambda>offset. (Some (as_slice lseek_out_codec \<lparr>lu_offset = offset\<rparr>), None))))"

text \<open>The object the transport lends for the DAX window comes back with the call.\<close>

definition srv_keep_req :: "'v lent \<Rightarrow> ('s, 'v, unit) sop" where
  "srv_keep_req l s = (XOk (), case l of LReq v \<Rightarrow> s\<lparr>sv_req := Some v\<rparr> | _ \<Rightarrow> s)"

definition srv_setupmapping :: "device \<Rightarrow> ('s, 'v lent) fs_ops \<Rightarrow> in_header \<Rightarrow> fuse_context \<Rightarrow> ('s, 'v, nat) sop" where
  "srv_setupmapping dev fs hdr ctx s =
     (case sv_req s of
        Some req \<Rightarrow>
          sbind (srv_read_obj setupmapping_in_codec) (\<lambda>i.
          sbind (scall_lent (\<lambda>l. fs_setupmapping fs ctx (ih_nodeid hdr) (sm_fh i) (sm_foffset i) (sm_len i)
                   (sm_flags i) (sm_moffset i) l) (LReq req)) (\<lambda>(result, l).
          sbind (srv_keep_req l) (\<lambda>_. reply_result dev hdr no_reply_data result))) s
      | None \<Rightarrow> reply_error_explicit dev hdr (Os EINVAL) s)"

definition srv_removemapping :: "device \<Rightarrow> ('s, 'v lent) fs_ops \<Rightarrow> in_header \<Rightarrow> fuse_context \<Rightarrow> ('s, 'v, nat) sop" where
  "srv_removemapping dev fs hdr ctx s =
     (case sv_req s of
        Some req \<Rightarrow>
          sbind (srv_read_obj removemapping_in_codec) (\<lambda>i.
            if unat (rmi_count i) * size_of removemapping_one_codec > USIZE_MAX
            then reply_error_explicit dev hdr (Os EOVERFLOW)
            else if unat (rmi_count i) * size_of removemapping_one_codec > unat MAX_BUFFER_SIZE
            then reply_error_explicit dev hdr (Os ENOMEM)
            else
              sbind (read_objs removemapping_one_codec (unat (rmi_count i))) (\<lambda>requests.
              sbind (scall_lent (fs_removemapping fs ctx (ih_nodeid hdr) requests) (LReq req)) (\<lambda>(result, l).
              sbind (srv_keep_req l) (\<lambda>_. reply_result dev hdr no_reply_data result)))) s
      | None \<Rightarrow> reply_error_explicit dev hdr (Os EINVAL) s)"

section \<open>Dispatch\<close>

definition dispatch_opcode ::
  "device \<Rightarrow> u64 \<Rightarrow> ('s, 'v lent) fs_ops \<Rightarrow> in_header \<Rightarrow> fuse_context \<Rightarrow> ('s, 'v, nat) sop" where
  "dispatch_opcode dev pagesize fs hdr ctx =
     (let x = ih_opcode hdr in
      if x = OpLookup then srv_lookup dev fs hdr ctx
      else if x = OpForget then srv_forget fs hdr ctx
      else if x = OpGetattr then srv_getattr dev fs hdr ctx
      else if x = OpSetattr then srv_setattr dev fs hdr ctx
      else if x = OpReadlink then srv_readlink dev fs hdr ctx
      else if x = OpSymlink then srv_symlink dev fs hdr ctx
      else if x = OpMknod then srv_mknod dev fs hdr ctx
      else if x = OpMkdir then srv_mkdir dev fs hdr ctx
      else if x = OpUnlink then srv_unlink dev fs hdr ctx
      else if x = OpRmdir then srv_rmdir dev fs hdr ctx
      else if x = OpRename then srv_rename dev fs hdr ctx
      else if x = OpLink then srv_link dev fs hdr ctx
      else if x = OpOpen then srv_open dev fs hdr ctx
      else if x = OpRead then srv_read dev fs hdr ctx
      else if x = OpWrite then srv_write_op dev fs hdr ctx
      else if x = OpStatfs then srv_statfs dev fs hdr ctx
      else if x = OpRelease then srv_release dev fs hdr ctx
      else if x = OpFsync then srv_fsync dev fs hdr ctx
      else if x = OpSetxattr then srv_setxattr dev fs hdr ctx
      else if x = OpGetxattr then srv_getxattr dev fs hdr ctx
      else if x = OpListxattr then srv_listxattr dev fs hdr ctx
      else if x = OpRemovexattr then srv_removexattr dev fs hdr ctx
      else if x = OpFlush then srv_flush dev fs hdr ctx
      else if x = OpInit then srv_init dev pagesize fs hdr
      else if x = OpOpendir then srv_opendir dev fs hdr ctx
      else if x = OpReaddir then srv_readdir dev fs hdr ctx
      else if x = OpReleasedir then srv_releasedir dev fs hdr ctx
      else if x = OpFsyncdir then srv_fsyncdir dev fs hdr ctx
      else if x = OpGetlk then srv_getlk dev fs hdr ctx
      else if x = OpSetlk then srv_setlk dev fs hdr ctx
      else if x = OpSetlkw then srv_setlkw dev fs hdr ctx
      else if x = OpAccess then srv_access dev fs hdr ctx
      else if x = OpCreate then srv_create dev fs hdr ctx
      else if x = OpBmap then srv_bmap dev fs hdr ctx
      else if x = OpIoctl then srv_ioctl dev fs hdr ctx
      else if x = OpPoll then srv_poll dev fs hdr ctx
      else if x = OpNotifyReply then srv_notify_reply dev fs hdr
      else if x = OpBatchForget then srv_batch_forget fs hdr ctx
      else if x = OpFallocate then srv_fallocate dev fs hdr ctx
      else if x = OpReaddirplus then srv_readdirplus dev fs hdr ctx
      else if x = OpRename2 then srv_rename2 dev fs hdr ctx
      else if x = OpLseek then srv_lseek dev fs hdr ctx
      else if x = OpSetupMapping then srv_setupmapping dev fs hdr ctx
      else if x = OpRemoveMapping then srv_removemapping dev fs hdr ctx
      else if x = OpInterrupt then sret 0
      else if x = OpDestroy then srv_destroy dev fs hdr
      else reply_error dev hdr (Os ENOSYS))"

definition handle_message :: "device \<Rightarrow> u64 \<Rightarrow> ('s, 'v lent) fs_ops \<Rightarrow> ('s, 'v, nat) sop" where
  "handle_message dev pagesize fs =
     sbind (srv_read_obj in_header_codec) (\<lambda>hdr s.
       case fs_id_remap fs (context_from hdr) (sv_fs s) of
         Err e \<Rightarrow> (XErr (FailedToRemapID (ih_uid hdr) (ih_gid hdr)), s)
       | Panic \<Rightarrow> (XPanic, s)
       | Ok ctx \<Rightarrow>
           if ih_len hdr > MAX_BUFFER_SIZE + BUFFER_HEADER_SIZE then
             (if ih_opcode hdr = OpForget \<or> ih_opcode hdr = OpBatchForget
              then (XErr (InvalidMessage (Os EOVERFLOW)), s)
              else reply_error_explicit dev hdr (Os ENOMEM) s)
           else dispatch_opcode dev pagesize fs hdr ctx s)"

section \<open>Notifications\<close>

text \<open>\<^verbatim>\<open>notify_inval_entry\<close> and \<^verbatim>\<open>notify_resend\<close> send messages of the server's own.\<close>

definition NOTIFY_INVAL_ENTRY :: i32 where "NOTIFY_INVAL_ENTRY = 3"
definition NOTIFY_RESEND :: i32 where "NOTIFY_RESEND = 7"

fun xfail :: "(io_error \<Rightarrow> fuse_error) \<Rightarrow> 'a res \<Rightarrow> (fuse_error, 'a) xresult" where
  "xfail f (Ok x) = XOk x"
| "xfail f (Err e) = XErr (f e)"
| "xfail f Panic = XPanic"

text \<open>The objects are written whole; the bytes behind them, if any, with a single \<^verbatim>\<open>write\<close>.\<close>

fun send_parts :: "device \<Rightarrow> bytes list \<Rightarrow> bytes option \<Rightarrow> fusedev_writer \<Rightarrow> world \<Rightarrow> (fuse_error, nat) xresult \<times> world" where
  "send_parts dev objs rest w wd =
     (case fw_split_at 0 w of
        (XErr e, _) \<Rightarrow> (XErr (FailedToSplitWriter e), wd)
      | (XPanic, _) \<Rightarrow> (XPanic, wd)
      | (XOk bw, _) \<Rightarrow>
          (case op_bind (put_all (write_all dev) objs (FuseDev bw, wd)) (\<lambda>_ s.
                  case rest of Some bs \<Rightarrow> op_bind (w_write dev bs s) (\<lambda>_ s. (Ok (), s)) | None \<Rightarrow> (Ok (), s)) of
             (Ok _, w', wd') \<Rightarrow> (case w_commit dev None w' wd' of (r, wd'') \<Rightarrow> (xfail InvalidMessage r, wd''))
           | (Err e, _, wd') \<Rightarrow> (XErr (FailedToWrite e), wd')
           | (Panic, _, wd') \<Rightarrow> (XPanic, wd')))"

definition notify_inval_entry ::
  "device \<Rightarrow> u64 \<Rightarrow> cname \<Rightarrow> fusedev_writer \<Rightarrow> world \<Rightarrow> (fuse_error, nat) xresult \<times> world" where
  "notify_inval_entry dev parent name =
     (let name_with_null = bytes_of_name name @ [0];
          header = \<lparr>oh_len = of_nat (size_of out_header_codec) + of_nat (size_of notify_inval_entry_out_codec) +
                      of_nat (length name_with_null), oh_error = NOTIFY_INVAL_ENTRY, oh_unique = 0\<rparr>;
          entry = \<lparr>ni_parent = parent, ni_namelen = of_nat (length name_with_null - 1), ni_padding = 0\<rparr>
      in send_parts dev
           [as_slice out_header_codec header, as_slice notify_inval_entry_out_codec entry] (Some name_with_null))"

definition notify_resend :: "device \<Rightarrow> fusedev_writer \<Rightarrow> world \<Rightarrow> (fuse_error, unit) xresult \<times> world" where
  "notify_resend dev w wd =
     (case send_parts dev
             [as_slice out_header_codec \<lparr>oh_len = 0, oh_error = NOTIFY_RESEND, oh_unique = 0\<rparr>] None w wd of
        (r, wd') \<Rightarrow> (xbind r (\<lambda>_. XOk ()), wd'))"

end
