(* ===== verification/Server_Spec.thy ===== *)
theory Server_Spec
  imports Server
begin

text \<open>
  What the server does with a request that a client encoded: the specification of a request as
  a call of the file system and an answer, and the proof that \<^verbatim>\<open>handle_message\<close> on the bytes of
  the request makes exactly that call and sends exactly that answer, as one message.
\<close>

section \<open>Reading a message\<close>

definition srv_content :: "('s, 'v) srv \<Rightarrow> bytes" where
  "srv_content s = reader_bytes (wd_mem (sv_world s)) (sv_r s)"

definition srv_advance :: "nat \<Rightarrow> ('s, 'v) srv \<Rightarrow> ('s, 'v) srv" where
  "srv_advance n s = s\<lparr>sv_r := snd (read_exact (wd_mem (sv_world s)) n (sv_r s))\<rparr>"

definition srv_rd :: "('s, 'v) srv \<Rightarrow> bool" where
  "srv_rd s \<longleftrightarrow> reader_wf (sv_r s)"

lemma srv_advance_frame [simp]:
  "sv_fs (srv_advance n s) = sv_fs s" "sv_vers (srv_advance n s) = sv_vers s" "sv_w (srv_advance n s) = sv_w s"
  "sv_world (srv_advance n s) = sv_world s" "sv_req (srv_advance n s) = sv_req s"
  by (simp_all add: srv_advance_def)

lemma srv_advance_step:
  assumes "srv_rd s" and "n \<le> length (srv_content s)"
  shows "srv_rd (srv_advance n s) \<and> srv_content (srv_advance n s) = drop n (srv_content s) \<and>
    read_exact (wd_mem (sv_world s)) n (sv_r s) = (Ok (take n (srv_content s)), sv_r (srv_advance n s))"
  using reader.fetch_ok [of "sv_r s" n "wd_mem (sv_world s)"] assms
  by (auto simp: srv_rd_def srv_content_def srv_advance_def)

lemma srv_advance_rd [simp]: "srv_rd s \<Longrightarrow> n \<le> length (srv_content s) \<Longrightarrow> srv_rd (srv_advance n s)"
  using srv_advance_step by blast

lemma srv_content_advance [simp]:
  "srv_rd s \<Longrightarrow> n \<le> length (srv_content s) \<Longrightarrow> srv_content (srv_advance n s) = drop n (srv_content s)"
  using srv_advance_step by blast

lemma srv_sv_r_advance [simp]:
  "s\<lparr>sv_r := sv_r (srv_advance n s)\<rparr> = srv_advance n s"
  by (simp add: srv_advance_def)

lemma srv_read_obj_ok:
  assumes "srv_rd s" and "size_of c \<le> length (srv_content s)"
  shows "srv_read_obj c s = (XOk (from_slice c (take (size_of c) (srv_content s))), srv_advance (size_of c) s)"
  using srv_advance_step [OF assms] by (simp add: srv_read_obj_def read_obj_def)

lemma get_message_body_ok:
  assumes "srv_rd s" and "unat (ih_len hdr) = size_of in_header_codec + sub + n" and "n \<le> length (srv_content s)"
  shows "get_message_body hdr sub s = (XOk (take n (srv_content s)), srv_advance n s)"
  using srv_advance_step [OF assms(1,3)] assms(2) by (simp add: get_message_body_def)

lemma sbind_XOk: "m s = (XOk x, s') \<Longrightarrow> sbind m f s = f x s'"
  by (simp add: sbind_def)

lemma sbind_cases:
  "fst (m s) = XOk x \<Longrightarrow> sbind m f s = f x (snd (m s))"
  "fst (m s) = XErr e \<Longrightarrow> sbind m f s = (XErr e, snd (m s))"
  "fst (m s) = XPanic \<Longrightarrow> sbind m f s = (XPanic, snd (m s))"
  by (cases "m s"; simp add: sbind_def)+

section \<open>Sending one message\<close>

text \<open>
  The device takes every message whole, which is what \<^verbatim>\<open>/dev/fuse\<close> does with a message it
  accepts; the writer is fresh and has room for \<open>n\<close> bytes.
\<close>

definition dev_accepts :: "device \<Rightarrow> bool" where
  "dev_accepts dev \<longleftrightarrow> (\<forall>log msg. dev log msg = Inr (length msg))"

fun w_fresh :: "nat \<Rightarrow> writer \<Rightarrow> bool" where
  "w_fresh n (FuseDev w) \<longleftrightarrow> \<not> fw_buffered w \<and> fw_len w = 0 \<and> n \<le> length (fw_store w)"
| "w_fresh n _ \<longleftrightarrow> False"

definition out_msg :: "i32 \<Rightarrow> u64 \<Rightarrow> bytes \<Rightarrow> bytes" where
  "out_msg err unique payload =
     as_slice out_header_codec \<lparr>oh_len = of_nat (16 + length payload), oh_error = err, oh_unique = unique\<rparr> @ payload"

definition srv_sent :: "bytes \<Rightarrow> ('s, 'v) srv \<Rightarrow> ('s, 'v) srv" where
  "srv_sent msg s =
     s\<lparr>sv_w := (case sv_w s of FuseDev w \<Rightarrow> FuseDev (fw_account_written (length msg) w) | w \<Rightarrow> w),
       sv_world := (sv_world s)\<lparr>wd_dev := wd_dev (sv_world s) @ [msg]\<rparr>\<rparr>"

lemma srv_sent_frame [simp]:
  "sv_fs (srv_sent msg s) = sv_fs s" "sv_vers (srv_sent msg s) = sv_vers s" "sv_r (srv_sent msg s) = sv_r s"
  "wd_dev (sv_world (srv_sent msg s)) = wd_dev (sv_world s) @ [msg]"
  by (simp_all add: srv_sent_def)

lemma size_of_out_header [simp]: "size_of out_header_codec = 16"
  by (simp add: size_of_def out_header_codec_def)

lemma size_of_in_header [simp]: "size_of in_header_codec = 40"
  by (simp add: size_of_def in_header_codec_def)

lemma srv_write_sent:
  assumes "dev_accepts dev" and "w_fresh (length msg) (sv_w s)"
  shows "srv_write (w_write dev msg) s = (XOk (length msg), srv_sent msg s)"
    and "msg = concat bufs \<Longrightarrow> bufs \<noteq> [] \<Longrightarrow>
      srv_write (w_write_vectored dev bufs) s = (XOk (length msg), srv_sent msg s)"
proof -
  obtain w where w: "sv_w s = FuseDev w" "\<not> fw_buffered w" "fw_len w = 0" "length msg \<le> length (fw_store w)"
    using assms(2) by (cases "sv_w s") auto
  have send: "dev_send dev msg wd = (Inr (length msg), wd\<lparr>wd_dev := wd_dev wd @ [msg]\<rparr>)" for wd
    using assms(1) by (simp add: dev_send_def dev_accepts_def)
  show "srv_write (w_write dev msg) s = (XOk (length msg), srv_sent msg s)"
    using w send
    by (simp add: srv_write_def fw_write_def fw_check_available_space_def fw_available_bytes_def srv_sent_def)
  show "srv_write (w_write_vectored dev bufs) s = (XOk (length msg), srv_sent msg s)"
    if bufs: "msg = concat bufs" "bufs \<noteq> []"
  proof -
    have "foldl (\<lambda>acc x. acc + length x) n bs = n + length (concat bs)" for n and bs :: "bytes list"
      by (induction bs arbitrary: n) auto
    then show ?thesis
      using w send bufs
      by (simp add: srv_write_def fw_write_vectored_def fw_check_available_space_def fw_available_bytes_def srv_sent_def)
  qed
qed

lemma bytes_written_sent: "w_fresh n (sv_w s) \<Longrightarrow> w_bytes_written (sv_w (srv_sent msg s)) = length msg"
  by (cases "sv_w s") (simp_all add: srv_sent_def fw_account_written_def fw_bytes_written_def)

lemma length_out_msg [simp]: "length (out_msg err u p) = 16 + length p"
  by (simp add: out_msg_def)

lemma reply_ok_sent:
  assumes "dev_accepts dev" and "w_fresh (16 + length (opt_bytes out) + length (opt_bytes data)) (sv_w s)"
  shows "reply_ok dev hdr out data s =
    (XOk (16 + length (opt_bytes out) + length (opt_bytes data)),
     srv_sent (out_msg 0 (ih_unique hdr) (opt_bytes out @ opt_bytes data)) s)"
proof -
  let ?p = "opt_bytes out @ opt_bytes data"
  let ?msg = "out_msg 0 (ih_unique hdr) ?p"
  have fresh: "w_fresh (length ?msg) (sv_w s)" using assms(2) by (simp add: add.assoc)
  have "srv_write (w_write dev ?msg) s = (XOk (length ?msg), srv_sent ?msg s)"
    "\<And>bufs. ?msg = concat bufs \<Longrightarrow> bufs \<noteq> [] \<Longrightarrow>
       srv_write (w_write_vectored dev bufs) s = (XOk (length ?msg), srv_sent ?msg s)"
    using srv_write_sent [OF assms(1) fresh] by blast+
  then show ?thesis
    using bytes_written_sent [OF fresh, of ?msg]
    by (auto simp: reply_ok_def Let_def sbind_def out_msg_def add.assoc split: if_splits)
qed

lemma write_all_fresh:
  assumes "dev_accepts dev" and "w_fresh (length msg) w" and "msg \<noteq> []"
  shows "write_all dev msg (w, wd) =
    (Ok (), (case w of FuseDev v \<Rightarrow> FuseDev (fw_account_written (length msg) v) | v \<Rightarrow> v),
     wd\<lparr>wd_dev := wd_dev wd @ [msg]\<rparr>)"
proof (rule write_all_done [OF _ assms(3)])
  show "w_write dev msg (w, wd) = (Ok (length msg),
      (case w of FuseDev v \<Rightarrow> FuseDev (fw_account_written (length msg) v) | v \<Rightarrow> v), wd\<lparr>wd_dev := wd_dev wd @ [msg]\<rparr>)"
    using assms(1,2)
    by (cases w) (simp_all add: fw_write_def fw_check_available_space_def fw_available_bytes_def dev_send_def dev_accepts_def)
qed

lemma out_msg_not_Nil [simp]: "out_msg err u p \<noteq> []"
  by (metis length_out_msg length_0_conv add_eq_0_iff_both_eq_0 numeral_neq_zero zero_neq_numeral)

lemma do_reply_error_sent:
  assumes "dev_accepts dev" and "w_fresh 16 (sv_w s)"
  shows "do_reply_error dev hdr e s =
    (XOk 16, srv_sent (out_msg (- of_int (error_code e)) (ih_unique hdr) []) s)"
proof -
  let ?msg = "out_msg (- of_int (error_code e)) (ih_unique hdr) []"
  obtain w where w: "sv_w s = FuseDev w" "\<not> fw_buffered w" using assms(2) by (cases "sv_w s") auto
  have "srv_write (write_all dev ?msg) s = (XOk (), srv_sent ?msg s)"
    using write_all_fresh [OF assms(1), of ?msg "sv_w s"] assms(2) by (simp add: srv_write_def srv_sent_def)
  moreover have "srv_commit dev None (srv_sent ?msg s) = (XOk 0, srv_sent ?msg s)"
    using w by (simp add: srv_commit_def srv_write_def srv_sent_def fw_commit_def fw_account_written_def)
  ultimately show ?thesis
    using bytes_written_sent [OF assms(2), of ?msg]
    by (simp add: do_reply_error_def Let_def sbind_def out_msg_def)
qed

section \<open>Requests\<close>

text \<open>
  The requests that are a call of the file system and an answer, as a client builds them.
  \<^verbatim>\<open>SETLKW\<close>, which the server passes to another method than it asks for, the requests that lend
  a reader, a writer or the DAX window, and those without an answer are treated apart.
\<close>

datatype (plugins only: code) request =
    ReqLookup cname | ReqGetattr getattr_in | ReqSetattr setattr_in | ReqReadlink
  | ReqSymlink cname cname | ReqMknod mknod_in cname | ReqMkdir mkdir_in cname | ReqUnlink cname
  | ReqRmdir cname | ReqRename rename_in cname cname | ReqRename2 rename2_in cname cname
  | ReqLink link_in cname | ReqOpen open_in | ReqStatfs | ReqRelease release_in | ReqFsync fsync_in
  | ReqSetxattr u32 cname bytes | ReqGetxattr getxattr_in cname | ReqListxattr getxattr_in
  | ReqRemovexattr cname | ReqFlush flush_in | ReqOpendir open_in | ReqReleasedir release_in
  | ReqFsyncdir fsync_in | ReqGetlk lk_in | ReqSetlk lk_in | ReqAccess access_in
  | ReqCreate create_in cname | ReqBmap bmap_in | ReqPoll poll_in | ReqFallocate fallocate_in
  | ReqLseek lseek_in

primrec req_opcode :: "request \<Rightarrow> u32" where
  "req_opcode (ReqLookup n) = OpLookup"
| "req_opcode (ReqGetattr i) = OpGetattr"
| "req_opcode (ReqSetattr i) = OpSetattr"
| "req_opcode ReqReadlink = OpReadlink"
| "req_opcode (ReqSymlink n l) = OpSymlink"
| "req_opcode (ReqMknod i n) = OpMknod"
| "req_opcode (ReqMkdir i n) = OpMkdir"
| "req_opcode (ReqUnlink n) = OpUnlink"
| "req_opcode (ReqRmdir n) = OpRmdir"
| "req_opcode (ReqRename i n n') = OpRename"
| "req_opcode (ReqRename2 i n n') = OpRename2"
| "req_opcode (ReqLink i n) = OpLink"
| "req_opcode (ReqOpen i) = OpOpen"
| "req_opcode ReqStatfs = OpStatfs"
| "req_opcode (ReqRelease i) = OpRelease"
| "req_opcode (ReqFsync i) = OpFsync"
| "req_opcode (ReqSetxattr f n v) = OpSetxattr"
| "req_opcode (ReqGetxattr i n) = OpGetxattr"
| "req_opcode (ReqListxattr i) = OpListxattr"
| "req_opcode (ReqRemovexattr n) = OpRemovexattr"
| "req_opcode (ReqFlush i) = OpFlush"
| "req_opcode (ReqOpendir i) = OpOpendir"
| "req_opcode (ReqReleasedir i) = OpReleasedir"
| "req_opcode (ReqFsyncdir i) = OpFsyncdir"
| "req_opcode (ReqGetlk i) = OpGetlk"
| "req_opcode (ReqSetlk i) = OpSetlk"
| "req_opcode (ReqAccess i) = OpAccess"
| "req_opcode (ReqCreate i n) = OpCreate"
| "req_opcode (ReqBmap i) = OpBmap"
| "req_opcode (ReqPoll i) = OpPoll"
| "req_opcode (ReqFallocate i) = OpFallocate"
| "req_opcode (ReqLseek i) = OpLseek"

definition enc_name :: "cname \<Rightarrow> bytes" where
  "enc_name n = bytes_of_name n @ [0]"

text \<open>The bytes after the header, as the protocol lays them out.\<close>

primrec req_body :: "request \<Rightarrow> bytes" where
  "req_body (ReqLookup n) = enc_name n"
| "req_body (ReqGetattr i) = as_slice getattr_in_codec i"
| "req_body (ReqSetattr i) = as_slice setattr_in_codec i"
| "req_body ReqReadlink = []"
| "req_body (ReqSymlink n l) = enc_name n @ enc_name l"
| "req_body (ReqMknod i n) = as_slice mknod_in_codec i @ enc_name n"
| "req_body (ReqMkdir i n) = as_slice mkdir_in_codec i @ enc_name n"
| "req_body (ReqUnlink n) = enc_name n"
| "req_body (ReqRmdir n) = enc_name n"
| "req_body (ReqRename i n n') = as_slice rename_in_codec i @ enc_name n @ enc_name n'"
| "req_body (ReqRename2 i n n') = as_slice rename2_in_codec i @ enc_name n @ enc_name n'"
| "req_body (ReqLink i n) = as_slice link_in_codec i @ enc_name n"
| "req_body (ReqOpen i) = as_slice open_in_codec i"
| "req_body ReqStatfs = []"
| "req_body (ReqRelease i) = as_slice release_in_codec i"
| "req_body (ReqFsync i) = as_slice fsync_in_codec i"
| "req_body (ReqSetxattr f n v) =
     as_slice setxattr_in_codec \<lparr>sx_size = of_nat (length v), sx_flags = f\<rparr> @ enc_name n @ v"
| "req_body (ReqGetxattr i n) = as_slice getxattr_in_codec i @ enc_name n"
| "req_body (ReqListxattr i) = as_slice getxattr_in_codec i"
| "req_body (ReqRemovexattr n) = enc_name n"
| "req_body (ReqFlush i) = as_slice flush_in_codec i"
| "req_body (ReqOpendir i) = as_slice open_in_codec i"
| "req_body (ReqReleasedir i) = as_slice release_in_codec i"
| "req_body (ReqFsyncdir i) = as_slice fsync_in_codec i"
| "req_body (ReqGetlk i) = as_slice lk_in_codec i"
| "req_body (ReqSetlk i) = as_slice lk_in_codec i"
| "req_body (ReqAccess i) = as_slice access_in_codec i"
| "req_body (ReqCreate i n) = as_slice create_in_codec i @ enc_name n"
| "req_body (ReqBmap i) = as_slice bmap_in_codec i"
| "req_body (ReqPoll i) = as_slice poll_in_codec i"
| "req_body (ReqFallocate i) = as_slice fallocate_in_codec i"
| "req_body (ReqLseek i) = as_slice lseek_in_codec i"

definition name_ok :: "cname \<Rightarrow> bool" where
  "name_ok n \<longleftrightarrow> CHR 0x00 \<notin> set n"

text \<open>The names of a request: what \<^verbatim>\<open>CStr\<close> can carry.\<close>

primrec req_names :: "request \<Rightarrow> cname list" where
  "req_names (ReqLookup n) = [n]"
| "req_names (ReqGetattr i) = []"
| "req_names (ReqSetattr i) = []"
| "req_names ReqReadlink = []"
| "req_names (ReqSymlink n l) = [n, l]"
| "req_names (ReqMknod i n) = [n]"
| "req_names (ReqMkdir i n) = [n]"
| "req_names (ReqUnlink n) = [n]"
| "req_names (ReqRmdir n) = [n]"
| "req_names (ReqRename i n n') = [n, n']"
| "req_names (ReqRename2 i n n') = [n, n']"
| "req_names (ReqLink i n) = [n]"
| "req_names (ReqOpen i) = []"
| "req_names ReqStatfs = []"
| "req_names (ReqRelease i) = []"
| "req_names (ReqFsync i) = []"
| "req_names (ReqSetxattr f n v) = [n]"
| "req_names (ReqGetxattr i n) = [n]"
| "req_names (ReqListxattr i) = []"
| "req_names (ReqRemovexattr n) = [n]"
| "req_names (ReqFlush i) = []"
| "req_names (ReqOpendir i) = []"
| "req_names (ReqReleasedir i) = []"
| "req_names (ReqFsyncdir i) = []"
| "req_names (ReqGetlk i) = []"
| "req_names (ReqSetlk i) = []"
| "req_names (ReqAccess i) = []"
| "req_names (ReqCreate i n) = [n]"
| "req_names (ReqBmap i) = []"
| "req_names (ReqPoll i) = []"
| "req_names (ReqFallocate i) = []"
| "req_names (ReqLseek i) = []"

text \<open>
  An answer is an error or the bytes after the header of the reply; \<open>None\<close> is a panic of the
  file system.
\<close>

type_synonym answer = "(io_error + bytes) option"

definition answer :: "('a \<Rightarrow> bytes option \<times> bytes option) \<Rightarrow> 'a res \<times> 's \<Rightarrow> answer \<times> 's" where
  "answer f p =
     (case p of
        (Ok x, t) \<Rightarrow> (Some (Inr (case f x of (out, data) \<Rightarrow> opt_bytes out @ opt_bytes data)), t)
      | (Err e, t) \<Rightarrow> (Some (Inl e), t)
      | (Panic, t) \<Rightarrow> (None, t))"

abbreviation out_data :: "bytes \<Rightarrow> bytes option \<times> bytes option" where
  "out_data bs \<equiv> (Some bs, None)"

text \<open>A client before version 7.4 takes an inode number 0 for a file.\<close>

definition negative_entry :: "u32 \<Rightarrow> entry res \<times> 's \<Rightarrow> entry res \<times> 's" where
  "negative_entry minor p =
     (case p of
        (Ok e, t) \<Rightarrow> (if minor < 4 \<and> e_inode e = 0 then Err (Os ENOENT) else Ok e, t)
      | (r, t) \<Rightarrow> (r, t))"

primrec serve ::
  "('s, 'c) fs_ops \<Rightarrow> u32 \<Rightarrow> fuse_context \<Rightarrow> u64 \<Rightarrow> request \<Rightarrow> 's \<Rightarrow> answer \<times> 's" where
  "serve fs minor ctx ino (ReqLookup n) t = answer entry_reply (negative_entry minor (fs_lookup fs ctx ino n t))"
| "serve fs minor ctx ino (ReqGetattr i) t =
     answer (\<lambda>r. out_data (as_slice attr_out_codec (attr_out_from r)))
       (fs_getattr fs ctx ino (if ga_flags i AND GETATTR_FH \<noteq> 0 then Some (ga_fh i) else None) t)"
| "serve fs minor ctx ino (ReqSetattr i) t =
     answer (\<lambda>r. out_data (as_slice attr_out_codec (attr_out_from r)))
       (fs_setattr fs ctx ino (stat64_from_setattr i)
          (if sa_valid i AND FATTR_FH \<noteq> 0 then Some (sa_fh i) else None) (sa_valid i AND setattr_valid_all) t)"
| "serve fs minor ctx ino ReqReadlink t = answer (\<lambda>l. (None, Some l)) (fs_readlink fs ctx ino t)"
| "serve fs minor ctx ino (ReqSymlink n l) t = answer entry_reply (fs_symlink fs ctx l ino n t)"
| "serve fs minor ctx ino (ReqMknod i n) t =
     answer entry_reply (fs_mknod fs ctx ino n (mn_mode i) (mn_rdev i) (mn_umask i) t)"
| "serve fs minor ctx ino (ReqMkdir i n) t = answer entry_reply (fs_mkdir fs ctx ino n (mk_mode i) (mk_umask i) t)"
| "serve fs minor ctx ino (ReqUnlink n) t = answer no_reply_data (fs_unlink fs ctx ino n t)"
| "serve fs minor ctx ino (ReqRmdir n) t = answer no_reply_data (fs_rmdir fs ctx ino n t)"
| "serve fs minor ctx ino (ReqRename i n n') t =
     answer no_reply_data (fs_rename fs ctx ino n (rn_newdir i) n' 0 t)"
| "serve fs minor ctx ino (ReqRename2 i n n') t =
     answer no_reply_data (fs_rename fs ctx ino n (r2_newdir i) n' (r2_flags i AND 7) t)"
| "serve fs minor ctx ino (ReqLink i n) t = answer entry_reply (fs_link fs ctx (li_oldnodeid i) ino n t)"
| "serve fs minor ctx ino (ReqOpen i) t =
     answer (\<lambda>r. out_data (as_slice open_out_codec (open_out_from r)))
       (fs_open fs ctx ino (oi_flags i) (oi_fuse_flags i) t)"
| "serve fs minor ctx ino ReqStatfs t =
     answer (\<lambda>st. out_data (as_slice kstatfs_codec (kstatfs_from st))) (fs_statfs fs ctx ino t)"
| "serve fs minor ctx ino (ReqRelease i) t =
     (let do_flush = (re_release_flags i AND RELEASE_FLUSH \<noteq> 0);
          flock_release = (re_release_flags i AND RELEASE_FLOCK_UNLOCK \<noteq> 0)
      in answer no_reply_data
           (fs_release fs ctx ino (re_flags i) (re_fh i) do_flush flock_release
              (if do_flush \<or> flock_release then Some (re_lock_owner i) else None) t))"
| "serve fs minor ctx ino (ReqFsync i) t =
     answer no_reply_data (fs_fsync fs ctx ino (fsn_fsync_flags i AND 1 \<noteq> 0) (fsn_fh i) t)"
| "serve fs minor ctx ino (ReqSetxattr f n v) t = answer no_reply_data (fs_setxattr fs ctx ino n v f t)"
| "serve fs minor ctx ino (ReqGetxattr i n) t = answer getxattr_data (fs_getxattr fs ctx ino n (gx_size i) t)"
| "serve fs minor ctx ino (ReqListxattr i) t = answer listxattr_data (fs_listxattr fs ctx ino (gx_size i) t)"
| "serve fs minor ctx ino (ReqRemovexattr n) t = answer no_reply_data (fs_removexattr fs ctx ino n t)"
| "serve fs minor ctx ino (ReqFlush i) t =
     answer no_reply_data (fs_flush fs ctx ino (fu_fh i) (fu_lock_owner i) t)"
| "serve fs minor ctx ino (ReqOpendir i) t =
     answer (\<lambda>(handle, opts). out_data (as_slice open_out_codec (open_out_from (handle, opts, None))))
       (fs_opendir fs ctx ino (oi_flags i) t)"
| "serve fs minor ctx ino (ReqReleasedir i) t =
     answer no_reply_data (fs_releasedir fs ctx ino (re_flags i) (re_fh i) t)"
| "serve fs minor ctx ino (ReqFsyncdir i) t =
     answer no_reply_data (fs_fsyncdir fs ctx ino (fsn_fsync_flags i AND 1 \<noteq> 0) (fsn_fh i) t)"
| "serve fs minor ctx ino (ReqGetlk i) t =
     answer (\<lambda>l. out_data (as_slice lk_out_codec \<lparr>lo_lk = l\<rparr>))
       (fs_getlk fs ctx ino (lk_fh i) (lk_owner i) (lk_lk i) (lk_lk_flags i) t)"
| "serve fs minor ctx ino (ReqSetlk i) t =
     answer no_reply_data (fs_setlk fs ctx ino (lk_fh i) (lk_owner i) (lk_lk i) (lk_lk_flags i) t)"
| "serve fs minor ctx ino (ReqAccess i) t = answer no_reply_data (fs_access fs ctx ino (ac_mask i) t)"
| "serve fs minor ctx ino (ReqCreate i n) t = answer create_reply (fs_create fs ctx ino n i t)"
| "serve fs minor ctx ino (ReqBmap i) t =
     answer (\<lambda>b. out_data (as_slice bmap_out_codec \<lparr>bo_block = b\<rparr>))
       (fs_bmap fs ctx ino (bi_block i) (bi_blocksize i) t)"
| "serve fs minor ctx ino (ReqPoll i) t =
     answer (\<lambda>r. out_data (as_slice poll_out_codec \<lparr>po_revents = r, po_padding = 0\<rparr>))
       (fs_poll fs ctx ino (pi_fh i) (pi_kh i) (pi_flags i) (pi_events i) t)"
| "serve fs minor ctx ino (ReqFallocate i) t =
     answer no_reply_data (fs_fallocate fs ctx ino (fa_fh i) (fa_mode i) (fa_offset i) (fa_length i) t)"
| "serve fs minor ctx ino (ReqLseek i) t =
     answer (\<lambda>off. out_data (as_slice lseek_out_codec \<lparr>lu_offset = off\<rparr>))
       (fs_lseek fs ctx ino (ls_fh i) (ls_offset i) (ls_whence i) t)"

section \<open>Serving a request\<close>

fun answer_msg :: "u64 \<Rightarrow> io_error + bytes \<Rightarrow> bytes" where
  "answer_msg u (Inr p) = out_msg 0 u p"
| "answer_msg u (Inl e) = out_msg (- of_int (error_code e)) u []"

definition served ::
  "u64 \<Rightarrow> io_error + bytes \<Rightarrow> 's \<Rightarrow> ('s, 'v) srv \<Rightarrow> (fuse_error, nat) xresult \<times> ('s, 'v) srv \<Rightarrow> bool" where
  "served u a t s p \<longleftrightarrow>
     (\<exists>s'. p = (XOk (length (answer_msg u a)), s') \<and> sv_fs s' = t \<and> sv_vers s' = sv_vers s \<and>
        wd_dev (sv_world s') = wd_dev (sv_world s) @ [answer_msg u a])"

definition ready ::
  "device \<Rightarrow> in_header \<Rightarrow> nat \<Rightarrow> bytes \<Rightarrow> io_error + bytes \<Rightarrow> ('s, 'v) srv \<Rightarrow> bool" where
  "ready dev hdr k body a s \<longleftrightarrow> dev_accepts dev \<and> srv_rd s \<and> srv_content s = body \<and>
     unat (ih_len hdr) = size_of in_header_codec + k + length body \<and>
     w_fresh (length (answer_msg (ih_unique hdr) a)) (sv_w s)"

definition same :: "('s, 'v) srv \<Rightarrow> ('s, 'v) srv \<Rightarrow> bool" where
  "same s s1 \<longleftrightarrow> sv_fs s1 = sv_fs s \<and> sv_vers s1 = sv_vers s \<and> sv_w s1 = sv_w s \<and> sv_world s1 = sv_world s"

lemma same_advance [simp]: "same s (srv_advance n s)"
  by (simp add: same_def)

lemma served_same: "same s s1 \<Longrightarrow> served u a t s1 p \<Longrightarrow> served u a t s p"
  by (simp add: served_def same_def)

lemma served_read:
  assumes "byte_valued c" and "ready dev hdr k (as_slice c x @ rest) a s"
    and "\<And>s1. same s s1 \<Longrightarrow> ready dev hdr (k + size_of c) rest a s1 \<Longrightarrow> served u a t s1 (f x s1)"
  shows "served u a t s (sbind (srv_read_obj c) f s)"
proof -
  note c = assms(1)
  have len: "length (as_slice c x) = size_of c" using c by (rule byte_valued.length_as_slice)
  have s: "srv_rd s" "srv_content s = as_slice c x @ rest" using assms(2) by (simp_all add: ready_def)
  have "srv_read_obj c s = (XOk x, srv_advance (size_of c) s)"
    using srv_read_obj_ok [OF s(1), of c] s(2) byte_valued.from_as_slice [OF c] len by simp
  moreover have "ready dev hdr (k + size_of c) rest a (srv_advance (size_of c) s)"
    using assms(2) s len by (simp add: ready_def)
  ultimately show ?thesis
    using served_same [OF same_advance assms(3) [OF same_advance]] by (simp add: sbind_def)
qed

lemma served_body:
  assumes "ready dev hdr k body a s"
    and "\<And>s1. same s s1 \<Longrightarrow> ready dev hdr (k + length body) [] a s1 \<Longrightarrow> served u a t s1 (f body s1)"
  shows "served u a t s (sbind (get_message_body hdr k) f s)"
proof -
  have s: "srv_rd s" "srv_content s = body" using assms(1) by (simp_all add: ready_def)
  have "get_message_body hdr k s = (XOk body, srv_advance (length body) s)"
    using get_message_body_ok [OF s(1), of hdr k "length body"] assms(1) by (simp add: ready_def)
  moreover have "ready dev hdr (k + length body) [] a (srv_advance (length body) s)"
    using assms(1) s by (simp add: ready_def)
  ultimately show ?thesis
    using served_same [OF same_advance assms(2) [OF same_advance]] by (simp add: sbind_def)
qed

lemma served_call:
  assumes "ready dev hdr k body a s" and "answer g (call (sv_fs s)) = (Some a, t)" and "u = ih_unique hdr"
  shows "served u a t s (sbind (scall call) (reply_result dev hdr g) s)"
proof -
  have dev: "dev_accepts dev" and fresh: "w_fresh (length (answer_msg u a)) (sv_w s)"
    using assms(1,3) by (simp_all add: ready_def)
  show ?thesis
  proof (cases "call (sv_fs s)")
    case (Pair r t')
    show ?thesis
    proof (cases r)
      case (Ok x)
      obtain out data where g: "g x = (out, data)" by fastforce
      then have a: "a = Inr (opt_bytes out @ opt_bytes data)" "t' = t"
        using assms(2) Pair Ok by (auto simp: answer_def)
      have "w_fresh (16 + length (opt_bytes out) + length (opt_bytes data)) (sv_w (s\<lparr>sv_fs := t\<rparr>))"
        using fresh a by (simp add: add.assoc)
      from reply_ok_sent [OF dev this, of hdr] show ?thesis
        using Pair Ok g a assms(3) by (simp add: sbind_def scall_def reply_result_def served_def add.assoc)
    next
      case (Err e)
      then have a: "a = Inl e" "t' = t" using assms(2) Pair by (auto simp: answer_def)
      have "w_fresh 16 (sv_w (s\<lparr>sv_fs := t\<rparr>))" using fresh a by simp
      from do_reply_error_sent [OF dev this, of hdr e] show ?thesis
        using Pair Err a assms(3) by (simp add: sbind_def scall_def reply_result_def served_def)
    next
      case Panic
      with Pair assms(2) show ?thesis by (simp add: answer_def)
    qed
  qed
qed

section \<open>Names\<close>

lemma position_notin: "\<forall>x \<in> set xs. \<not> p x \<Longrightarrow> p y \<Longrightarrow> position p (xs @ y # ys) = Some (length xs)"
  by (induction xs) auto

lemma of_char_inverse: "char_of (unat (of_char c :: u8)) = c"
proof -
  have "unat (of_nat (of_char c) :: u8) = (of_char c :: nat)" by (simp add: unat_of_nat)
  then show ?thesis unfolding of_nat_of_char by simp
qed

lemma name_of_bytes_inverse [simp]: "name_of_bytes (bytes_of_name n) = n"
  by (simp add: name_of_bytes_def bytes_of_name_def of_char_inverse comp_def)

lemma bytes_of_name_nul:
  assumes "name_ok n"
  shows "0 \<notin> set (bytes_of_name n)"
proof
  assume "0 \<in> set (bytes_of_name n)"
  then obtain c where c: "c \<in> set n" "(of_char c :: u8) = 0" by (auto simp: bytes_of_name_def)
  then have "c = char_of (unat (0 :: u8))" using of_char_inverse [of c] by simp
  moreover have "char_of (0 :: nat) = CHR 0x00" by (simp add: char_of_def)
  ultimately show False using c(1) assms by (simp add: name_ok_def)
qed

lemma position_name:
  "name_ok n \<Longrightarrow> position (\<lambda>x. x = 0) (enc_name n @ rest) = Some (length (bytes_of_name n))"
  using position_notin [of "bytes_of_name n" "\<lambda>x. x = 0" 0 rest] bytes_of_name_nul [of n]
  by (auto simp: enc_name_def)

lemma cstr_name: "name_ok n \<Longrightarrow> cstr_from_bytes_with_nul (enc_name n) = XOk n"
  using bytes_of_name_nul [of n] by (simp add: cstr_from_bytes_with_nul_def enc_name_def)

lemma take_name: "take (length (bytes_of_name n) + 1) (enc_name n @ rest) = enc_name n"
  "drop (length (bytes_of_name n) + 1) (enc_name n @ rest) = rest"
  by (simp_all add: enc_name_def)

lemma bytes_to_cstr_name: "name_ok n \<Longrightarrow> bytes_to_cstr (enc_name n @ rest) = XOk n"
  using take_name [of n rest] by (simp add: bytes_to_cstr_def position_name cstr_name)

lemma bytes_to_cstr_one [simp]: "name_ok n \<Longrightarrow> bytes_to_cstr (enc_name n) = XOk n"
  using bytes_to_cstr_name [of n "[]"] by simp

lemma extract_two_names [simp]:
  "name_ok n \<Longrightarrow> name_ok n' \<Longrightarrow> extract_two_cstrs (enc_name n @ enc_name n') = XOk (n, n')"
proof -
  assume ok: "name_ok n" "name_ok n'"
  have "length (bytes_of_name n) + 1 < length (enc_name n @ enc_name n')"
    by (simp add: enc_name_def)
  then show ?thesis
    using ok take_name [of n "enc_name n'"]
    by (simp add: extract_two_cstrs_def position_name cstr_name)
qed

lemma served_cstr:
  assumes "bytes_to_cstr buf = XOk n" and "served u a t s (f n s)"
  shows "served u a t s (sbind (srv_cstr dev hdr buf) f s)"
  using assms by (simp add: sbind_def srv_cstr_def)

lemma served_lift:
  assumes "r = XOk x" and "served u a t s (f x s)"
  shows "served u a t s (sbind (slift r) f s)"
  using assms by (simp add: sbind_def slift_def)

section \<open>Each handler\<close>

lemma same_fs: "same s s1 \<Longrightarrow> sv_fs s1 = sv_fs s"
  by (simp add: same_def)

lemma same_vers: "same s s1 \<Longrightarrow> sv_vers s1 = sv_vers s"
  by (simp add: same_def)

lemma ready_plain: "ready dev hdr k (as_slice c x) a s \<longleftrightarrow> ready dev hdr k (as_slice c x @ []) a s"
  by simp

lemma handler_obj:
  assumes "byte_valued c" and "ready dev hdr k (as_slice c x) a s"
    and "answer g (call x (sv_fs s)) = (Some a, t)"
  shows "served (ih_unique hdr) a t s
    (sbind (srv_read_obj c) (\<lambda>x. sbind (scall (call x)) (reply_result dev hdr g)) s)"
proof (rule served_read [OF assms(1)])
  show "ready dev hdr k (as_slice c x @ []) a s" using assms(2) by simp
  fix s1 assume "same s s1" "ready dev hdr (k + size_of c) [] a s1"
  then show "served (ih_unique hdr) a t s1 (sbind (scall (call x)) (reply_result dev hdr g) s1)"
    using assms(3) by (intro served_call) (auto simp: same_def)
qed

lemma handler_name:
  assumes "ready dev hdr k (enc_name n) a s" and "name_ok n" and "answer g (call n (sv_fs s)) = (Some a, t)"
  shows "served (ih_unique hdr) a t s
    (sbind (get_message_body hdr k) (\<lambda>buf. sbind (srv_cstr dev hdr buf) (\<lambda>n.
       sbind (scall (call n)) (reply_result dev hdr g))) s)"
proof (rule served_body [OF assms(1)], rule served_cstr [OF bytes_to_cstr_one [OF assms(2)]])
  fix s1 assume "same s s1" "ready dev hdr (k + length (enc_name n)) [] a s1"
  then show "served (ih_unique hdr) a t s1 (sbind (scall (call n)) (reply_result dev hdr g) s1)"
    using assms(3) by (intro served_call) (auto simp: same_def)
qed

lemma handler_two_names:
  assumes "ready dev hdr k (enc_name n @ enc_name n') a s" and "name_ok n" and "name_ok n'"
    and "answer g (call n n' (sv_fs s)) = (Some a, t)"
  shows "served (ih_unique hdr) a t s
    (sbind (get_message_body hdr k) (\<lambda>buf. sbind (slift (extract_two_cstrs buf)) (\<lambda>(n, n').
       sbind (scall (call n n')) (reply_result dev hdr g))) s)"
proof (rule served_body [OF assms(1)], rule served_lift [OF extract_two_names [OF assms(2,3)]])
  fix s1 assume "same s s1" "ready dev hdr (k + length (enc_name n @ enc_name n')) [] a s1"
  then show "served (ih_unique hdr) a t s1
      ((\<lambda>(n, n'). sbind (scall (call n n')) (reply_result dev hdr g)) (n, n') s1)"
    using assms(4) by (simp, intro served_call) (auto simp: same_def)
qed

lemma handler_obj_name:
  assumes "byte_valued c" and "ready dev hdr 0 (as_slice c x @ enc_name n) a s" and "name_ok n"
    and "answer g (call x n (sv_fs s)) = (Some a, t)"
  shows "served (ih_unique hdr) a t s
    (sbind (srv_read_obj c) (\<lambda>x. sbind (get_message_body hdr (size_of c)) (\<lambda>buf.
       sbind (srv_cstr dev hdr buf) (\<lambda>n. sbind (scall (call x n)) (reply_result dev hdr g)))) s)"
proof (rule served_read [OF assms(1,2)])
  fix s1 assume "same s s1" "ready dev hdr (0 + size_of c) (enc_name n) a s1"
  then show "served (ih_unique hdr) a t s1
      (sbind (get_message_body hdr (size_of c)) (\<lambda>buf. sbind (srv_cstr dev hdr buf) (\<lambda>n.
         sbind (scall (call x n)) (reply_result dev hdr g))) s1)"
    using assms(3,4) by (intro handler_name) (auto simp: same_def)
qed

lemma handler_obj_two_names:
  assumes "byte_valued c" and "ready dev hdr 0 (as_slice c x @ enc_name n @ enc_name n') a s"
    and "name_ok n" and "name_ok n'" and "answer no_reply_data (fs_rename fs ctx (ih_nodeid hdr) n (dir x) n' (fl x) (sv_fs s)) = (Some a, t)"
  shows "served (ih_unique hdr) a t s
    (sbind (srv_read_obj c) (\<lambda>x. do_rename dev fs hdr ctx (size_of c) (dir x) (fl x)) s)"
proof (rule served_read [OF assms(1,2)])
  fix s1 assume "same s s1" "ready dev hdr (0 + size_of c) (enc_name n @ enc_name n') a s1"
  then show "served (ih_unique hdr) a t s1 (do_rename dev fs hdr ctx (size_of c) (dir x) (fl x) s1)"
    using assms(3-5) unfolding do_rename_def by (intro handler_two_names) (auto simp: same_def)
qed

lemmas serve_defs = flags_from_bits_truncate_def RENAME_FLAGS_def open_out_from_def opt_u32_def

lemma served_getattr:
  "ready dev hdr 0 (req_body (ReqGetattr i)) a s \<Longrightarrow> serve fs minor ctx (ih_nodeid hdr) (ReqGetattr i) (sv_fs s) = (Some a, t) \<Longrightarrow>
     served (ih_unique hdr) a t s (srv_getattr dev fs hdr ctx s)"
  unfolding srv_getattr_def Let_def handle_attr_result_def
  by (rule handler_obj [OF getattr_in_b.byte_valued_axioms]) (simp_all add: Let_def serve_defs)

lemma served_setattr:
  "ready dev hdr 0 (req_body (ReqSetattr i)) a s \<Longrightarrow> serve fs minor ctx (ih_nodeid hdr) (ReqSetattr i) (sv_fs s) = (Some a, t) \<Longrightarrow>
     served (ih_unique hdr) a t s (srv_setattr dev fs hdr ctx s)"
  unfolding srv_setattr_def Let_def handle_attr_result_def
  by (rule handler_obj [OF setattr_in_b.byte_valued_axioms]) (simp_all add: Let_def serve_defs)

lemma served_open:
  "ready dev hdr 0 (req_body (ReqOpen i)) a s \<Longrightarrow> serve fs minor ctx (ih_nodeid hdr) (ReqOpen i) (sv_fs s) = (Some a, t) \<Longrightarrow>
     served (ih_unique hdr) a t s (srv_open dev fs hdr ctx s)"
  unfolding srv_open_def Let_def handle_attr_result_def
  by (rule handler_obj [OF open_in_b.byte_valued_axioms]) (simp_all add: Let_def serve_defs)

lemma served_release:
  "ready dev hdr 0 (req_body (ReqRelease i)) a s \<Longrightarrow> serve fs minor ctx (ih_nodeid hdr) (ReqRelease i) (sv_fs s) = (Some a, t) \<Longrightarrow>
     served (ih_unique hdr) a t s (srv_release dev fs hdr ctx s)"
  unfolding srv_release_def Let_def handle_attr_result_def
  by (rule handler_obj [OF release_in_b.byte_valued_axioms]) (simp_all add: Let_def serve_defs)

lemma served_fsync:
  "ready dev hdr 0 (req_body (ReqFsync i)) a s \<Longrightarrow> serve fs minor ctx (ih_nodeid hdr) (ReqFsync i) (sv_fs s) = (Some a, t) \<Longrightarrow>
     served (ih_unique hdr) a t s (srv_fsync dev fs hdr ctx s)"
  unfolding srv_fsync_def Let_def handle_attr_result_def
  by (rule handler_obj [OF fsync_in_b.byte_valued_axioms]) (simp_all add: Let_def serve_defs)

lemma served_listxattr:
  "ready dev hdr 0 (req_body (ReqListxattr i)) a s \<Longrightarrow> serve fs minor ctx (ih_nodeid hdr) (ReqListxattr i) (sv_fs s) = (Some a, t) \<Longrightarrow>
     served (ih_unique hdr) a t s (srv_listxattr dev fs hdr ctx s)"
  unfolding srv_listxattr_def Let_def handle_attr_result_def
  by (rule handler_obj [OF getxattr_in_b.byte_valued_axioms]) (simp_all add: Let_def serve_defs)

lemma served_flush:
  "ready dev hdr 0 (req_body (ReqFlush i)) a s \<Longrightarrow> serve fs minor ctx (ih_nodeid hdr) (ReqFlush i) (sv_fs s) = (Some a, t) \<Longrightarrow>
     served (ih_unique hdr) a t s (srv_flush dev fs hdr ctx s)"
  unfolding srv_flush_def Let_def handle_attr_result_def
  by (rule handler_obj [OF flush_in_b.byte_valued_axioms]) (simp_all add: Let_def serve_defs)

lemma served_opendir:
  "ready dev hdr 0 (req_body (ReqOpendir i)) a s \<Longrightarrow> serve fs minor ctx (ih_nodeid hdr) (ReqOpendir i) (sv_fs s) = (Some a, t) \<Longrightarrow>
     served (ih_unique hdr) a t s (srv_opendir dev fs hdr ctx s)"
  unfolding srv_opendir_def Let_def handle_attr_result_def
  by (rule handler_obj [OF open_in_b.byte_valued_axioms]) (simp_all add: Let_def serve_defs)

lemma served_releasedir:
  "ready dev hdr 0 (req_body (ReqReleasedir i)) a s \<Longrightarrow> serve fs minor ctx (ih_nodeid hdr) (ReqReleasedir i) (sv_fs s) = (Some a, t) \<Longrightarrow>
     served (ih_unique hdr) a t s (srv_releasedir dev fs hdr ctx s)"
  unfolding srv_releasedir_def Let_def handle_attr_result_def
  by (rule handler_obj [OF release_in_b.byte_valued_axioms]) (simp_all add: Let_def serve_defs)

lemma served_fsyncdir:
  "ready dev hdr 0 (req_body (ReqFsyncdir i)) a s \<Longrightarrow> serve fs minor ctx (ih_nodeid hdr) (ReqFsyncdir i) (sv_fs s) = (Some a, t) \<Longrightarrow>
     served (ih_unique hdr) a t s (srv_fsyncdir dev fs hdr ctx s)"
  unfolding srv_fsyncdir_def Let_def handle_attr_result_def
  by (rule handler_obj [OF fsync_in_b.byte_valued_axioms]) (simp_all add: Let_def serve_defs)

lemma served_getlk:
  "ready dev hdr 0 (req_body (ReqGetlk i)) a s \<Longrightarrow> serve fs minor ctx (ih_nodeid hdr) (ReqGetlk i) (sv_fs s) = (Some a, t) \<Longrightarrow>
     served (ih_unique hdr) a t s (srv_getlk dev fs hdr ctx s)"
  unfolding srv_getlk_def Let_def handle_attr_result_def
  by (rule handler_obj [OF lk_in_b.byte_valued_axioms]) (simp_all add: Let_def serve_defs)

lemma served_setlk:
  "ready dev hdr 0 (req_body (ReqSetlk i)) a s \<Longrightarrow> serve fs minor ctx (ih_nodeid hdr) (ReqSetlk i) (sv_fs s) = (Some a, t) \<Longrightarrow>
     served (ih_unique hdr) a t s (srv_setlk dev fs hdr ctx s)"
  unfolding srv_setlk_def Let_def handle_attr_result_def
  by (rule handler_obj [OF lk_in_b.byte_valued_axioms]) (simp_all add: Let_def serve_defs)

lemma served_access:
  "ready dev hdr 0 (req_body (ReqAccess i)) a s \<Longrightarrow> serve fs minor ctx (ih_nodeid hdr) (ReqAccess i) (sv_fs s) = (Some a, t) \<Longrightarrow>
     served (ih_unique hdr) a t s (srv_access dev fs hdr ctx s)"
  unfolding srv_access_def Let_def handle_attr_result_def
  by (rule handler_obj [OF access_in_b.byte_valued_axioms]) (simp_all add: Let_def serve_defs)

lemma served_bmap:
  "ready dev hdr 0 (req_body (ReqBmap i)) a s \<Longrightarrow> serve fs minor ctx (ih_nodeid hdr) (ReqBmap i) (sv_fs s) = (Some a, t) \<Longrightarrow>
     served (ih_unique hdr) a t s (srv_bmap dev fs hdr ctx s)"
  unfolding srv_bmap_def Let_def handle_attr_result_def
  by (rule handler_obj [OF bmap_in_b.byte_valued_axioms]) (simp_all add: Let_def serve_defs)

lemma served_poll:
  "ready dev hdr 0 (req_body (ReqPoll i)) a s \<Longrightarrow> serve fs minor ctx (ih_nodeid hdr) (ReqPoll i) (sv_fs s) = (Some a, t) \<Longrightarrow>
     served (ih_unique hdr) a t s (srv_poll dev fs hdr ctx s)"
  unfolding srv_poll_def Let_def handle_attr_result_def
  by (rule handler_obj [OF poll_in_b.byte_valued_axioms]) (simp_all add: Let_def serve_defs)

lemma served_fallocate:
  "ready dev hdr 0 (req_body (ReqFallocate i)) a s \<Longrightarrow> serve fs minor ctx (ih_nodeid hdr) (ReqFallocate i) (sv_fs s) = (Some a, t) \<Longrightarrow>
     served (ih_unique hdr) a t s (srv_fallocate dev fs hdr ctx s)"
  unfolding srv_fallocate_def Let_def handle_attr_result_def
  by (rule handler_obj [OF fallocate_in_b.byte_valued_axioms]) (simp_all add: Let_def serve_defs)

lemma served_lseek:
  "ready dev hdr 0 (req_body (ReqLseek i)) a s \<Longrightarrow> serve fs minor ctx (ih_nodeid hdr) (ReqLseek i) (sv_fs s) = (Some a, t) \<Longrightarrow>
     served (ih_unique hdr) a t s (srv_lseek dev fs hdr ctx s)"
  unfolding srv_lseek_def Let_def handle_attr_result_def
  by (rule handler_obj [OF lseek_in_b.byte_valued_axioms]) (simp_all add: Let_def serve_defs)

lemma served_mknod:
  "ready dev hdr 0 (req_body (ReqMknod i n)) a s \<Longrightarrow> name_ok n \<Longrightarrow> serve fs minor ctx (ih_nodeid hdr) (ReqMknod i n) (sv_fs s) = (Some a, t) \<Longrightarrow>
     served (ih_unique hdr) a t s (srv_mknod dev fs hdr ctx s)"
  unfolding srv_mknod_def
  by (rule handler_obj_name [OF mknod_in_b.byte_valued_axioms]) simp_all

lemma served_mkdir:
  "ready dev hdr 0 (req_body (ReqMkdir i n)) a s \<Longrightarrow> name_ok n \<Longrightarrow> serve fs minor ctx (ih_nodeid hdr) (ReqMkdir i n) (sv_fs s) = (Some a, t) \<Longrightarrow>
     served (ih_unique hdr) a t s (srv_mkdir dev fs hdr ctx s)"
  unfolding srv_mkdir_def
  by (rule handler_obj_name [OF mkdir_in_b.byte_valued_axioms]) simp_all

lemma served_link:
  "ready dev hdr 0 (req_body (ReqLink i n)) a s \<Longrightarrow> name_ok n \<Longrightarrow> serve fs minor ctx (ih_nodeid hdr) (ReqLink i n) (sv_fs s) = (Some a, t) \<Longrightarrow>
     served (ih_unique hdr) a t s (srv_link dev fs hdr ctx s)"
  unfolding srv_link_def
  by (rule handler_obj_name [OF link_in_b.byte_valued_axioms]) simp_all

lemma served_getxattr:
  "ready dev hdr 0 (req_body (ReqGetxattr i n)) a s \<Longrightarrow> name_ok n \<Longrightarrow> serve fs minor ctx (ih_nodeid hdr) (ReqGetxattr i n) (sv_fs s) = (Some a, t) \<Longrightarrow>
     served (ih_unique hdr) a t s (srv_getxattr dev fs hdr ctx s)"
  unfolding srv_getxattr_def
  by (rule handler_obj_name [OF getxattr_in_b.byte_valued_axioms]) simp_all

lemma served_create:
  "ready dev hdr 0 (req_body (ReqCreate i n)) a s \<Longrightarrow> name_ok n \<Longrightarrow> serve fs minor ctx (ih_nodeid hdr) (ReqCreate i n) (sv_fs s) = (Some a, t) \<Longrightarrow>
     served (ih_unique hdr) a t s (srv_create dev fs hdr ctx s)"
  unfolding srv_create_def
  by (rule handler_obj_name [OF create_in_b.byte_valued_axioms]) simp_all

lemma served_unlink:
  "ready dev hdr 0 (req_body (ReqUnlink n)) a s \<Longrightarrow> name_ok n \<Longrightarrow> serve fs minor ctx (ih_nodeid hdr) (ReqUnlink n) (sv_fs s) = (Some a, t) \<Longrightarrow>
     served (ih_unique hdr) a t s (srv_unlink dev fs hdr ctx s)"
  unfolding srv_unlink_def by (rule handler_name) simp_all

lemma served_rmdir:
  "ready dev hdr 0 (req_body (ReqRmdir n)) a s \<Longrightarrow> name_ok n \<Longrightarrow> serve fs minor ctx (ih_nodeid hdr) (ReqRmdir n) (sv_fs s) = (Some a, t) \<Longrightarrow>
     served (ih_unique hdr) a t s (srv_rmdir dev fs hdr ctx s)"
  unfolding srv_rmdir_def by (rule handler_name) simp_all

lemma served_removexattr:
  "ready dev hdr 0 (req_body (ReqRemovexattr n)) a s \<Longrightarrow> name_ok n \<Longrightarrow> serve fs minor ctx (ih_nodeid hdr) (ReqRemovexattr n) (sv_fs s) = (Some a, t) \<Longrightarrow>
     served (ih_unique hdr) a t s (srv_removexattr dev fs hdr ctx s)"
  unfolding srv_removexattr_def by (rule handler_name) simp_all

lemma served_readlink:
  "ready dev hdr 0 (req_body (ReqReadlink)) a s \<Longrightarrow> serve fs minor ctx (ih_nodeid hdr) (ReqReadlink) (sv_fs s) = (Some a, t) \<Longrightarrow>
     served (ih_unique hdr) a t s (srv_readlink dev fs hdr ctx s)"
  unfolding srv_readlink_def by (rule served_call) simp_all

lemma served_statfs:
  "ready dev hdr 0 (req_body (ReqStatfs)) a s \<Longrightarrow> serve fs minor ctx (ih_nodeid hdr) (ReqStatfs) (sv_fs s) = (Some a, t) \<Longrightarrow>
     served (ih_unique hdr) a t s (srv_statfs dev fs hdr ctx s)"
  unfolding srv_statfs_def by (rule served_call) simp_all

lemma served_rename:
  "ready dev hdr 0 (req_body (ReqRename i n n')) a s \<Longrightarrow> name_ok n \<Longrightarrow> name_ok n' \<Longrightarrow> serve fs minor ctx (ih_nodeid hdr) (ReqRename i n n') (sv_fs s) = (Some a, t) \<Longrightarrow>
     served (ih_unique hdr) a t s (srv_rename dev fs hdr ctx s)"
  unfolding srv_rename_def
  by (rule handler_obj_two_names [OF rename_in_b.byte_valued_axioms]) (simp_all add: serve_defs)

lemma served_rename2:
  "ready dev hdr 0 (req_body (ReqRename2 i n n')) a s \<Longrightarrow> name_ok n \<Longrightarrow> name_ok n' \<Longrightarrow> serve fs minor ctx (ih_nodeid hdr) (ReqRename2 i n n') (sv_fs s) = (Some a, t) \<Longrightarrow>
     served (ih_unique hdr) a t s (srv_rename2 dev fs hdr ctx s)"
  unfolding srv_rename2_def
  by (rule handler_obj_two_names [OF rename2_in_b.byte_valued_axioms]) (simp_all add: serve_defs)

lemma served_symlink:
  "ready dev hdr 0 (req_body (ReqSymlink n l)) a s \<Longrightarrow> name_ok n \<Longrightarrow> name_ok l \<Longrightarrow> serve fs minor ctx (ih_nodeid hdr) (ReqSymlink n l) (sv_fs s) = (Some a, t) \<Longrightarrow>
     served (ih_unique hdr) a t s (srv_symlink dev fs hdr ctx s)"
  unfolding srv_symlink_def
  by (rule handler_two_names [where call = "\<lambda>n l. fs_symlink fs ctx l (ih_nodeid hdr) n"]) simp_all

lemma served_setxattr:
  "ready dev hdr 0 (req_body (ReqSetxattr f n v)) a s \<Longrightarrow> name_ok n \<Longrightarrow> serve fs minor ctx (ih_nodeid hdr) (ReqSetxattr f n v) (sv_fs s) = (Some a, t) \<Longrightarrow>
     served (ih_unique hdr) a t s (srv_setxattr dev fs hdr ctx s)"
proof -
  let ?i = "\<lparr>sx_size = of_nat (length v), sx_flags = f\<rparr>"
  assume r: "ready dev hdr 0 (req_body (ReqSetxattr f n v)) a s" and n: "name_ok n"
    and c: "serve fs minor ctx (ih_nodeid hdr) (ReqSetxattr f n v) (sv_fs s) = (Some a, t)"
  show "served (ih_unique hdr) a t s (srv_setxattr dev fs hdr ctx s)"
    unfolding srv_setxattr_def
  proof (rule served_read [OF setxattr_in_b.byte_valued_axioms, where x = ?i], use r in simp, rule served_body)
    fix s1 assume s1: "same s s1" "ready dev hdr (0 + size_of setxattr_in_codec) (enc_name n @ v) a s1"
    then show "ready dev hdr (size_of setxattr_in_codec) (enc_name n @ v) a s1" by simp
    fix s2 assume s2: "same s1 s2" "ready dev hdr (size_of setxattr_in_codec + length (enc_name n @ v)) [] a s2"
    have "served (ih_unique hdr) a t s2 (sbind (srv_cstr dev hdr (enc_name n)) (\<lambda>name.
        sbind (scall (fs_setxattr fs ctx (ih_nodeid hdr) name v f)) (reply_result dev hdr no_reply_data)) s2)"
      using s1 s2 c n by (intro served_cstr [OF bytes_to_cstr_one] served_call) (auto simp: same_def)
    then show "served (ih_unique hdr) a t s2 ((case position (\<lambda>c. c = 0) (enc_name n @ v) of
         None \<Rightarrow> sfail MissingParameter
       | Some p \<Rightarrow>
           (let name_bytes = take (p + 1) (enc_name n @ v); value = drop (p + 1) (enc_name n @ v)
            in if sx_size ?i \<noteq> of_nat (length value) then sfail (InvalidXattrSize (sx_size ?i) (length value))
               else
                 sbind (srv_cstr dev hdr name_bytes) (\<lambda>name.
                 sbind (scall (fs_setxattr fs ctx (ih_nodeid hdr) name value (sx_flags ?i)))
                   (reply_result dev hdr no_reply_data)))) s2)"
      unfolding position_name [OF n] using take_name [of n v] by (simp add: Let_def)
  qed
qed

lemma served_lookup:
  assumes "ready dev hdr 0 (req_body (ReqLookup n)) a s" and "name_ok n"
    and "serve fs (snd (sv_vers s)) ctx (ih_nodeid hdr) (ReqLookup n) (sv_fs s) = (Some a, t)"
  shows "served (ih_unique hdr) a t s (srv_lookup dev fs hdr ctx s)"
proof -
  let ?minor = "snd (sv_vers s)"
  have body: "ready dev hdr 0 (enc_name n) a s" using assms(1) by simp
  have *: "sbind (scall (fs_lookup fs ctx (ih_nodeid hdr) n)) (\<lambda>result.
       case result of
         Inr e \<Rightarrow>
           if minor < KERNEL_MINOR_VERSION_LOOKUP_NEGATIVE_ENTRY_ZERO \<and> e_inode e = 0
           then reply_error dev hdr (Os ENOENT)
           else reply_ok dev hdr (Some (as_slice entry_out_codec (entry_out_from e))) None
       | Inl err \<Rightarrow> reply_error dev hdr err) s =
     sbind (scall (\<lambda>t. negative_entry minor (fs_lookup fs ctx (ih_nodeid hdr) n t))) (reply_result dev hdr entry_reply) s"
    for minor and s :: "('a, 'b) srv"
    by (auto simp: sbind_def scall_def negative_entry_def reply_result_def abi_const_defs split: prod.split res.split)
  show ?thesis
    unfolding srv_lookup_def
  proof (rule served_body [OF body], rule served_cstr [OF bytes_to_cstr_one [OF assms(2)]])
    fix s1 assume "same s s1" "ready dev hdr (0 + length (enc_name n)) [] a s1"
    then show "served (ih_unique hdr) a t s1 (let minor = snd (sv_vers s1) in
       sbind (scall (fs_lookup fs ctx (ih_nodeid hdr) n)) (\<lambda>result.
       case result of
         Inr e \<Rightarrow>
           if minor < KERNEL_MINOR_VERSION_LOOKUP_NEGATIVE_ENTRY_ZERO \<and> e_inode e = 0
           then reply_error dev hdr (Os ENOENT)
           else reply_ok dev hdr (Some (as_slice entry_out_codec (entry_out_from e))) None
       | Inl err \<Rightarrow> reply_error dev hdr err) s1)"
      unfolding Let_def * using assms(3) by (intro served_call) (auto simp: same_def)
  qed
qed

lemmas served_handlers =
  served_lookup served_getattr served_setattr served_readlink served_symlink served_mknod
  served_mkdir served_unlink served_rmdir served_rename served_rename2 served_link
  served_open served_statfs served_release served_fsync served_setxattr served_getxattr
  served_listxattr served_removexattr served_flush served_opendir served_releasedir served_fsyncdir
  served_getlk served_setlk served_access served_create served_bmap served_poll
  served_fallocate served_lseek

lemma dispatch_served:
  assumes "ih_opcode hdr = req_opcode req" and "ready dev hdr 0 (req_body req) a s"
    and "\<forall>n \<in> set (req_names req). name_ok n"
    and "serve fs (snd (sv_vers s)) ctx (ih_nodeid hdr) req (sv_fs s) = (Some a, t)"
  shows "served (ih_unique hdr) a t s (dispatch_opcode dev pagesize fs hdr ctx s)"
  using assms
  by (cases req)
    (simp_all only: dispatch_opcode_def Let_def req_opcode.simps req_names.simps list.set ball_simps, simp_all add: opcode_defs served_handlers del: req_body.simps serve.simps)

lemma handle_message_dispatch:
  assumes "dev_accepts dev" and "srv_rd s" and "srv_content s = as_slice in_header_codec hdr @ body"
    and "unat (ih_len hdr) = 40 + length body" and "ih_len hdr \<le> MAX_BUFFER_SIZE + BUFFER_HEADER_SIZE"
    and "fs_id_remap fs (context_from hdr) (sv_fs s) = Ok ctx"
    and "w_fresh (length (answer_msg (ih_unique hdr) a)) (sv_w s)"
  obtains s1 where "same s s1" "ready dev hdr 0 body a s1"
    "handle_message dev pagesize fs s = dispatch_opcode dev pagesize fs hdr ctx s1"
proof -
  let ?s1 = "srv_advance 40 s"
  have len: "size_of in_header_codec \<le> length (srv_content s)" by (simp add: assms(3))
  have "srv_read_obj in_header_codec s = (XOk hdr, ?s1)"
    using srv_read_obj_ok [OF assms(2) len] in_header_b.from_as_slice assms(3) by simp
  then have "handle_message dev pagesize fs s = dispatch_opcode dev pagesize fs hdr ctx ?s1"
    using assms(6) leD [OF assms(5)] by (simp add: handle_message_def sbind_def)
  moreover have "ready dev hdr 0 body a ?s1"
    using assms len by (simp add: ready_def)
  ultimately show ?thesis using that same_advance by blast
qed

section \<open>Properties\<close>

text \<open>
  (C2) The server implements the specification of each of these operations: LOOKUP, GETATTR,
  SETATTR, READLINK, SYMLINK, MKNOD, MKDIR, UNLINK, RMDIR, RENAME, RENAME2, LINK, OPEN, STATFS,
  RELEASE, FSYNC, SETXATTR, GETXATTR, LISTXATTR, REMOVEXATTR, FLUSH, OPENDIR, RELEASEDIR, FSYNCDIR,
  GETLK, SETLK, ACCESS, CREATE, BMAP, POLL, FALLOCATE and LSEEK. Take a request for one of them as
  a client encodes it: the header, the structure of the operation, the names, each ended by a NUL.
  If the message is not longer than the server accepts, the mapping of the caller's identity
  succeeds and the file system does not panic, the reader delivers these bytes, scattered as they
  may be, the writer has room for the answer and the device takes it, then
  \<^verbatim>\<open>handle_message\<close> makes exactly the call of the file system that the request stands for, with
  the arguments the client gave and the caller's identity after the file system's own mapping,
  leaves the file system in the state of that call, and sends one message to the device: the
  answer under the request's own unique number, with the length of the message in its header.
\<close>

theorem handle_message_refines:
  assumes "dev_accepts dev" and "srv_rd s"
    and "srv_content s = as_slice in_header_codec hdr @ req_body req"
    and "ih_opcode hdr = req_opcode req" and "\<forall>n \<in> set (req_names req). name_ok n"
    and "unat (ih_len hdr) = 40 + length (req_body req)"
    and "ih_len hdr \<le> MAX_BUFFER_SIZE + BUFFER_HEADER_SIZE"
    and "fs_id_remap fs (context_from hdr) (sv_fs s) = Ok ctx"
    and "serve fs (snd (sv_vers s)) ctx (ih_nodeid hdr) req (sv_fs s) = (Some a, t)"
    and "w_fresh (length (answer_msg (ih_unique hdr) a)) (sv_w s)"
  shows "\<exists>s'. handle_message dev pagesize fs s = (XOk (length (answer_msg (ih_unique hdr) a)), s') \<and>
    sv_fs s' = t \<and> sv_vers s' = sv_vers s \<and>
    wd_dev (sv_world s') = wd_dev (sv_world s) @ [answer_msg (ih_unique hdr) a]"
proof -
  obtain s1 where s1: "same s s1" "ready dev hdr 0 (req_body req) a s1"
      "handle_message dev pagesize fs s = dispatch_opcode dev pagesize fs hdr ctx s1"
    using handle_message_dispatch [OF assms(1-3,6-8,10)] by blast
  have "serve fs (snd (sv_vers s1)) ctx (ih_nodeid hdr) req (sv_fs s1) = (Some a, t)"
    using assms(9) s1(1) by (simp add: same_def)
  from dispatch_served [OF assms(4) s1(2) assms(5) this, of pagesize]
  show ?thesis using s1 served_same [OF s1(1)] unfolding served_def by metis
qed

text \<open>A request that the FUSE device delivered, and a reply buffer of one page.\<close>

definition sample_srv :: "'s \<Rightarrow> bytes \<Rightarrow> ('s, unit) srv" where
  "sample_srv t msg =
     \<lparr>sv_fs = t, sv_vers = server_vers_new, sv_r = from_fuse_buffer 0 (length msg),
      sv_w = FuseDev (fw_new (replicate 4096 0)),
      sv_world = \<lparr>wd_mem = (\<lambda>i. if i < length msg then msg ! i else 0), wd_dirty = [], wd_dev = []\<rparr>,
      sv_req = None\<rparr>"

definition sample_dev :: device where
  "sample_dev log msg = Inr (length msg)"

lemma sample_dev_accepts [simp]: "dev_accepts sample_dev"
  by (simp add: dev_accepts_def sample_dev_def)

lemma sample_srv_simps [simp]:
  "sv_fs (sample_srv t msg) = t" "sv_vers (sample_srv t msg) = (7, 33)" "wd_dev (sv_world (sample_srv t msg)) = []"
  "sv_req (sample_srv t msg) = None" "w_fresh n (sv_w (sample_srv t msg)) \<longleftrightarrow> n \<le> 4096"
  by (simp_all add: sample_srv_def server_vers_new_def abi_const_defs fw_new_def)

lemma sample_srv_content [simp]: "srv_content (sample_srv t msg) = msg"
  by (rule nth_equalityI)
    (simp_all add: srv_content_def sample_srv_def reader_bytes_def from_fuse_buffer_def slice_bytes_def)

lemma sample_srv_rd: "length msg \<le> USIZE_MAX \<Longrightarrow> srv_rd (sample_srv t msg)"
  by (simp add: srv_rd_def sample_srv_def reader_wf_def from_fuse_buffer_def)

text \<open>A file system that counts the entries it unlinks.\<close>

definition counting_fs :: "(nat, unit lent) fs_ops" where
  "counting_fs = default_fs_ops\<lparr>fs_unlink := (\<lambda>ctx parent name n. (Ok (), n + length name))\<rparr>"

definition sample_header :: in_header where
  "sample_header =
     \<lparr>ih_len = 43, ih_opcode = 10, ih_unique = 5, ih_nodeid = 1, ih_uid = 0, ih_gid = 0, ih_pid = 0, ih_padding = 0\<rparr>"

theorem handle_message_refines_witness:
  "\<exists>s'. handle_message sample_dev 4096 counting_fs
      (sample_srv 3 (as_slice in_header_codec sample_header @ req_body (ReqUnlink ''ab''))) = (XOk 16, s') \<and>
    sv_fs s' = 5 \<and> wd_dev (sv_world s') = [out_msg 0 5 []]"
proof -
  let ?msg = "as_slice in_header_codec sample_header @ req_body (ReqUnlink ''ab'')"
  let ?s = "sample_srv 3 ?msg :: (nat, unit) srv"
  have body: "length (req_body (ReqUnlink ''ab'')) = 3" by (simp add: enc_name_def bytes_of_name_def)
  have rd: "srv_rd ?s" by (rule sample_srv_rd) (simp add: body USIZE_MAX_def del: req_body.simps)
  have call: "serve counting_fs (snd (sv_vers ?s)) (context_from sample_header) (ih_nodeid sample_header)
      (ReqUnlink ''ab'') (sv_fs ?s) = (Some (Inr []), 5)"
    by (simp add: answer_def counting_fs_def opt_bytes_def)
  have "\<exists>s'. handle_message sample_dev 4096 counting_fs ?s = (XOk (length (answer_msg (ih_unique sample_header) (Inr []))), s') \<and>
      sv_fs s' = 5 \<and> sv_vers s' = sv_vers ?s \<and>
      wd_dev (sv_world s') = wd_dev (sv_world ?s) @ [answer_msg (ih_unique sample_header) (Inr [])]"
    by (rule handle_message_refines [OF sample_dev_accepts rd sample_srv_content _ _ _ _ _ call])
      (simp_all add: body sample_header_def opcode_defs name_ok_def MAX_BUFFER_SIZE_def BUFFER_HEADER_SIZE_def
        counting_fs_def default_fs_ops_def del: req_body.simps)
  then show ?thesis by (auto simp: sample_header_def)
qed

end
