(* ===== verification/Server_Calls.thy ===== *)
theory Server_Calls
  imports Server_Spec
begin

text \<open>
  What a message does to the file system. A handler decodes, calls one method of the file system,
  and replies; decoding and replying leave the state of the file system alone. So a message makes
  at most one call, and apart from four operations the call is about the inode in the header.
\<close>

section \<open>Calls of the trait\<close>

text \<open>One call of a method about an inode: the state before and the state after.\<close>

inductive fs_call :: "('s, 'c) fs_ops \<Rightarrow> u64 \<Rightarrow> 's \<Rightarrow> 's \<Rightarrow> bool" for fs where
  c_lookup: "fs_call fs i t (snd (fs_lookup fs ctx i name t))"
| c_forget: "fs_call fs i t (fs_forget fs ctx i n t)"
| c_getattr: "fs_call fs i t (snd (fs_getattr fs ctx i h t))"
| c_setattr: "fs_call fs i t (snd (fs_setattr fs ctx i a h valid t))"
| c_readlink: "fs_call fs i t (snd (fs_readlink fs ctx i t))"
| c_symlink: "fs_call fs i t (snd (fs_symlink fs ctx target i name t))"
| c_mknod: "fs_call fs i t (snd (fs_mknod fs ctx i name mode rdev umask t))"
| c_mkdir: "fs_call fs i t (snd (fs_mkdir fs ctx i name mode umask t))"
| c_unlink: "fs_call fs i t (snd (fs_unlink fs ctx i name t))"
| c_rmdir: "fs_call fs i t (snd (fs_rmdir fs ctx i name t))"
| c_rename: "fs_call fs i t (snd (fs_rename fs ctx i oldname j newname flags t))"
| c_link: "fs_call fs i t (snd (fs_link fs ctx i j newname t))"
| c_open: "fs_call fs i t (snd (fs_open fs ctx i flags fuse_flags t))"
| c_create: "fs_call fs i t (snd (fs_create fs ctx i name args t))"
| c_read: "fs_call fs i t (snd (snd (fs_read fs ctx i fh l sz off owner flags t)))"
| c_write: "fs_call fs i t (snd (snd (fs_write fs ctx i fh l sz off owner delayed flags fuse_flags t)))"
| c_flush: "fs_call fs i t (snd (fs_flush fs ctx i fh lock_owner t))"
| c_fsync: "fs_call fs i t (snd (fs_fsync fs ctx i datasync fh t))"
| c_fallocate: "fs_call fs i t (snd (fs_fallocate fs ctx i fh mode off len t))"
| c_release: "fs_call fs i t (snd (fs_release fs ctx i flags fh do_flush flock owner t))"
| c_statfs: "fs_call fs i t (snd (fs_statfs fs ctx i t))"
| c_setxattr: "fs_call fs i t (snd (fs_setxattr fs ctx i name val flags t))"
| c_getxattr: "fs_call fs i t (snd (fs_getxattr fs ctx i name sz t))"
| c_listxattr: "fs_call fs i t (snd (fs_listxattr fs ctx i sz t))"
| c_removexattr: "fs_call fs i t (snd (fs_removexattr fs ctx i name t))"
| c_opendir: "fs_call fs i t (snd (fs_opendir fs ctx i flags t))"
| c_readdir: "fs_call fs i t (snd (snd (fs_readdir fs ctx i fh sz off add l t)))"
| c_readdirplus: "fs_call fs i t (snd (snd (fs_readdirplus fs ctx i fh sz off addp l t)))"
| c_fsyncdir: "fs_call fs i t (snd (fs_fsyncdir fs ctx i datasync fh t))"
| c_releasedir: "fs_call fs i t (snd (fs_releasedir fs ctx i flags fh t))"
| c_setupmapping: "fs_call fs i t (snd (snd (fs_setupmapping fs ctx i fh fo len fl mo l t)))"
| c_removemapping: "fs_call fs i t (snd (snd (fs_removemapping fs ctx i reqs l t)))"
| c_access: "fs_call fs i t (snd (fs_access fs ctx i msk t))"
| c_lseek: "fs_call fs i t (snd (fs_lseek fs ctx i fh off whence t))"
| c_getlk: "fs_call fs i t (snd (fs_getlk fs ctx i fh lo lk lkf t))"
| c_setlk: "fs_call fs i t (snd (fs_setlk fs ctx i fh lo lk lkf t))"
| c_ioctl: "fs_call fs i t (snd (fs_ioctl fs ctx i fh flags cmd data sz t))"
| c_bmap: "fs_call fs i t (snd (fs_bmap fs ctx i block bsz t))"
| c_poll: "fs_call fs i t (snd (fs_poll fs ctx i fh kh flags ev t))"
| c_notify_reply: "fs_call fs i t (snd (fs_notify_reply fs t))"

text \<open>
  The method that each operation of the protocol stands for. The server has the same method for
  \<^verbatim>\<open>RENAME\<close> and \<^verbatim>\<open>RENAME2\<close>, and it serves \<^verbatim>\<open>SETLKW\<close> with \<^verbatim>\<open>setlk\<close>.
\<close>

inductive fs_method :: "('s, 'c) fs_ops \<Rightarrow> u32 \<Rightarrow> u64 \<Rightarrow> 's \<Rightarrow> 's \<Rightarrow> bool" for fs where
  m_lookup: "fs_method fs OpLookup i t (snd (fs_lookup fs ctx i name t))"
| m_forget: "fs_method fs OpForget i t (fs_forget fs ctx i n t)"
| m_getattr: "fs_method fs OpGetattr i t (snd (fs_getattr fs ctx i h t))"
| m_setattr: "fs_method fs OpSetattr i t (snd (fs_setattr fs ctx i a h valid t))"
| m_readlink: "fs_method fs OpReadlink i t (snd (fs_readlink fs ctx i t))"
| m_symlink: "fs_method fs OpSymlink i t (snd (fs_symlink fs ctx target i name t))"
| m_mknod: "fs_method fs OpMknod i t (snd (fs_mknod fs ctx i name mode rdev umask t))"
| m_mkdir: "fs_method fs OpMkdir i t (snd (fs_mkdir fs ctx i name mode umask t))"
| m_unlink: "fs_method fs OpUnlink i t (snd (fs_unlink fs ctx i name t))"
| m_rmdir: "fs_method fs OpRmdir i t (snd (fs_rmdir fs ctx i name t))"
| m_rename: "fs_method fs OpRename i t (snd (fs_rename fs ctx i oldname j newname flags t))"
| m_rename2: "fs_method fs OpRename2 i t (snd (fs_rename fs ctx i oldname j newname flags t))"
| m_open: "fs_method fs OpOpen i t (snd (fs_open fs ctx i flags fuse_flags t))"
| m_create: "fs_method fs OpCreate i t (snd (fs_create fs ctx i name args t))"
| m_read: "fs_method fs OpRead i t (snd (snd (fs_read fs ctx i fh l sz off owner flags t)))"
| m_write: "fs_method fs OpWrite i t (snd (snd (fs_write fs ctx i fh l sz off owner delayed flags fuse_flags t)))"
| m_flush: "fs_method fs OpFlush i t (snd (fs_flush fs ctx i fh lock_owner t))"
| m_fsync: "fs_method fs OpFsync i t (snd (fs_fsync fs ctx i datasync fh t))"
| m_fallocate: "fs_method fs OpFallocate i t (snd (fs_fallocate fs ctx i fh mode off len t))"
| m_release: "fs_method fs OpRelease i t (snd (fs_release fs ctx i flags fh do_flush flock owner t))"
| m_statfs: "fs_method fs OpStatfs i t (snd (fs_statfs fs ctx i t))"
| m_setxattr: "fs_method fs OpSetxattr i t (snd (fs_setxattr fs ctx i name val flags t))"
| m_getxattr: "fs_method fs OpGetxattr i t (snd (fs_getxattr fs ctx i name sz t))"
| m_listxattr: "fs_method fs OpListxattr i t (snd (fs_listxattr fs ctx i sz t))"
| m_removexattr: "fs_method fs OpRemovexattr i t (snd (fs_removexattr fs ctx i name t))"
| m_opendir: "fs_method fs OpOpendir i t (snd (fs_opendir fs ctx i flags t))"
| m_readdir: "fs_method fs OpReaddir i t (snd (snd (fs_readdir fs ctx i fh sz off add l t)))"
| m_readdirplus: "fs_method fs OpReaddirplus i t (snd (snd (fs_readdirplus fs ctx i fh sz off addp l t)))"
| m_fsyncdir: "fs_method fs OpFsyncdir i t (snd (fs_fsyncdir fs ctx i datasync fh t))"
| m_releasedir: "fs_method fs OpReleasedir i t (snd (fs_releasedir fs ctx i flags fh t))"
| m_setupmapping: "fs_method fs OpSetupMapping i t (snd (snd (fs_setupmapping fs ctx i fh fo len fl mo l t)))"
| m_removemapping: "fs_method fs OpRemoveMapping i t (snd (snd (fs_removemapping fs ctx i reqs l t)))"
| m_access: "fs_method fs OpAccess i t (snd (fs_access fs ctx i msk t))"
| m_lseek: "fs_method fs OpLseek i t (snd (fs_lseek fs ctx i fh off whence t))"
| m_getlk: "fs_method fs OpGetlk i t (snd (fs_getlk fs ctx i fh lo lk lkf t))"
| m_setlk: "fs_method fs OpSetlk i t (snd (fs_setlk fs ctx i fh lo lk lkf t))"
| m_setlkw: "fs_method fs OpSetlkw i t (snd (fs_setlk fs ctx i fh lo lk lkf t))"
| m_ioctl: "fs_method fs OpIoctl i t (snd (fs_ioctl fs ctx i fh flags cmd data sz t))"
| m_bmap: "fs_method fs OpBmap i t (snd (fs_bmap fs ctx i block bsz t))"
| m_poll: "fs_method fs OpPoll i t (snd (fs_poll fs ctx i fh kh flags ev t))"
| m_notifyreply: "fs_method fs OpNotifyReply i t (snd (fs_notify_reply fs t))"

lemma fs_method_call: "fs_method fs op i t t' \<Longrightarrow> fs_call fs i t t'"
  by (induction rule: fs_method.induct) (rule fs_call.intros)+

text \<open>
  \<^verbatim>\<open>init\<close>, \<^verbatim>\<open>destroy\<close> and \<^verbatim>\<open>batch_forget\<close> are not about one inode, and \<^verbatim>\<open>link\<close> has the inode of the
  header as its second.
\<close>

definition msg_call :: "('s, 'c) fs_ops \<Rightarrow> in_header \<Rightarrow> 's \<Rightarrow> 's \<Rightarrow> bool" where
  "msg_call fs hdr t t' \<longleftrightarrow>
     (if ih_opcode hdr = OpInit then \<exists>caps. t' = snd (fs_init fs caps t)
      else if ih_opcode hdr = OpDestroy then t' = fs_destroy fs t
      else if ih_opcode hdr = OpBatchForget then \<exists>ctx reqs. t' = fs_batch_forget fs ctx reqs t
      else if ih_opcode hdr = OpLink then \<exists>ctx old name. t' = snd (fs_link fs ctx old (ih_nodeid hdr) name t)
      else fs_method fs (ih_opcode hdr) (ih_nodeid hdr) t t')"

section \<open>At most one call\<close>

text \<open>\<open>keeps\<close>: the state of the file system stays; \<open>calls R\<close>: it stays or takes one step of \<open>R\<close>.\<close>

definition keeps :: "('s, 'v, 'a) sop \<Rightarrow> bool" where
  "keeps m \<longleftrightarrow> (\<forall>s. sv_fs (snd (m s)) = sv_fs s)"

definition calls :: "('s \<Rightarrow> 's \<Rightarrow> bool) \<Rightarrow> ('s, 'v, 'a) sop \<Rightarrow> bool" where
  "calls R m \<longleftrightarrow> (\<forall>s. sv_fs (snd (m s)) = sv_fs s \<or> R (sv_fs s) (sv_fs (snd (m s))))"

lemma calls_keeps: "keeps m \<Longrightarrow> calls R m"
  by (simp add: keeps_def calls_def)

lemma sbind_fs:
  "sv_fs (snd (sbind m f s)) =
     (case fst (m s) of XOk x \<Rightarrow> sv_fs (snd (f x (snd (m s)))) | _ \<Rightarrow> sv_fs (snd (m s)))"
  by (cases "m s"; cases "fst (m s)") (simp_all add: sbind_def)

lemma keeps_bind: "keeps m \<Longrightarrow> (\<And>x. keeps (f x)) \<Longrightarrow> keeps (sbind m f)"
  by (auto simp: keeps_def sbind_fs split: xresult.split)

lemma calls_bind: "keeps m \<Longrightarrow> (\<And>x. calls R (f x)) \<Longrightarrow> calls R (sbind m f)"
  unfolding keeps_def calls_def sbind_fs by (simp split: xresult.split) metis

lemma calls_last: "calls R m \<Longrightarrow> (\<And>x. keeps (f x)) \<Longrightarrow> calls R (sbind m f)"
  by (auto simp: keeps_def calls_def sbind_fs split: xresult.split)

lemma keeps_basic [simp]:
  "keeps (sret x)" "keeps (sfail e)" "keeps (slift r)" "keeps (srv_read_obj c)" "keeps (get_message_body hdr k)"
  "keeps srv_take_reader" "keeps (srv_keep_req l)" "keeps (srv_write g)" "keeps (srv_split n)"
  "keeps (srv_take_back w l)" "keeps (\<lambda>s. (q s, s))"
  by (auto simp: keeps_def sret_def sfail_def slift_def srv_read_obj_def get_message_body_def srv_take_reader_def
      srv_keep_req_def srv_write_def srv_split_def srv_take_back_def split: prod.split res.split lent.split xresult.split)

lemma keeps_commit [simp]: "keeps (srv_commit dev other)"
  by (simp add: srv_commit_def)

lemma keeps_if: "keeps m \<Longrightarrow> keeps n \<Longrightarrow> keeps (if b then m else n)"
  by simp

lemma keeps_reply [simp]: "keeps (reply_ok dev hdr out data)" "keeps (do_reply_error dev hdr e)"
  "keeps (reply_with dev hdr count dw)"
  unfolding reply_ok_def do_reply_error_def reply_with_def Let_def
  by (intro keeps_bind keeps_if keeps_basic keeps_commit)+

lemma keeps_reply_result [simp]: "keeps (reply_result dev hdr f r)"
  by (cases r) (auto simp: reply_result_def split: prod.split)

lemma keeps_attr_result [simp]: "keeps (handle_attr_result dev hdr r)"
  by (simp add: handle_attr_result_def)

lemma keeps_cstr [simp]: "keeps (srv_cstr dev hdr buf)"
proof -
  have "sv_fs (snd (do_reply_error dev hdr (Os EINVAL) s)) = sv_fs s" for s :: "('a, 'b) srv"
    by (rule keeps_reply(2) [unfolded keeps_def, rule_format])
  then show ?thesis
    by (auto simp: keeps_def srv_cstr_def split: xresult.split prod.split) (metis snd_conv)+
qed

lemma keeps_read_objs [simp]: "keeps (read_objs c n)"
  by (induction n) (auto intro!: keeps_bind)

lemma keeps_init_flags [simp]: "keeps (init_flags fl)"
  by (auto simp: init_flags_def intro!: keeps_bind)

lemma calls_scall: "(\<And>t. R t (snd (f t))) \<Longrightarrow> calls R (scall f)"
  by (auto simp: calls_def scall_def split: prod.split res.split) (metis snd_conv)+

lemma calls_scall_lent: "(\<And>l t. R t (snd (snd (f l t)))) \<Longrightarrow> calls R (scall_lent f l)"
  by (auto simp: calls_def scall_lent_def split: prod.split res.split) (metis snd_conv)+

lemma calls_upd: "(\<And>t. R t (g t)) \<Longrightarrow> calls R (\<lambda>s. (r s, s\<lparr>sv_fs := g (sv_fs s)\<rparr>))"
  by (simp add: calls_def)

lemma calls_if: "calls R m \<Longrightarrow> calls R n \<Longrightarrow> calls R (if b then m else n)"
  by simp

lemma calls_when: "calls R m \<Longrightarrow> calls R n \<Longrightarrow> calls R (\<lambda>s. if b s then m s else n s)"
  by (simp add: calls_def)

lemma calls_option: "calls R m \<Longrightarrow> (\<And>x. calls R (f x)) \<Longrightarrow> calls R (case p of None \<Rightarrow> m | Some x \<Rightarrow> f x)"
  by (cases p) auto

lemma calls_pair: "(\<And>a b. calls R (f a b)) \<Longrightarrow> calls R (case p of (a, b) \<Rightarrow> f a b)"
  by (cases p) auto

lemma calls_req: "calls R m \<Longrightarrow> (\<And>x. calls R (f x)) \<Longrightarrow> calls R (\<lambda>s. case h s of None \<Rightarrow> m s | Some x \<Rightarrow> f x s)"
  by (auto simp: calls_def split: option.split)

lemma keeps_pair: "(\<And>a b. keeps (f a b)) \<Longrightarrow> keeps (case p of (a, b) \<Rightarrow> f a b)"
  by (cases p) auto

lemma keeps_sum: "(\<And>e. keeps (f e)) \<Longrightarrow> (\<And>x. keeps (g x)) \<Longrightarrow> keeps (case r of Inl e \<Rightarrow> f e | Inr x \<Rightarrow> g x)"
  by (cases r) auto

text \<open>The call itself: it may step, and what follows keeps the state.\<close>

lemma calls_call:
  "(\<And>t. R t (snd (g t))) \<Longrightarrow> (\<And>x. keeps (f x)) \<Longrightarrow> calls R (sbind (scall g) f)"
  "(\<And>l t. R t (snd (snd (h l t)))) \<Longrightarrow> (\<And>x. keeps (f' x)) \<Longrightarrow> calls R (sbind (scall_lent h l') f')"
  "(\<And>l t. R t (snd (snd (h l t)))) \<Longrightarrow> (\<And>x. keeps (f' x)) \<Longrightarrow> calls R (\<lambda>s. sbind (scall_lent h (k s)) f' s)"
proof -
  show "(\<And>t. R t (snd (g t))) \<Longrightarrow> (\<And>x. keeps (f x)) \<Longrightarrow> calls R (sbind (scall g) f)"
    by (intro calls_last calls_scall)
  show *: "(\<And>l t. R t (snd (snd (h l t)))) \<Longrightarrow> (\<And>x. keeps (f' x)) \<Longrightarrow> calls R (sbind (scall_lent h l') f')" for l'
    by (intro calls_last calls_scall_lent)
  show "(\<And>l t. R t (snd (snd (h l t)))) \<Longrightarrow> (\<And>x. keeps (f' x)) \<Longrightarrow> calls R (\<lambda>s. sbind (scall_lent h (k s)) f' s)"
    using * by (simp add: calls_def)
qed

lemmas calls_rules = calls_call calls_bind calls_if calls_when calls_option calls_req calls_pair keeps_sum
  keeps_bind keeps_if keeps_pair keeps_basic keeps_commit keeps_reply keeps_reply_result keeps_attr_result keeps_cstr
  keeps_read_objs keeps_init_flags fs_method.intros

lemma calls_handlers:
  fixes fs :: "('s, 'v lent) fs_ops"
  defines "R hdr x \<equiv> fs_method fs x (ih_nodeid hdr)"
  shows "calls (R hdr OpForget) (srv_forget fs hdr ctx)" "calls (R hdr OpGetattr) (srv_getattr dev fs hdr ctx)"
    "calls (R hdr OpSetattr) (srv_setattr dev fs hdr ctx)" "calls (R hdr OpReadlink) (srv_readlink dev fs hdr ctx)"
    "calls (R hdr OpSymlink) (srv_symlink dev fs hdr ctx)" "calls (R hdr OpMknod) (srv_mknod dev fs hdr ctx)"
    "calls (R hdr OpMkdir) (srv_mkdir dev fs hdr ctx)" "calls (R hdr OpUnlink) (srv_unlink dev fs hdr ctx)"
    "calls (R hdr OpRmdir) (srv_rmdir dev fs hdr ctx)" "calls (R hdr OpRename) (srv_rename dev fs hdr ctx)"
    "calls (R hdr OpRename2) (srv_rename2 dev fs hdr ctx)" "calls (R hdr OpOpen) (srv_open dev fs hdr ctx)"
    "calls (R hdr OpRead) (srv_read dev fs hdr ctx)" "calls (R hdr OpWrite) (srv_write_op dev fs hdr ctx)"
    "calls (R hdr OpStatfs) (srv_statfs dev fs hdr ctx)" "calls (R hdr OpRelease) (srv_release dev fs hdr ctx)"
    "calls (R hdr OpFsync) (srv_fsync dev fs hdr ctx)" "calls (R hdr OpSetxattr) (srv_setxattr dev fs hdr ctx)"
    "calls (R hdr OpGetxattr) (srv_getxattr dev fs hdr ctx)" "calls (R hdr OpListxattr) (srv_listxattr dev fs hdr ctx)"
    "calls (R hdr OpRemovexattr) (srv_removexattr dev fs hdr ctx)" "calls (R hdr OpFlush) (srv_flush dev fs hdr ctx)"
    "calls (R hdr OpOpendir) (srv_opendir dev fs hdr ctx)" "calls (R hdr OpReleasedir) (srv_releasedir dev fs hdr ctx)"
    "calls (R hdr OpFsyncdir) (srv_fsyncdir dev fs hdr ctx)" "calls (R hdr OpGetlk) (srv_getlk dev fs hdr ctx)"
    "calls (R hdr OpSetlk) (srv_setlk dev fs hdr ctx)" "calls (R hdr OpSetlkw) (srv_setlkw dev fs hdr ctx)"
    "calls (R hdr OpAccess) (srv_access dev fs hdr ctx)" "calls (R hdr OpCreate) (srv_create dev fs hdr ctx)"
    "calls (R hdr OpBmap) (srv_bmap dev fs hdr ctx)" "calls (R hdr OpPoll) (srv_poll dev fs hdr ctx)"
    "calls (R hdr OpNotifyReply) (srv_notify_reply dev fs hdr)" "calls (R hdr OpFallocate) (srv_fallocate dev fs hdr ctx)"
    "calls (R hdr OpLseek) (srv_lseek dev fs hdr ctx)" "calls (R hdr OpSetupMapping) (srv_setupmapping dev fs hdr ctx)"
    "calls (R hdr OpRemoveMapping) (srv_removemapping dev fs hdr ctx)"
  unfolding R_def srv_forget_def srv_getattr_def srv_setattr_def srv_readlink_def srv_symlink_def srv_mknod_def
    srv_mkdir_def srv_unlink_def srv_rmdir_def srv_rename_def srv_rename2_def do_rename_def srv_open_def srv_read_def
    srv_write_op_def srv_statfs_def srv_release_def srv_fsync_def srv_setxattr_def srv_getxattr_def srv_listxattr_def
    srv_removexattr_def srv_flush_def srv_opendir_def srv_releasedir_def srv_fsyncdir_def srv_getlk_def srv_setlk_def
    srv_setlkw_def srv_access_def srv_create_def srv_bmap_def srv_poll_def srv_notify_reply_def srv_fallocate_def
    srv_lseek_def srv_setupmapping_def srv_removemapping_def Let_def
  by (rule calls_rules calls_upd calls_keeps [OF keeps_reply(2)] calls_keeps [OF keeps_basic(2)])+

lemma calls_lookup: "calls (fs_method fs OpLookup (ih_nodeid hdr)) (srv_lookup dev fs hdr ctx)"
proof -
  have *: "calls (fs_method fs OpLookup (ih_nodeid hdr)) (sbind (scall (fs_lookup fs ctx (ih_nodeid hdr) name)) (\<lambda>result.
       case result of
         Inr e \<Rightarrow>
           if minor < KERNEL_MINOR_VERSION_LOOKUP_NEGATIVE_ENTRY_ZERO \<and> e_inode e = 0
           then reply_error dev hdr (Os ENOENT)
           else reply_ok dev hdr (Some (as_slice entry_out_codec (entry_out_from e))) None
       | Inl err \<Rightarrow> reply_error dev hdr err))" for name minor
    by (rule calls_rules)+
  show ?thesis
    unfolding srv_lookup_def Let_def
    by (intro calls_bind keeps_basic keeps_cstr) (simp add: calls_def * [unfolded calls_def, rule_format])
qed

lemma calls_do_readdir:
  "calls (fs_method fs (if is_plus then OpReaddirplus else OpReaddir) (ih_nodeid hdr)) (srv_do_readdir dev fs hdr ctx is_plus)"
  unfolding srv_do_readdir_def
  by (cases is_plus; simp only: if_True if_False)
    (rule calls_rules calls_keeps [OF keeps_reply(2)])+

lemma keeps_ioctl_data:
  "keeps (\<lambda>s. if n > 0
     then (case reader_read (wd_mem (sv_world s)) n (sv_r s) of
             (Ok data, r) \<Rightarrow> (XOk (if data = [] then None else Some data), s\<lparr>sv_r := r\<rparr>)
           | (Err e, r) \<Rightarrow> (XErr (DecodeMessage e), s\<lparr>sv_r := r\<rparr>)
           | (Panic, r) \<Rightarrow> (XPanic, s\<lparr>sv_r := r\<rparr>))
     else (XOk None, s))"
  by (auto simp: keeps_def split: prod.split res.split)

lemma calls_readdirs:
  "calls (fs_method fs OpReaddir (ih_nodeid hdr)) (srv_do_readdir dev fs hdr ctx False)"
  "calls (fs_method fs OpReaddirplus (ih_nodeid hdr)) (srv_do_readdir dev fs hdr ctx True)"
  using calls_do_readdir [of fs _ hdr dev ctx] by (metis (full_types))+

lemma calls_ioctl: "calls (fs_method fs OpIoctl (ih_nodeid hdr)) (srv_ioctl dev fs hdr ctx)"
  unfolding srv_ioctl_def
  by (rule keeps_ioctl_data calls_rules calls_keeps [OF keeps_reply(2)])+

lemma calls_link: "calls (\<lambda>t t'. \<exists>ctx old name. t' = snd (fs_link fs ctx old (ih_nodeid hdr) name t)) (srv_link dev fs hdr ctx)"
  unfolding srv_link_def by (rule calls_rules exI refl)+

lemma calls_batch_forget: "calls (\<lambda>t t'. \<exists>ctx reqs. t' = fs_batch_forget fs ctx reqs t) (srv_batch_forget fs hdr ctx)"
  unfolding srv_batch_forget_def by (rule calls_rules calls_upd calls_keeps [OF keeps_basic(2)] exI refl)+

lemma keeps_vers: "keeps m \<Longrightarrow> keeps (\<lambda>s. m (s\<lparr>sv_vers := v\<rparr>))"
  by (simp add: keeps_def)

lemma calls_init: "calls (\<lambda>t t'. \<exists>caps. t' = snd (fs_init fs caps t)) (srv_init dev pagesize fs hdr)"
  unfolding srv_init_def Let_def
  by (rule calls_rules calls_keeps [OF keeps_reply(1)] calls_keeps [OF keeps_reply(2)] keeps_vers exI refl)+

lemma calls_destroy: "calls (\<lambda>t t'. t' = fs_destroy fs t) (srv_destroy dev fs hdr)"
  unfolding calls_def
proof
  fix s :: "('a, 'b) srv"
  let ?s = "s\<lparr>sv_fs := fs_destroy fs (sv_fs s)\<rparr>"
  have "sv_fs (snd (reply_ok dev hdr None None ?s)) = sv_fs ?s"
    by (rule keeps_reply(1) [unfolded keeps_def, rule_format])
  then show "sv_fs (snd (srv_destroy dev fs hdr s)) = sv_fs s \<or>
      sv_fs (snd (srv_destroy dev fs hdr s)) = fs_destroy fs (sv_fs s)"
    by (cases "reply_ok dev hdr None None ?s"; cases "fst (reply_ok dev hdr None None ?s)")
      (simp_all add: srv_destroy_def)
qed

section \<open>The dispatch\<close>

lemma calls_mono: "calls R m \<Longrightarrow> (\<And>t t'. R t t' \<Longrightarrow> Q t t') \<Longrightarrow> calls Q m"
  by (auto simp: calls_def)

text \<open>Every branch of the dispatch, under the condition that selects it.\<close>

lemma calls_branch:
  assumes "ih_opcode hdr = x \<Longrightarrow> calls (msg_call fs hdr) m" and "ih_opcode hdr \<noteq> x \<Longrightarrow> calls (msg_call fs hdr) n"
  shows "calls (msg_call fs hdr) (if ih_opcode hdr = x then m else n)"
  using assms by simp

lemma msg_call_node:
  assumes "calls (fs_method fs x (ih_nodeid hdr)) m" and "ih_opcode hdr = x"
    and "x \<notin> {OpInit, OpDestroy, OpBatchForget, OpLink}"
  shows "calls (msg_call fs hdr) m"
  using assms by (auto simp: msg_call_def elim: calls_mono)

lemma msg_call_special:
  "ih_opcode hdr = OpInit \<Longrightarrow> calls (\<lambda>t t'. \<exists>caps. t' = snd (fs_init fs caps t)) m \<Longrightarrow> calls (msg_call fs hdr) m"
  "ih_opcode hdr = OpDestroy \<Longrightarrow> calls (\<lambda>t t'. t' = fs_destroy fs t) m \<Longrightarrow> calls (msg_call fs hdr) m"
  "ih_opcode hdr = OpBatchForget \<Longrightarrow> calls (\<lambda>t t'. \<exists>ctx reqs. t' = fs_batch_forget fs ctx reqs t) m \<Longrightarrow>
     calls (msg_call fs hdr) m"
  "ih_opcode hdr = OpLink \<Longrightarrow> calls (\<lambda>t t'. \<exists>ctx old name. t' = snd (fs_link fs ctx old (ih_nodeid hdr) name t)) m \<Longrightarrow> calls (msg_call fs hdr) m"
  by (erule calls_mono, simp add: msg_call_def opcode_defs)+

lemma calls_dispatch: "calls (msg_call fs hdr) (dispatch_opcode dev pagesize fs hdr ctx)"
  unfolding dispatch_opcode_def Let_def srv_readdir_def srv_readdirplus_def
  by (rule calls_branch calls_keeps [OF keeps_reply(2)] calls_keeps [OF keeps_basic(1)]
    | (rule msg_call_special(1), assumption, rule calls_init)
    | (rule msg_call_special(2), assumption, rule calls_destroy)
    | (rule msg_call_special(3), assumption, rule calls_batch_forget)
    | (rule msg_call_special(4), assumption, rule calls_link)
    | (rule msg_call_node, (rule calls_handlers calls_lookup calls_readdirs calls_ioctl), assumption,
        simp (no_asm) add: opcode_defs))+

lemma one_call_cases:
  "sv_fs (snd (handle_message dev pagesize fs s)) = sv_fs s \<or>
   (\<exists>hdr. fst (read_obj in_header_codec (wd_mem (sv_world s)) (sv_r s)) = Ok hdr \<and>
      msg_call fs hdr (sv_fs s) (sv_fs (snd (handle_message dev pagesize fs s))))"
proof -
  obtain r rd where hd: "read_obj in_header_codec (wd_mem (sv_world s)) (sv_r s) = (r, rd)" by fastforce
  let ?s = "s\<lparr>sv_r := rd\<rparr>"
  have err: "sv_fs (snd (do_reply_error dev hdr e ?s)) = sv_fs ?s" for hdr e
    by (rule keeps_reply(2) [unfolded keeps_def, rule_format])
  have disp: "sv_fs (snd (dispatch_opcode dev pagesize fs hdr ctx ?s)) = sv_fs ?s \<or>
      msg_call fs hdr (sv_fs ?s) (sv_fs (snd (dispatch_opcode dev pagesize fs hdr ctx ?s)))" for hdr ctx
    by (rule calls_dispatch [unfolded calls_def, rule_format])
  show ?thesis
    using hd err disp
    by (cases r) (auto simp: handle_message_def sbind_def srv_read_obj_def split: res.split)
qed

text \<open>
  (C7) A message, whatever its bytes, makes at most one call of the file system: its state stays
  as it is, or it takes the step of one method. The method is the one that the operation in the
  header stands for, with \<^verbatim>\<open>SETLKW\<close> served by \<^verbatim>\<open>setlk\<close>. It is about the inode in the header, apart from
  \<^verbatim>\<open>init\<close>, \<^verbatim>\<open>destroy\<close> and \<^verbatim>\<open>batch_forget\<close>, which are not about one inode, and \<^verbatim>\<open>link\<close>, which has that
  inode as the new parent.
\<close>

theorem one_call_per_message:
  "sv_fs (snd (handle_message dev pagesize fs s)) = sv_fs s \<or>
   (\<exists>hdr. fst (read_obj in_header_codec (wd_mem (sv_world s)) (sv_r s)) = Ok hdr \<and>
      msg_call fs hdr (sv_fs s) (sv_fs (snd (handle_message dev pagesize fs s))))"
  by (rule one_call_cases)

end
