(* ===== verification/Server_Replies.thy ===== *)
theory Server_Replies
  imports Server_Spec
begin

text \<open>
  What reaches the FUSE device, whatever bytes a client sends. \<open>quiet\<close> handlers leave the writer
  and the world alone; a \<open>good\<close> one, started with an untouched writer, sends at most one message,
  and that is a reply to the request. The file system may use a writer that is lent to it only
  through its interface, which is the contract \<open>lends_ok\<close>.
\<close>

section \<open>Replies\<close>

definition is_reply :: "u64 \<Rightarrow> bytes \<Rightarrow> bool" where
  "is_reply u msg \<longleftrightarrow> 16 \<le> length msg \<and>
     (let h = from_slice out_header_codec (take 16 msg)
      in oh_unique h = u \<and> unat (oh_len h) = length msg)"

definition one_reply :: "u64 \<Rightarrow> ('s, 'v) srv \<Rightarrow> 'r \<times> ('s, 'v) srv \<Rightarrow> bool" where
  "one_reply u s p \<longleftrightarrow>
     wd_dev (sv_world (snd p)) = wd_dev (sv_world s) \<or>
     (\<exists>msg. wd_dev (sv_world (snd p)) = wd_dev (sv_world s) @ [msg] \<and> is_reply u msg)"

fun w_idle :: "writer \<Rightarrow> bool" where
  "w_idle (FuseDev w) \<longleftrightarrow> \<not> fw_buffered w \<and> fw_len w = 0 \<and> length (fw_store w) < 2 ^ 32"
| "w_idle _ \<longleftrightarrow> False"

definition quiet :: "('s, 'v, 'a) sop \<Rightarrow> bool" where
  "quiet m \<longleftrightarrow> (\<forall>s. sv_w (snd (m s)) = sv_w s \<and> sv_world (snd (m s)) = sv_world s)"

definition good :: "u64 \<Rightarrow> ('s, 'v, 'a) sop \<Rightarrow> bool" where
  "good u m \<longleftrightarrow> (\<forall>s. w_idle (sv_w s) \<longrightarrow> one_reply u s (m s))"

lemma good_quiet: "quiet m \<Longrightarrow> good u m"
  by (simp add: good_def quiet_def one_reply_def)

lemma good_bind:
  assumes "quiet m" and "\<And>x. good u (f x)"
  shows "good u (sbind m f)"
  unfolding good_def
proof (intro allI impI)
  fix s :: "('a, 'b) srv" assume idle: "w_idle (sv_w s)"
  obtain r s' where m: "m s = (r, s')" by fastforce
  then have s': "sv_w s' = sv_w s" "sv_world s' = sv_world s" using assms(1) by (auto simp: quiet_def dest: spec [of _ s])
  show "one_reply u s (sbind m f s)"
  proof (cases r)
    case (XOk x)
    have "one_reply u s' (f x s')" using assms(2) [of x] idle s' by (simp add: good_def)
    then show ?thesis using s' m XOk by (simp add: sbind_def one_reply_def)
  qed (use m s' in \<open>simp_all add: sbind_def one_reply_def\<close>)
qed

lemma quiet_bind:
  assumes "quiet m" and "\<And>x. quiet (f x)"
  shows "quiet (sbind m f)"
  unfolding quiet_def
proof
  fix s :: "('a, 'b) srv"
  obtain r s' where m: "m s = (r, s')" by fastforce
  then have "sv_w s' = sv_w s" "sv_world s' = sv_world s" using assms(1) by (auto simp: quiet_def dest: spec [of _ s])
  with m assms(2) show "sv_w (snd (sbind m f s)) = sv_w s \<and> sv_world (snd (sbind m f s)) = sv_world s"
    by (cases r) (simp_all add: sbind_def quiet_def)
qed

lemma quiet_basic [simp]:
  "quiet (sret x)" "quiet (sfail e)" "quiet (slift r)" "quiet (srv_read_obj c)" "quiet (get_message_body hdr k)"
  "quiet (scall f)" "quiet (scall_lent g l)" "quiet srv_take_reader" "quiet (srv_keep_req l)"
  by (auto simp: quiet_def sret_def sfail_def slift_def srv_read_obj_def get_message_body_def scall_def
      scall_lent_def srv_take_reader_def srv_keep_req_def split: prod.split res.split lent.split)

lemma quiet_read_objs [simp]: "quiet (read_objs c n)"
  by (induction n) (auto intro!: quiet_bind)

lemma quiet_init_flags [simp]: "quiet (init_flags fl)"
  by (auto simp: init_flags_def intro!: quiet_bind)

lemma quiet_upd [simp]: "quiet (\<lambda>s. (r s, s\<lparr>sv_fs := g s\<rparr>))"
  by (simp add: quiet_def)

section \<open>Sending from an untouched writer\<close>

lemma is_reply_out_msg:
  assumes "16 + length p < 2 ^ 32"
  shows "is_reply u (out_msg err u p)"
proof -
  have "take 16 (out_msg err u p) =
      as_slice out_header_codec \<lparr>oh_len = of_nat (16 + length p), oh_error = err, oh_unique = u\<rparr>"
    by (simp add: out_msg_def)
  moreover have "unat (of_nat (16 + length p) :: u32) = 16 + length p"
    using assms by (intro unat_of_nat_small) simp
  ultimately show ?thesis
    by (simp add: is_reply_def out_header_b.from_as_slice del: of_nat_add)
qed

lemma w_idle_fresh: "w_idle w \<Longrightarrow> n \<le> w_available_bytes w \<Longrightarrow> w_fresh n w \<and> n < 2 ^ 32"
  by (cases w) (auto simp: fw_available_bytes_def)

lemma reply_ok_full:
  assumes "w_idle (sv_w s)" and "w_available_bytes (sv_w s) < 16 + length (opt_bytes out) + length (opt_bytes data)"
  shows "sv_world (snd (reply_ok dev hdr out data s)) = sv_world s"
proof -
  obtain w where w: "sv_w s = FuseDev w" "\<not> fw_buffered w" "fw_len w = 0" using assms(1) by (cases "sv_w s") auto
  have f: "foldl (\<lambda>acc x. acc + length x) n bs = n + length (concat bs)" for n and bs :: "bytes list"
    by (induction bs arbitrary: n) auto
  show ?thesis
    using w assms(2)
    by (auto simp: reply_ok_def Let_def sbind_def srv_write_def fw_write_def fw_write_vectored_def
        fw_check_available_space_def f split: if_splits)
qed

lemma good_reply_ok:
  assumes "dev_accepts dev"
  shows "good (ih_unique hdr) (reply_ok dev hdr out data)"
  unfolding good_def
proof (intro allI impI)
  fix s :: "('a, 'b) srv" assume idle: "w_idle (sv_w s)"
  let ?n = "16 + length (opt_bytes out) + length (opt_bytes data)"
  show "one_reply (ih_unique hdr) s (reply_ok dev hdr out data s)"
  proof (cases "?n \<le> w_available_bytes (sv_w s)")
    case True
    then have fresh: "w_fresh ?n (sv_w s)" "?n < 2 ^ 32" using w_idle_fresh [OF idle] by blast+
    show ?thesis
      using reply_ok_sent [OF assms fresh(1), of hdr]
        is_reply_out_msg [of "opt_bytes out @ opt_bytes data" "ih_unique hdr" 0] fresh(2)
      by (auto simp: one_reply_def add.assoc)
  next
    case False
    then show ?thesis using reply_ok_full [OF idle, of out data dev hdr] by (simp add: one_reply_def)
  qed
qed

lemma good_reply_error:
  assumes "dev_accepts dev"
  shows "good (ih_unique hdr) (do_reply_error dev hdr e)"
  unfolding good_def
proof (intro allI impI)
  fix s :: "('a, 'b) srv" assume idle: "w_idle (sv_w s)"
  show "one_reply (ih_unique hdr) s (do_reply_error dev hdr e s)"
  proof (cases "16 \<le> w_available_bytes (sv_w s)")
    case True
    then have fresh: "w_fresh 16 (sv_w s)" using w_idle_fresh [OF idle] by blast
    show ?thesis
      using do_reply_error_sent [OF assms fresh, of hdr e]
        is_reply_out_msg [of "[]" "ih_unique hdr" "- of_int (error_code e)"]
      by (auto simp: one_reply_def)
  next
    case False
    obtain w where w: "sv_w s = FuseDev w" "\<not> fw_buffered w" "fw_len w = 0" using idle by (cases "sv_w s") auto
    let ?h = "as_slice out_header_codec \<lparr>oh_len = of_nat (size_of out_header_codec),
        oh_error = - of_int (error_code e), oh_unique = ih_unique hdr\<rparr>"
    have "w_write dev ?h (sv_w s, sv_world s) = (Err (Custom InvalidData), sv_w s, sv_world s)"
      using w False by (simp add: fw_write_def fw_check_available_space_def)
    moreover have "?h \<noteq> []" by (metis out_header_b.length_as_slice list.size(3) size_of_out_header zero_neq_numeral)
    ultimately have "write_all dev ?h (sv_w s, sv_world s) = (Err (Custom InvalidData), sv_w s, sv_world s)"
      by (rule write_all_err)
    then show ?thesis by (simp add: do_reply_error_def Let_def sbind_def srv_write_def one_reply_def)
  qed
qed

lemma good_reply_result:
  "dev_accepts dev \<Longrightarrow> good (ih_unique hdr) (reply_result dev hdr f r)"
  by (cases r) (auto simp: reply_result_def good_reply_ok good_reply_error split: prod.split)

lemma good_cstr:
  assumes "dev_accepts dev" and "\<And>n. good (ih_unique hdr) (f n)"
  shows "good (ih_unique hdr) (sbind (srv_cstr dev hdr buf) f)"
  unfolding good_def
proof (intro allI impI)
  fix s :: "('a, 'b) srv" assume idle: "w_idle (sv_w s)"
  have err: "one_reply (ih_unique hdr) s (do_reply_error dev hdr (Os EINVAL) s)"
    by (rule good_reply_error [OF assms(1), unfolded good_def, rule_format, OF idle])
  show "one_reply (ih_unique hdr) s (sbind (srv_cstr dev hdr buf) f s)"
  proof (cases "bytes_to_cstr buf")
    case (XOk n)
    then show ?thesis using assms(2) [of n] idle by (simp add: good_def sbind_def srv_cstr_def)
  next
    case (XErr e)
    obtain r s' where rs: "do_reply_error dev hdr (Os EINVAL) s = (r, s')" by fastforce
    with err have "one_reply (ih_unique hdr) s (x, s')" for x :: "(fuse_error, 'c) xresult"
      by (simp add: one_reply_def)
    with XErr rs show ?thesis by (cases r) (simp_all add: sbind_def srv_cstr_def)
  qed (simp add: sbind_def srv_cstr_def one_reply_def)
qed

section \<open>Sending from a split writer\<close>

fun w_header :: "writer \<Rightarrow> bool" where
  "w_header (FuseDev w) \<longleftrightarrow> fw_buffered w \<and> fw_len w = 0 \<and> length (fw_store w) = 16"
| "w_header _ \<longleftrightarrow> False"

lemma write_header:
  assumes "w_header w" and "length h = 16"
  obtains w' where "write_all dev h (w, wd) = (Ok (), FuseDev w', wd)" "fw_buffered w'" "fw_slice w' = h" "fw_len w' = 16"
proof -
  obtain v where v: "w = FuseDev v" "fw_buffered v" "fw_len v = 0" "length (fw_store v) = 16"
    using assms(1) by (cases w) auto
  have "w_write dev h (w, wd) = (Ok (length h), FuseDev (fw_extend h v), wd)"
    using v assms(2) by (simp add: fw_write_def fw_check_available_space_def fw_available_bytes_def)
  moreover have "h \<noteq> []" using assms(2) by auto
  ultimately have "write_all dev h (w, wd) = (Ok (), FuseDev (fw_extend h v), wd)" by (rule write_all_done)
  then show ?thesis using that [of "fw_extend h v"] v assms(2) fw_extend_simps [of v h] by (simp add: fw_slice_def)
qed

lemma commit_sends:
  assumes "dev_accepts dev" and "fw_buffered w" and "fw_len w \<noteq> 0"
  shows "srv_commit dev other (s\<lparr>sv_w := FuseDev w\<rparr>) =
    (XOk (length (fw_slice w @ fw_other other)),
     s\<lparr>sv_w := FuseDev w, sv_world := (sv_world s)\<lparr>wd_dev := wd_dev (sv_world s) @ [fw_slice w @ fw_other other]\<rparr>\<rparr>)"
  using assms by (simp add: srv_commit_def srv_write_def fw_commit_def dev_send_def dev_accepts_def)

lemma reply_with_sent:
  assumes "dev_accepts dev" and "w_header (sv_w s)"
  shows "wd_dev (sv_world (snd (reply_with dev hdr count data_writer s))) = wd_dev (sv_world s) @
    [as_slice out_header_codec \<lparr>oh_len = ucast (16 + count), oh_error = 0, oh_unique = ih_unique hdr\<rparr> @
     fw_other (Some data_writer)]"
proof -
  let ?h = "as_slice out_header_codec \<lparr>oh_len = ucast (16 + count), oh_error = 0, oh_unique = ih_unique hdr\<rparr>"
  obtain w' where w': "write_all dev ?h (sv_w s, sv_world s) = (Ok (), FuseDev w', sv_world s)" "fw_buffered w'"
      "fw_slice w' = ?h" "fw_len w' = 16"
    using write_header [OF assms(2), of ?h] by auto
  then have "srv_write (write_all dev ?h) s = (XOk (), s\<lparr>sv_w := FuseDev w'\<rparr>)"
    by (simp add: srv_write_def)
  then show ?thesis
    using commit_sends [OF assms(1) w'(2), of "Some data_writer" s] w'(3,4)
    by (simp add: reply_with_def Let_def sbind_def sret_def)
qed

lemma reply_error_split:
  assumes "dev_accepts dev" and "w_header (sv_w s)"
  shows "wd_dev (sv_world (snd (do_reply_error dev hdr e s))) = wd_dev (sv_world s) @
    [out_msg (- of_int (error_code e)) (ih_unique hdr) []]"
proof -
  let ?h = "out_msg (- of_int (error_code e)) (ih_unique hdr) []"
  obtain w' where w': "write_all dev ?h (sv_w s, sv_world s) = (Ok (), FuseDev w', sv_world s)" "fw_buffered w'"
      "fw_slice w' = ?h" "fw_len w' = 16"
    using write_header [OF assms(2), of ?h] by auto
  then have "srv_write (write_all dev ?h) s = (XOk (), s\<lparr>sv_w := FuseDev w'\<rparr>)"
    by (simp add: srv_write_def)
  then show ?thesis
    using commit_sends [OF assms(1) w'(2), of None s] w'(3,4)
    by (simp add: do_reply_error_def Let_def sbind_def out_msg_def)
qed

text \<open>After the split: the writer keeps room for the header, the rest is an empty buffer.\<close>

lemma srv_split_idle:
  assumes "w_idle (sv_w s)"
  shows "(\<exists>s'. srv_split 16 s = (XErr InvalidHeaderLength, s') \<and> sv_world s' = sv_world s) \<or>
    (\<exists>w2 s'. srv_split 16 s = (XOk (FuseDev w2), s') \<and> sv_world s' = sv_world s \<and> w_header (sv_w s') \<and>
       sv_fs s' = sv_fs s \<and> fw_buffered w2 \<and> fw_len w2 = 0 \<and> length (fw_store w2) + 16 < 2 ^ 32)"
  using assms by (cases "sv_w s") (auto simp: srv_split_def fw_split_at_def Let_def min_def)

section \<open>Lending\<close>

text \<open>
  The contract of a file system that is lent a writer or a closure. \<^verbatim>\<open>read\<close> hands the writer
  back, still buffered, with nothing sent, with no more than the room it had, and returns the
  number of bytes that are in it. \<^verbatim>\<open>readdir\<close> and \<^verbatim>\<open>readdirplus\<close> touch the lent object only by
  calling the closure, so they keep whatever every call keeps.
\<close>

definition read_lends :: "('s, 'v lent) fs_ops \<Rightarrow> bool" where
  "read_lends fs \<longleftrightarrow>
     (\<forall>ctx ino fh w wd sz off owner fl t res l' t'.
        fd_inv (w, wd) \<longrightarrow> fd_written (w, wd) = [] \<longrightarrow>
        fs_read fs ctx ino fh (LWriter (w, wd)) sz off owner fl t = (res, l', t') \<longrightarrow>
        (\<exists>w' wd'. l' = LWriter (w', wd') \<and> fd_inv (w', wd') \<and> wd_dev wd' = wd_dev wd \<and>
           length (fd_written (w', wd')) \<le> w_room (w, wd) \<and>
           (\<forall>n. res = Ok n \<longrightarrow> unat n = length (fd_written (w', wd')))))"

lemma read_lendsD:
  assumes "read_lends fs" and "fd_inv (w, wd)" and "fd_written (w, wd) = []"
    and "fs_read fs ctx ino fh (LWriter (w, wd)) sz off owner fl t = (res, l', t')"
  shows "\<exists>w' wd'. l' = LWriter (w', wd') \<and> fd_inv (w', wd') \<and> wd_dev wd' = wd_dev wd \<and>
    length (fd_written (w', wd')) \<le> w_room (w, wd) \<and> (\<forall>n. res = Ok n \<longrightarrow> unat n = length (fd_written (w', wd')))"
  using assms(1) [unfolded read_lends_def, rule_format, OF assms(2-4)] .

definition readdir_lends :: "('s, 'v lent) fs_ops \<Rightarrow> bool" where
  "readdir_lends fs \<longleftrightarrow>
     (\<forall>P ctx ino fh sz off add c t.
        (\<forall>d c. P c \<longrightarrow> P (snd (add d c))) \<longrightarrow> P c \<longrightarrow>
        P (fst (snd (fs_readdir fs ctx ino fh sz off add c t)))) \<and>
     (\<forall>P ctx ino fh sz off add c t.
        (\<forall>d e c. P c \<longrightarrow> P (snd (add d e c))) \<longrightarrow> P c \<longrightarrow>
        P (fst (snd (fs_readdirplus fs ctx ino fh sz off add c t))))"

lemma readdir_lendsD:
  assumes "readdir_lends fs"
  shows "(\<And>d c. P c \<Longrightarrow> P (snd (add d c))) \<Longrightarrow> P c \<Longrightarrow> P (fst (snd (fs_readdir fs ctx ino fh sz off add c t)))"
    and "(\<And>d e c. P c \<Longrightarrow> P (snd (add' d e c))) \<Longrightarrow> P c \<Longrightarrow> P (fst (snd (fs_readdirplus fs ctx ino fh sz off add' c t)))"
  using assms [unfolded readdir_lends_def, THEN conjunct1, rule_format, of P add]
    assms [unfolded readdir_lends_def, THEN conjunct2, rule_format, of P add'] by blast+

definition lends_ok :: "('s, 'v lent) fs_ops \<Rightarrow> bool" where
  "lends_ok fs \<longleftrightarrow> read_lends fs \<and> readdir_lends fs"

text \<open>What a lent cursor keeps: buffered, nothing sent, within its room.\<close>

fun cursor_ok :: "nat \<Rightarrow> bytes list \<Rightarrow> 'v lent \<Rightarrow> bool" where
  "cursor_ok cap log (LWriter (w, wd)) \<longleftrightarrow>
     fd_inv (w, wd) \<and> wd_dev wd = log \<and> length (fd_written (w, wd)) + w_room (w, wd) = cap"
| "cursor_ok cap log _ \<longleftrightarrow> False"

lemma put_all_cursor:
  assumes "fd_inv (w, wd)" and "put_all (write_all dev) ds (w, wd) = (r, w', wd')"
  shows "fd_inv (w', wd') \<and> wd_dev wd' = wd_dev wd \<and>
    length (fd_written (w', wd')) + w_room (w', wd') = length (fd_written (w, wd)) + w_room (w, wd)"
  using assms
proof (induction ds arbitrary: w wd)
  case (Cons d ds)
  show ?case
  proof (cases "length d \<le> w_room (w, wd)")
    case True
    then obtain w1 wd1 where 1: "write_all dev d (w, wd) = (Ok (), w1, wd1)" "fd_inv (w1, wd1)"
        "fd_written (w1, wd1) = fd_written (w, wd) @ d" "w_room (w1, wd1) = w_room (w, wd) - length d"
      using fd_sink.put_ok [OF Cons.prems(1)] by (metis surj_pair)
    have "wd_dev wd1 = wd_dev wd"
    proof -
      obtain v where v: "w = FuseDev v" "fw_buffered v" using Cons.prems(1) by (cases w) auto
      show ?thesis
      proof (cases "d = []")
        case False
        have "w_write dev d (w, wd) = (Ok (length d), FuseDev (fw_extend d v), wd)"
          using v True by (simp add: fw_write_def fw_check_available_space_def w_room_def)
        then have "write_all dev d (w, wd) = (Ok (), FuseDev (fw_extend d v), wd)"
          using False by (rule write_all_done)
        with 1(1) show ?thesis by simp
      qed (use 1(1) in simp)
    qed
    moreover have "put_all (write_all dev) ds (w1, wd1) = (r, w', wd')" using Cons.prems(2) 1(1) by simp
    ultimately show ?thesis using Cons.IH [OF 1(2)] 1(3,4) True by auto
  next
    case False
    then have "write_all dev d (w, wd) = (Err (Custom InvalidData), w, wd)"
      using fd_sink.put_full [OF Cons.prems(1)] by simp
    with Cons.prems show ?thesis by auto
  qed
qed auto

lemma add_dirent_cursor: "cursor_ok cap log l \<Longrightarrow> cursor_ok cap log (snd (add_dirent dev sz d e l))"
proof -
  assume l: "cursor_ok cap log l"
  then obtain w wd where w: "l = LWriter (w, wd)" "fd_inv (w, wd)" "wd_dev wd = log"
      "length (fd_written (w, wd)) + w_room (w, wd) = cap"
    by (cases "(cap, log, l)" rule: cursor_ok.cases) auto
  show ?thesis
  proof (cases "put_all (write_all dev) (dirent_chunks d e) (w, wd)")
    case (fields r w' wd')
    then have "cursor_ok cap log (LWriter (w', wd'))" using put_all_cursor [OF w(2) fields] w(3,4) by simp
    with w fields show ?thesis by (cases r) (auto simp: add_dirent_def add_dirent_to_def Let_def)
  qed
qed

lemma is_reply_split:
  assumes "length p + 16 < 2 ^ 32" and "unat count = length p"
  shows "is_reply u (as_slice out_header_codec \<lparr>oh_len = ucast (16 + count :: u64), oh_error = 0, oh_unique = u\<rparr> @ p)"
proof -
  have "unat (16 + count) = 16 + length p" using assms by (simp add: unat_word_ariths)
  then have "unat (ucast (16 + count :: u64) :: u32) = 16 + length p"
    using assms(1) by (simp add: unsigned_ucast_eq take_bit_nat_eq_self)
  then show ?thesis by (simp add: is_reply_def out_header_b.from_as_slice)
qed

section \<open>Every handler sends at most one reply\<close>

lemma good_if: "good u m \<Longrightarrow> good u n \<Longrightarrow> good u (if b then m else n)"
  by simp

lemma good_when: "good u m \<Longrightarrow> good u n \<Longrightarrow> good u (\<lambda>s. if b s then m s else n s)"
  by (simp add: good_def)

lemma good_sum: "(\<And>e. good u (f e)) \<Longrightarrow> (\<And>x. good u (g x)) \<Longrightarrow> good u (case r of Inl e \<Rightarrow> f e | Inr x \<Rightarrow> g x)"
  by (cases r) auto

lemma good_pair: "(\<And>a b. good u (f a b)) \<Longrightarrow> good u (case p of (a, b) \<Rightarrow> f a b)"
  by (cases p) auto

lemma good_option: "good u m \<Longrightarrow> (\<And>x. good u (f x)) \<Longrightarrow> good u (case p of None \<Rightarrow> m | Some x \<Rightarrow> f x)"
  by (cases p) auto

lemma good_req: "good u m \<Longrightarrow> (\<And>x. good u (f x)) \<Longrightarrow> good u (\<lambda>s. case h s of None \<Rightarrow> m s | Some x \<Rightarrow> f x s)"
  by (auto simp: good_def split: option.split)

lemmas good_rules = good_if good_when good_sum good_pair good_option good_req

lemmas plain_handlers =
  srv_getattr_def srv_setattr_def srv_readlink_def srv_symlink_def srv_mknod_def srv_mkdir_def srv_unlink_def
  srv_rmdir_def srv_rename_def srv_rename2_def do_rename_def srv_link_def srv_open_def srv_statfs_def
  srv_release_def srv_fsync_def srv_setxattr_def srv_getxattr_def srv_listxattr_def srv_removexattr_def
  srv_flush_def srv_opendir_def srv_releasedir_def srv_fsyncdir_def srv_getlk_def srv_setlk_def srv_setlkw_def
  srv_access_def srv_create_def srv_bmap_def srv_poll_def srv_notify_reply_def srv_fallocate_def srv_lseek_def
  srv_forget_def srv_batch_forget_def srv_setupmapping_def srv_removemapping_def handle_attr_result_def

lemma good_plain:
  assumes "dev_accepts dev"
  shows "good (ih_unique hdr) (srv_getattr dev fs hdr ctx)" "good (ih_unique hdr) (srv_setattr dev fs hdr ctx)"
    "good (ih_unique hdr) (srv_readlink dev fs hdr ctx)" "good (ih_unique hdr) (srv_symlink dev fs hdr ctx)"
    "good (ih_unique hdr) (srv_mknod dev fs hdr ctx)" "good (ih_unique hdr) (srv_mkdir dev fs hdr ctx)"
    "good (ih_unique hdr) (srv_unlink dev fs hdr ctx)" "good (ih_unique hdr) (srv_rmdir dev fs hdr ctx)"
    "good (ih_unique hdr) (srv_rename dev fs hdr ctx)" "good (ih_unique hdr) (srv_rename2 dev fs hdr ctx)"
    "good (ih_unique hdr) (srv_link dev fs hdr ctx)" "good (ih_unique hdr) (srv_open dev fs hdr ctx)"
    "good (ih_unique hdr) (srv_statfs dev fs hdr ctx)" "good (ih_unique hdr) (srv_release dev fs hdr ctx)"
    "good (ih_unique hdr) (srv_fsync dev fs hdr ctx)" "good (ih_unique hdr) (srv_setxattr dev fs hdr ctx)"
    "good (ih_unique hdr) (srv_getxattr dev fs hdr ctx)" "good (ih_unique hdr) (srv_listxattr dev fs hdr ctx)"
    "good (ih_unique hdr) (srv_removexattr dev fs hdr ctx)" "good (ih_unique hdr) (srv_flush dev fs hdr ctx)"
    "good (ih_unique hdr) (srv_opendir dev fs hdr ctx)" "good (ih_unique hdr) (srv_releasedir dev fs hdr ctx)"
    "good (ih_unique hdr) (srv_fsyncdir dev fs hdr ctx)" "good (ih_unique hdr) (srv_getlk dev fs hdr ctx)"
    "good (ih_unique hdr) (srv_setlk dev fs hdr ctx)" "good (ih_unique hdr) (srv_setlkw dev fs hdr ctx)"
    "good (ih_unique hdr) (srv_access dev fs hdr ctx)" "good (ih_unique hdr) (srv_create dev fs hdr ctx)"
    "good (ih_unique hdr) (srv_bmap dev fs hdr ctx)" "good (ih_unique hdr) (srv_poll dev fs hdr ctx)"
    "good (ih_unique hdr) (srv_notify_reply dev fs hdr)" "good (ih_unique hdr) (srv_fallocate dev fs hdr ctx)"
    "good (ih_unique hdr) (srv_lseek dev fs hdr ctx)" "good (ih_unique hdr) (srv_forget fs hdr ctx)"
    "good (ih_unique hdr) (srv_batch_forget fs hdr ctx)"
    "good (ih_unique hdr) (srv_setupmapping dev fs hdr ctx)" "good (ih_unique hdr) (srv_removemapping dev fs hdr ctx)"
  unfolding plain_handlers Let_def
  by (rule good_cstr [OF assms] good_bind good_reply_result [OF assms] good_reply_ok [OF assms]
      good_reply_error [OF assms] good_rules quiet_basic quiet_read_objs good_quiet quiet_upd | simp)+

text \<open>The handlers whose control depends on the state, or that drop the result of the reply.\<close>

lemma good_lookup_result:
  assumes "dev_accepts dev"
  shows "good (ih_unique hdr) (sbind (scall (fs_lookup fs ctx (ih_nodeid hdr) name)) (\<lambda>result.
       case result of
         Inr e \<Rightarrow>
           if minor < KERNEL_MINOR_VERSION_LOOKUP_NEGATIVE_ENTRY_ZERO \<and> e_inode e = 0
           then reply_error dev hdr (Os ENOENT)
           else reply_ok dev hdr (Some (as_slice entry_out_codec (entry_out_from e))) None
       | Inl err \<Rightarrow> reply_error dev hdr err))"
  by (intro good_bind good_sum good_if good_reply_ok good_reply_error assms) simp

lemma good_lookup:
  assumes "dev_accepts dev"
  shows "good (ih_unique hdr) (srv_lookup dev fs hdr ctx)"
  unfolding srv_lookup_def Let_def
  by (intro good_bind good_cstr [OF assms] quiet_basic)
    (simp add: good_def good_lookup_result [OF assms, unfolded good_def])

lemma good_lent: "(\<And>x. good u (f x)) \<Longrightarrow> good u (\<lambda>s. sbind (scall_lent g (h s)) f s)"
  unfolding good_def by (intro allI impI) (rule good_bind [OF quiet_basic(7), unfolded good_def, rule_format], blast)

lemma good_write_op:
  assumes "dev_accepts dev"
  shows "good (ih_unique hdr) (srv_write_op dev fs hdr ctx)"
  unfolding srv_write_op_def Let_def
  by (rule good_bind quiet_basic good_lent good_pair good_reply_result [OF assms])+

lemma good_after:
  assumes "good u m" and "\<And>s. sv_w (g s) = sv_w s" and "\<And>s. sv_world (g s) = sv_world s"
  shows "good u (\<lambda>s. m (g s))"
  unfolding good_def
proof (intro allI impI)
  fix s :: "('a, 'b) srv" assume "w_idle (sv_w s)"
  then have "one_reply u (g s) (m (g s))" using assms(1) by (simp add: good_def assms(2))
  then show "one_reply u s (m (g s))" by (simp add: one_reply_def assms(3))
qed

lemma good_init:
  assumes "dev_accepts dev"
  shows "good (ih_unique hdr) (srv_init dev pagesize fs hdr)"
  unfolding srv_init_def Let_def
  by (intro good_bind quiet_basic quiet_init_flags good_if good_sum good_reply_ok good_reply_error assms)
    (rule good_after [OF good_reply_ok [OF assms]]; simp)

lemma good_destroy:
  assumes "dev_accepts dev"
  shows "good (ih_unique hdr) (srv_destroy dev fs hdr)"
  unfolding good_def
proof (intro allI impI)
  fix s :: "('a, 'b) srv" assume idle: "w_idle (sv_w s)"
  let ?s = "s\<lparr>sv_fs := fs_destroy fs (sv_fs s)\<rparr>"
  have "w_idle (sv_w ?s)" using idle by simp
  then have "one_reply (ih_unique hdr) ?s (reply_ok dev hdr None None ?s)"
    by (rule good_reply_ok [OF assms, unfolded good_def, rule_format])
  then show "one_reply (ih_unique hdr) s (srv_destroy dev fs hdr s)"
    by (cases "reply_ok dev hdr None None ?s"; cases "fst (reply_ok dev hdr None None ?s)")
      (simp_all add: srv_destroy_def one_reply_def)
qed

lemma quiet_ioctl_data:
  "quiet (\<lambda>s. if n > 0
     then (case reader_read (wd_mem (sv_world s)) n (sv_r s) of
             (Ok data, r) \<Rightarrow> (XOk (if data = [] then None else Some data), s\<lparr>sv_r := r\<rparr>)
           | (Err e, r) \<Rightarrow> (XErr (DecodeMessage e), s\<lparr>sv_r := r\<rparr>)
           | (Panic, r) \<Rightarrow> (XPanic, s\<lparr>sv_r := r\<rparr>))
     else (XOk None, s))"
  by (auto simp: quiet_def split: prod.split res.split)

lemma good_ioctl:
  assumes "dev_accepts dev"
  shows "good (ih_unique hdr) (srv_ioctl dev fs hdr ctx)"
  unfolding srv_ioctl_def
  by (intro good_bind quiet_basic quiet_ioctl_data good_when good_reply_result good_reply_error assms)

section \<open>The handlers that lend the writer\<close>

lemma lent_then_reply:
  assumes "dev_accepts dev" and "w_header (sv_w s)"
    and call: "f (LWriter (w2, sv_world s)) (sv_fs s) = (res, LWriter (w', wd'), t')"
    and ret: "fd_inv (w', wd')" "wd_dev wd' = wd_dev (sv_world s)" "length (fd_written (w', wd')) + 16 < 2 ^ 32"
    and count: "\<And>x. res = Ok x \<Longrightarrow> unat (cnt x w') = length (fd_written (w', wd'))"
  shows "one_reply (ih_unique hdr) s
    (sbind (scall_lent f (LWriter (w2, sv_world s))) (\<lambda>(result, l).
       sbind (srv_take_back w2 l) (\<lambda>dw. case result of
           Inl e \<Rightarrow> do_reply_error dev hdr e | Inr x \<Rightarrow> reply_with dev hdr (cnt x dw) dw)) s)"
proof -
  let ?s = "s\<lparr>sv_fs := t', sv_world := wd'\<rparr>"
  have h: "w_header (sv_w ?s)" using assms(2) by simp
  obtain v where v: "w' = FuseDev v" using ret(1) by (cases w') auto
  show ?thesis
  proof (cases res)
    case (Ok x)
    have "one_reply (ih_unique hdr) ?s (reply_with dev hdr (cnt x w') w' ?s)"
      using reply_with_sent [OF assms(1) h, of hdr "cnt x w'" w'] is_reply_split [OF ret(3) count [OF Ok]]
      by (simp add: one_reply_def v)
    then show ?thesis
      using Ok call ret(2) by (simp add: sbind_def scall_lent_def srv_take_back_def one_reply_def)
  next
    case (Err e)
    have "one_reply (ih_unique hdr) ?s (do_reply_error dev hdr e ?s)"
      using reply_error_split [OF assms(1) h, of hdr e] is_reply_out_msg [of "[]" "ih_unique hdr"]
      by (simp add: one_reply_def)
    then show ?thesis
      using Err call ret(2) by (simp add: sbind_def scall_lent_def srv_take_back_def one_reply_def)
  qed (use call in \<open>simp add: sbind_def scall_lent_def one_reply_def\<close>)
qed

text \<open>A continuation after the split is enough to look at where the split succeeds.\<close>

lemma good_split:
  assumes "\<And>w2 s. w_header (sv_w s) \<Longrightarrow> fd_inv (w2, sv_world s) \<Longrightarrow> fd_written (w2, sv_world s) = [] \<Longrightarrow>
      w_room (w2, sv_world s) + 16 < 2 ^ 32 \<Longrightarrow> one_reply u s (f w2 s)"
  shows "good u (sbind (srv_split (size_of out_header_codec)) f)"
  unfolding good_def
proof (intro allI impI)
  fix s :: "('a, 'b) srv" assume "w_idle (sv_w s)"
  then consider (err) s' where "srv_split 16 s = (XErr InvalidHeaderLength, s')" "sv_world s' = sv_world s"
    | (split) w2 s' where "srv_split 16 s = (XOk (FuseDev w2), s')" "sv_world s' = sv_world s"
        "w_header (sv_w s')" "fw_buffered w2" "fw_len w2 = 0" "length (fw_store w2) + 16 < 2 ^ 32"
    using srv_split_idle by blast
  then show "one_reply u s (sbind (srv_split (size_of out_header_codec)) f s)"
  proof cases
    case err
    then show ?thesis by (simp add: sbind_def one_reply_def)
  next
    case split
    have "one_reply u s' (f (FuseDev w2) s')"
      by (rule assms) (use split in \<open>simp_all add: fw_slice_def w_room_def fw_available_bytes_def\<close>)
    then show ?thesis using split(1,2) by (simp add: sbind_def one_reply_def)
  qed
qed

lemma good_read:
  assumes "dev_accepts dev" and "read_lends fs"
  shows "good (ih_unique hdr) (srv_read dev fs hdr ctx)"
  unfolding srv_read_def Let_def
proof (rule good_bind [OF quiet_basic(4)], rule good_split)
  fix i :: read_in and w2 and s :: "('a, 'b) srv"
  assume s: "w_header (sv_w s)" "fd_inv (w2, sv_world s)" "fd_written (w2, sv_world s) = []"
    "w_room (w2, sv_world s) + 16 < 2 ^ 32"
  let ?own = "if rd_read_flags i AND READ_LOCKOWNER \<noteq> 0 then Some (rd_lock_owner i) else None"
  let ?f = "\<lambda>l. fs_read fs ctx (ih_nodeid hdr) (rd_fh i) l (rd_size i) (rd_offset i) ?own (rd_flags i)"
  obtain res l' t' where call: "?f (LWriter (w2, sv_world s)) (sv_fs s) = (res, l', t')" by (metis surj_pair)
  then obtain w' wd' where l': "l' = LWriter (w', wd')" "fd_inv (w', wd')" "wd_dev wd' = wd_dev (sv_world s)"
      "length (fd_written (w', wd')) \<le> w_room (w2, sv_world s)"
      "\<And>n. res = Ok n \<Longrightarrow> unat n = length (fd_written (w', wd'))"
    using read_lendsD [OF assms(2) s(2,3) call] by auto
  show "one_reply (ih_unique hdr) s (sbind (scall_lent ?f (LWriter (w2, sv_world s)))
     (\<lambda>(result, l). sbind (srv_take_back w2 l) (\<lambda>data_writer. case result of
        Inl e \<Rightarrow> reply_error dev hdr e | Inr count \<Rightarrow> reply_with dev hdr count data_writer)) s)"
    by (rule lent_then_reply [where w' = w' and wd' = wd' and res = res and t' = t', OF assms(1) s(1)])
      (use call l' s(4) in auto)
qed

lemma good_do_readdir:
  assumes "dev_accepts dev" and "readdir_lends fs"
  shows "good (ih_unique hdr) (srv_do_readdir dev fs hdr ctx is_plus)"
  unfolding srv_do_readdir_def
proof (rule good_bind [OF quiet_basic(4)], rule good_when [OF good_reply_error [OF assms(1)]], rule good_split)
  fix i :: read_in and w2 and s :: "('a, 'b) srv"
  assume s: "w_header (sv_w s)" "fd_inv (w2, sv_world s)" "fd_written (w2, sv_world s) = []"
    "w_room (w2, sv_world s) + 16 < 2 ^ 32"
  let ?f = "\<lambda>l. if is_plus
       then fs_readdirplus fs ctx (ih_nodeid hdr) (rd_fh i) (rd_size i) (rd_offset i)
              (\<lambda>d e. add_dirent dev (rd_size i) d (Some e)) l
       else fs_readdir fs ctx (ih_nodeid hdr) (rd_fh i) (rd_size i) (rd_offset i)
              (\<lambda>d. add_dirent dev (rd_size i) d None) l"
  let ?P = "cursor_ok (w_room (w2, sv_world s)) (wd_dev (sv_world s)) :: 'b lent \<Rightarrow> bool"
  obtain res l' t' where call: "?f (LWriter (w2, sv_world s)) (sv_fs s) = (res, l', t')" by (metis surj_pair)
  have "?P (LWriter (w2, sv_world s))" using s by simp
  then have "?P (fst (snd (?f (LWriter (w2, sv_world s)) (sv_fs s))))"
    using readdir_lendsD(1) [OF assms(2), where P = ?P] readdir_lendsD(2) [OF assms(2), where P = ?P]
    by (cases is_plus) (simp_all add: add_dirent_cursor)
  then have "?P l'" using call by simp
  then obtain w' wd' where l': "l' = LWriter (w', wd')" "fd_inv (w', wd')" "wd_dev wd' = wd_dev (sv_world s)"
      "length (fd_written (w', wd')) \<le> w_room (w2, sv_world s)"
    by (cases l' rule: lent.exhaust) fastforce+
  have "unat (of_nat (w_bytes_written w') :: u64) = length (fd_written (w', wd'))"
    using l'(2,4) s(4) by (cases w') (auto simp: fw_slice_def fw_bytes_written_def unat_of_nat_small)
  then show "one_reply (ih_unique hdr) s (sbind (scall_lent ?f (LWriter (w2, sv_world s)))
     (\<lambda>(result, l). sbind (srv_take_back w2 l) (\<lambda>cursor'. case result of
        Inl e \<Rightarrow> reply_error_explicit dev hdr e
      | Inr _ \<Rightarrow> reply_with dev hdr (of_nat (w_bytes_written cursor')) cursor')) s)"
    by (intro lent_then_reply [where w' = w' and wd' = wd' and res = res and t' = t', OF assms(1) s(1)])
      (use call l' s(4) in auto)
qed

lemma good_dispatch:
  assumes "dev_accepts dev" and "lends_ok fs"
  shows "good (ih_unique hdr) (dispatch_opcode dev pagesize fs hdr ctx)"
proof -
  have lends: "read_lends fs" "readdir_lends fs" using assms(2) by (simp_all add: lends_ok_def)
  show ?thesis
    unfolding dispatch_opcode_def Let_def srv_readdir_def srv_readdirplus_def
    by (rule good_if good_plain [OF assms(1)] good_lookup [OF assms(1)] good_read [OF assms(1) lends(1)]
        good_write_op [OF assms(1)] good_init [OF assms(1)] good_do_readdir [OF assms(1) lends(2)]
        good_destroy [OF assms(1)] good_ioctl [OF assms(1)] good_reply_error [OF assms(1)]
        good_quiet [OF quiet_basic(1)])+
qed

text \<open>
  A message whose header cannot be read gets no answer: there is no request to answer.
\<close>

definition request_unique :: "('s, 'v) srv \<Rightarrow> u64" where
  "request_unique s =
     (case fst (read_obj in_header_codec (wd_mem (sv_world s)) (sv_r s)) of Ok hdr \<Rightarrow> ih_unique hdr | _ \<Rightarrow> 0)"

lemma one_reply_message:
  assumes "dev_accepts dev" and "lends_ok fs" and "w_idle (sv_w s)"
  shows "one_reply (request_unique s) s (handle_message dev pagesize fs s)"
proof -
  obtain r rd where hd: "read_obj in_header_codec (wd_mem (sv_world s)) (sv_r s) = (r, rd)" by fastforce
  let ?s = "s\<lparr>sv_r := rd\<rparr>"
  show ?thesis
  proof (cases r)
    case (Ok hdr)
    have idle: "w_idle (sv_w ?s)" using assms(3) by simp
    have "one_reply (ih_unique hdr) ?s (do_reply_error dev hdr e ?s)" for e
      by (rule good_reply_error [OF assms(1), unfolded good_def, rule_format, OF idle])
    moreover have "one_reply (ih_unique hdr) ?s (dispatch_opcode dev pagesize fs hdr ctx ?s)" for ctx
      by (rule good_dispatch [OF assms(1,2), unfolded good_def, rule_format, OF idle])
    ultimately show ?thesis
      using Ok hd by (auto simp: handle_message_def sbind_def srv_read_obj_def request_unique_def one_reply_def
          split: res.split)
  qed (use hd in \<open>simp_all add: handle_message_def sbind_def srv_read_obj_def one_reply_def\<close>)
qed

text \<open>
  (C3) Whatever bytes a client sends, and whatever the file system does within its contract, the
  server sends at most one message to the FUSE device. If it sends one, it is a reply: at least a
  header long, with the length of the message in its length field and the id of the request in
  its id field.
\<close>

theorem at_most_one_reply:
  assumes "dev_accepts dev" and "lends_ok fs" and "w_idle (sv_w s)"
  shows "one_reply (request_unique s) s (handle_message dev pagesize fs s)"
  using assms by (rule one_reply_message)

text \<open>A file system that uses what it is lent: two bytes to read, and a directory of one entry.\<close>

fun hello_read :: "'v lent \<Rightarrow> nat \<Rightarrow> usize res \<times> 'v lent \<times> nat" where
  "hello_read (LWriter p) n =
     (case write_all sample_dev [104, 105] p of
        (Ok _, p') \<Rightarrow> (Ok 2, LWriter p', Suc n)
      | (Err e, p') \<Rightarrow> (Err e, LWriter p', n)
      | (Panic, p') \<Rightarrow> (Panic, LWriter p', n))"
| "hello_read l n = (Panic, l, n)"

definition hello_fs :: "(nat, unit lent) fs_ops" where
  "hello_fs = default_fs_ops
     \<lparr>fs_read := (\<lambda>ctx ino fh l sz off owner fl. hello_read l),
      fs_readdir := (\<lambda>ctx ino fh sz off add l n.
        case add \<lparr>de_ino = 2, de_offset = 1, de_type = 8, de_name = ''hi''\<rparr> l of
          (Ok _, l') \<Rightarrow> (Ok (), l', n) | (Err e, l') \<Rightarrow> (Err e, l', n) | (Panic, l') \<Rightarrow> (Panic, l', n))\<rparr>"

lemma hello_read_lends:
  assumes "fd_inv (w, wd)" and "fd_written (w, wd) = []" and "hello_read (LWriter (w, wd)) n = (res, l', n')"
  shows "\<exists>w' wd'. l' = LWriter (w', wd') \<and> fd_inv (w', wd') \<and> wd_dev wd' = wd_dev wd \<and>
    length (fd_written (w', wd')) \<le> w_room (w, wd) \<and> (\<forall>n. res = Ok n \<longrightarrow> unat n = length (fd_written (w', wd')))"
proof (cases "2 \<le> w_room (w, wd)")
  case True
  then obtain w1 wd1 where 1: "write_all sample_dev [104, 105] (w, wd) = (Ok (), w1, wd1)" "fd_inv (w1, wd1)"
      "fd_written (w1, wd1) = [104, 105]"
    using fd_sink.put_ok [OF assms(1), of "[104, 105]" sample_dev] assms(2) by auto
  have "put_all (write_all sample_dev) [[104, 105]] (w, wd) = (Ok (), w1, wd1)" using 1(1) by simp
  from put_all_cursor [OF assms(1) this] have "wd_dev wd1 = wd_dev wd" by simp
  then show ?thesis using assms(3) 1 True by auto
next
  case False
  then have "write_all sample_dev [104, 105] (w, wd) = (Err (Custom InvalidData), w, wd)"
    using fd_sink.put_full [OF assms(1), of "[104, 105]" sample_dev] by simp
  then show ?thesis using assms by auto
qed

lemma hello_fs_lends: "lends_ok hello_fs"
  unfolding lends_ok_def
proof
  show "read_lends hello_fs"
    unfolding read_lends_def using hello_read_lends by (auto simp: hello_fs_def)
  show "readdir_lends hello_fs"
    by (auto simp: readdir_lends_def hello_fs_def default_fs_ops_def split: prod.split res.split)
      (metis prod.sel(2))+
qed

definition read_header :: in_header where
  "read_header =
     \<lparr>ih_len = 80, ih_opcode = 15, ih_unique = 5, ih_nodeid = 1, ih_uid = 0, ih_gid = 0, ih_pid = 0, ih_padding = 0\<rparr>"

theorem at_most_one_reply_witness:
  "let s = sample_srv 0 (as_slice in_header_codec read_header @ replicate 40 0)
   in lends_ok hello_fs \<and> w_idle (sv_w s) \<and> one_reply (request_unique s) s (handle_message sample_dev 4096 hello_fs s)"
proof -
  let ?s = "sample_srv 0 (as_slice in_header_codec read_header @ replicate 40 0)"
  have idle: "w_idle (sv_w ?s)" by (simp add: sample_srv_def fw_new_def)
  show ?thesis
    using at_most_one_reply [OF sample_dev_accepts hello_fs_lends idle, of 4096] hello_fs_lends idle by (simp add: Let_def)
qed

end
