(* ===== verification/Server_Vfs.thy ===== *)
theory Server_Vfs
  imports Server_Calls Server_Replies Vfs_Ops
begin

text \<open>
  The server with the VFS behind it: a message from the client reaches a backend through the
  decoder of the server and the routing of the VFS. What the two promise one by one holds of the
  composition: reachable states stay reachable, a message touches one backend, and at most one
  reply is sent when the backends keep the contract of lent objects.
\<close>

section \<open>Calls of the VFS\<close>

lemma vfs_call_step:
  assumes "fs_call (vfs_fs_ops be now) i v v'"
  shows "v' = v \<or> vfs_step be now i v v'"
  using assms
  by cases (auto simp: vfs_fs_ops_def default_fs_ops_def intro: vfs_step.intros)

lemma vfs_forget_reachable: "vfs_reachable be v \<Longrightarrow> vfs_reachable be (snd (vfs_forget be now ctx i n v))"
  by (erule r_step) (rule s_forget)

lemma vfs_batch_forget_reachable:
  "vfs_reachable be v \<Longrightarrow>
     vfs_reachable be (default_batch_forget (\<lambda>ctx inode count v. snd (vfs_forget be now ctx inode count v)) ctx reqs v)"
  by (induction reqs arbitrary: v) (auto simp: vfs_forget_reachable)

lemma vfs_msg_reachable:
  assumes "vfs_reachable be v" and "msg_call (vfs_fs_ops be now) hdr v v'"
  shows "vfs_reachable be v'"
proof -
  have step: "vfs_reachable be v'" if "fs_call (vfs_fs_ops be now) i v v'" for i
    using vfs_call_step [OF that] assms(1) by (auto intro: r_step)
  have "fs_init (vfs_fs_ops be now) = vfs_init be" "fs_destroy (vfs_fs_ops be now) = vfs_destroy be"
    "fs_batch_forget (vfs_fs_ops be now) =
       default_batch_forget (\<lambda>ctx inode count v. snd (vfs_forget be now ctx inode count v))"
    by (simp_all add: vfs_fs_ops_def)
  with assms step show ?thesis
    by (auto simp: msg_call_def split: if_splits dest: fs_method_call
        intro: r_init r_destroy vfs_batch_forget_reachable c_link)
qed

section \<open>Lending through the VFS\<close>

lemma dispatch_lend_keeps:
  assumes "\<And>idata p. P (fst (snd (left idata c p)))" and "\<And>idata b. P (fst (snd (right idata c b)))" and "P c"
  shows "P (fst (snd (dispatch_lend i c left right v)))"
  using assms by (auto simp: dispatch_lend_def split_def Let_def split: res.split vfs_either.split)

lemma readdir_loop_keeps:
  assumes "\<And>d c. P c \<Longrightarrow> P (snd (add d c))"
  shows "P c \<Longrightarrow> P (snd (readdir_loop xs nxt add c))"
proof (induction xs arbitrary: nxt c)
  case (Cons x xs)
  obtain ino name where x: "x = (ino, name)" by fastforce
  obtain r c' where a: "add \<lparr>de_ino = ino, de_offset = nxt, de_type = 0, de_name = name\<rparr> c = (r, c')" by fastforce
  then have "P c'" using assms [OF Cons.prems, of "\<lparr>de_ino = ino, de_offset = nxt, de_type = 0, de_name = name\<rparr>"] by simp
  then show ?case using a x Cons.IH by (cases r) auto
qed simp

lemma do_readdir_keeps:
  assumes "\<And>d c. P c \<Longrightarrow> P (snd (add d c))" and "P c"
  shows "P (snd (do_readdir i sz off add c p))"
  using assms(2) readdir_loop_keeps [of P add, OF assms(1)] by (auto simp: do_readdir_def split: option.split)

lemma with_conv_keeps: "P c \<Longrightarrow> (\<And>i. P (snd (f i c))) \<Longrightarrow> P (snd (with_conv r f c))"
  by (cases r) (simp_all add: with_conv_def)

lemma vfs_readdir_lends:
  assumes "readdir_lends (fs_ops.truncate be)"
  shows "readdir_lends (vfs_fs_ops be now)"
proof -
  note be = readdir_lendsD [OF assms, unfolded fs_ops.truncate_def fs_ops.simps]
  have r: "P (fst (snd (vfs_readdir be now ctx i fh sz off add c v)))"
    if add: "\<And>d c. P c \<Longrightarrow> P (snd (add d c))" and "P c" for P ctx i fh sz off add c and v :: "'a vfs"
    unfolding vfs_readdir_def
  proof (rule dispatch_lend_keeps [where P = P])
    show "P (fst (snd (pseudo_readdir ctx (vi_ino idata) fh sz off (add_pseudo v idata add) c p)))" for idata p
      using do_readdir_keeps [of P "add_pseudo v idata add" c] add \<open>P c\<close>
      by (simp add: pseudo_readdir_def split_def Let_def add_pseudo_def with_conv_keeps)
    show "P (fst (snd (fs_readdir be ctx (vi_ino idata) fh sz off (add_backend idata add) c b)))" for idata b
      by (rule be(1) [where P = P]) (simp_all add: add_backend_def with_conv_keeps add \<open>P c\<close>)
  qed (rule \<open>P c\<close>)
  have rp: "P (fst (snd (vfs_readdirplus be now ctx i fh sz off add c v)))"
    if add: "\<And>d e c. P c \<Longrightarrow> P (snd (add d e c))" and "P c" for P ctx i fh sz off add c and v :: "'a vfs"
    unfolding vfs_readdirplus_def
  proof (rule dispatch_lend_keeps [where P = P])
    show "P (fst (snd (pseudo_readdirplus now ctx (vi_ino idata) fh sz off (add_plus_pseudo v idata add) c p)))" for idata p
      using do_readdir_keeps [of P "\<lambda>d. add_plus_pseudo v idata add d (get_entry now (de_ino d))" c] add \<open>P c\<close>
      by (simp add: pseudo_readdirplus_def split_def add_plus_pseudo_def Let_def with_conv_keeps split: option.split)
    show "P (fst (snd (fs_readdirplus be ctx (vi_ino idata) fh sz off (add_plus_backend v idata add) c b)))" for idata b
      by (rule be(2) [where P = P]) (simp_all add: add_plus_backend_def with_conv_keeps add \<open>P c\<close>)
  qed (rule \<open>P c\<close>)
  have ops: "fs_readdir (vfs_fs_ops be now) = vfs_readdir be now"
    "fs_readdirplus (vfs_fs_ops be now) = vfs_readdirplus be now"
    by (simp_all add: vfs_fs_ops_def)
  show ?thesis
    unfolding readdir_lends_def ops
  proof (intro conjI allI impI, goal_cases)
    case (1 P ctx i fh sz off add c v)
    then show ?case using r [of P add c] by simp
  next
    case (2 P ctx i fh sz off add c v)
    then show ?case using rp [of P add c] by simp
  qed
qed

lemma vfs_read_lends:
  assumes "read_lends (fs_ops.truncate be)"
  shows "read_lends (vfs_fs_ops be now)"
  unfolding read_lends_def
proof (intro allI impI)
  fix ctx ino fh w wd sz off owner fl t res l' t'
  assume w: "fd_inv (w, wd)" "fd_written (w, wd) = []"
    and call: "fs_read (vfs_fs_ops be now) ctx ino fh (LWriter (w, wd)) sz off owner fl t = (res, l', t')"
  note be = read_lendsD [OF assms w, unfolded fs_ops.truncate_def fs_ops.simps]
  show "\<exists>w' wd'. l' = LWriter (w', wd') \<and> fd_inv (w', wd') \<and> wd_dev wd' = wd_dev wd \<and>
      length (fd_written (w', wd')) \<le> w_room (w, wd) \<and> (\<forall>n. res = Ok n \<longrightarrow> unat n = length (fd_written (w', wd')))"
    using call w be
    by (auto simp: vfs_fs_ops_def vfs_read_def dispatch_lend_def pfs_ops_def pseudo_fs_ops_def default_fs_ops_def
        split: res.splits vfs_either.splits prod.splits)
qed

lemma vfs_lends:
  assumes "lends_ok (fs_ops.truncate be)"
  shows "lends_ok (vfs_fs_ops be now)"
  using assms unfolding lends_ok_def by (blast intro: vfs_read_lends vfs_readdir_lends)

section \<open>A sample message\<close>

text \<open>A read of the root of the backend that is mounted at \<open>/a\<close>.\<close>

definition hello_backend :: "(nat, unit lent) backend_ops" where
  "hello_backend = fs_ops.extend hello_fs \<lparr>be_mount = (\<lambda>s. (Ok (entry_default\<lparr>e_inode := 1\<rparr>, 100), s))\<rparr>"

lemma hello_backend_lends: "lends_ok (fs_ops.truncate hello_backend)"
proof -
  have "fs_ops.truncate hello_backend = hello_fs" by (simp add: hello_backend_def fs_ops.defs)
  then show ?thesis using hello_fs_lends by simp
qed

definition vfs_header :: in_header where
  "vfs_header = read_header\<lparr>ih_nodeid := 0x100000000000001\<rparr>"

definition vfs_msg :: bytes where
  "vfs_msg = as_slice in_header_codec vfs_header @ replicate 40 0"

lemma vfs_msg_header:
  "fst (read_obj in_header_codec (wd_mem (sv_world (sample_srv t vfs_msg))) (sv_r (sample_srv t vfs_msg))) = Ok vfs_header"
proof -
  let ?s = "sample_srv t vfs_msg"
  have rd: "srv_rd ?s" by (rule sample_srv_rd) (simp add: vfs_msg_def USIZE_MAX_def)
  have "srv_read_obj in_header_codec ?s = (XOk vfs_header, srv_advance 40 ?s)"
    using srv_read_obj_ok [OF rd, of in_header_codec] by (simp add: vfs_msg_def in_header_b.from_as_slice)
  then show ?thesis by (auto simp: srv_read_obj_def split: prod.splits res.splits)
qed

section \<open>Properties\<close>

text \<open>
  (C5) Whatever message arrives, the server takes the VFS from a reachable state to a reachable
  state, in which the mount invariant holds. So the invariant survives every client.
\<close>

theorem message_keeps_invariant:
  assumes "vfs_reachable be (sv_fs s)"
  shows "vfs_reachable be (sv_fs (snd (handle_message dev pagesize (vfs_fs_ops be now) s))) \<and>
    vfs_wf (sv_fs (snd (handle_message dev pagesize (vfs_fs_ops be now) s)))"
proof -
  have "vfs_reachable be (sv_fs (snd (handle_message dev pagesize (vfs_fs_ops be now) s)))"
    using one_call_cases [of dev pagesize "vfs_fs_ops be now" s] assms vfs_msg_reachable by metis
  then show ?thesis using vfs_reachable_wf by blast
qed

theorem message_keeps_invariant_witness:
  "vfs_reachable hello_backend sample_vfs \<and>
   vfs_wf (sv_fs (snd (handle_message sample_dev 4096 (vfs_fs_ops hello_backend 0) (sample_srv sample_vfs vfs_msg))))"
proof -
  have r: "vfs_reachable hello_backend (sv_fs (sample_srv sample_vfs vfs_msg))"
    unfolding sample_vfs_def by (simp add: r_new)
  from message_keeps_invariant [OF r, of sample_dev 4096 0] r show ?thesis by simp
qed

text \<open>
  (C4) Isolation from the wire to the backend: a message that is no \<^verbatim>\<open>init\<close>, \<^verbatim>\<open>destroy\<close>,
  \<^verbatim>\<open>batch_forget\<close> or \<^verbatim>\<open>link\<close> can change the state of the backend that the inode in its header is
  routed to, and nothing else of the VFS.
\<close>

theorem message_isolated:
  assumes "vfs_wf (sv_fs s)"
    and "fst (read_obj in_header_codec (wd_mem (sv_world s)) (sv_r s)) = Ok hdr"
    and "ih_opcode hdr \<notin> {OpInit, OpDestroy, OpBatchForget, OpLink}"
    and "route (ih_nodeid hdr) (sv_fs s) \<noteq> Some j"
  shows "let v' = sv_fs (snd (handle_message dev pagesize (vfs_fs_ops be now) s))
    in v' = (sv_fs s)\<lparr>superblocks := superblocks v'\<rparr> \<and>
       superblocks v' ! unat j = superblocks (sv_fs s) ! unat j"
proof -
  let ?v = "sv_fs s" and ?v' = "sv_fs (snd (handle_message dev pagesize (vfs_fs_ops be now) s))"
  have "?v' = ?v \<or> fs_call (vfs_fs_ops be now) (ih_nodeid hdr) ?v ?v'"
    using one_call_cases [of dev pagesize "vfs_fs_ops be now" s] assms(2,3) by (auto simp: msg_call_def dest: fs_method_call)
  then have "only_slot (route (ih_nodeid hdr) ?v) ?v ?v'"
    using vfs_call_step vfs_step_frame only_slot_refl by metis
  then obtain sbs where sbs: "?v' = ?v\<lparr>superblocks := sbs\<rparr>" "length sbs = length (superblocks ?v)"
      "\<forall>i < length sbs. route (ih_nodeid hdr) ?v \<noteq> Some (of_nat i) \<longrightarrow> sbs ! i = superblocks ?v ! i"
    unfolding only_slot_def by blast
  with vfs_wf_slot [OF assms(1), of j] assms(4) show ?thesis by (auto simp: Let_def)
qed

theorem message_isolated_witness:
  "\<exists>v'. v' = sv_fs (snd (handle_message sample_dev 4096 (vfs_fs_ops hello_backend 0) (sample_srv sample_mounted vfs_msg))) \<and>
     v' = sample_mounted\<lparr>superblocks := superblocks v'\<rparr> \<and>
     superblocks v' ! unat (3 :: u8) = superblocks sample_mounted ! unat (3 :: u8)"
proof -
  let ?s = "sample_srv sample_mounted vfs_msg :: (nat vfs, unit) srv"
  have wf: "vfs_wf (sv_fs ?s)" by (simp add: sample_mounted_wf)
  have op: "ih_opcode vfs_header \<notin> {OpInit, OpDestroy, OpBatchForget, OpLink}"
    by (simp add: vfs_header_def read_header_def opcode_defs)
  have rt: "route (ih_nodeid vfs_header) (sv_fs ?s) \<noteq> Some 3"
    by (simp add: vfs_header_def route_def sample_routes(1))
  from message_isolated [OF wf vfs_msg_header op rt, of sample_dev 4096 hello_backend 0]
  show ?thesis by (simp add: Let_def)
qed

text \<open>
  (C6) The server over the VFS sends at most one well-formed reply to each message, when every
  backend keeps the contract of the objects that are lent to it: the VFS hands them on unharmed.
\<close>

theorem vfs_at_most_one_reply:
  assumes "dev_accepts dev" and "lends_ok (fs_ops.truncate be)" and "w_idle (sv_w s)"
  shows "one_reply (request_unique s) s (handle_message dev pagesize (vfs_fs_ops be now) s)"
  by (rule one_reply_message [OF assms(1) vfs_lends [OF assms(2)] assms(3)])

theorem vfs_at_most_one_reply_witness:
  "let s = sample_srv sample_mounted vfs_msg
   in w_idle (sv_w s) \<and>
      one_reply (request_unique s) s (handle_message sample_dev 4096 (vfs_fs_ops hello_backend 0) s)"
proof -
  let ?s = "sample_srv sample_mounted vfs_msg"
  have idle: "w_idle (sv_w ?s)" by (simp add: sample_srv_def fw_new_def)
  show ?thesis
    using vfs_at_most_one_reply [OF sample_dev_accepts hello_backend_lends idle, of 4096 0] idle by (simp add: Let_def)
qed

end
