(* ===== verification/Passthrough_Inodes.thy ===== *)
theory Passthrough_Inodes
  imports Vfs
begin

text \<open>
  The tables of the passthrough file system (\<^verbatim>\<open>passthrough/inode_store.rs\<close>, \<^verbatim>\<open>passthrough/util.rs\<close>
  and the inode and handle maps of \<^verbatim>\<open>passthrough/mod.rs\<close>): the inodes the client knows, under
  their number, the identity of the host file and its file handle; the open files; and the
  generator of inode numbers from host inode numbers.

  A \<^verbatim>\<open>BTreeMap\<close> is a map. The reference count of an inode is a field of its entry: an operation
  runs without interference here, so the compare-and-exchange loops succeed at the first
  attempt. Interleavings of the loops are not modelled.
\<close>

section \<open>Identities\<close>

type_synonym rawfd = int

record inode_id =
  iid_ino :: u64
  iid_dev :: u64
  iid_mnt :: u64

text \<open>\<^verbatim>\<open>struct file_handle\<close> of the kernel with the id of its mount.\<close>

record file_handle =
  fh_mnt_id :: u64
  fh_type :: i32
  fh_bytes :: bytes

text \<open>\<^verbatim>\<open>StatExt\<close>: what \<^verbatim>\<open>statx\<close> yields of a file.\<close>

record stat_ext =
  sx_st :: stat64
  sx_mnt_id :: u64

definition inode_id_from_stat :: "stat_ext \<Rightarrow> inode_id" where
  "inode_id_from_stat st = \<lparr>iid_ino = st_ino (sx_st st), iid_dev = st_dev (sx_st st), iid_mnt = sx_mnt_id st\<rparr>"

text \<open>
  \<^verbatim>\<open>InodeHandle\<close>: an \<^verbatim>\<open>O_PATH\<close> descriptor, or a file handle with the descriptor of its mount.
\<close>

datatype inode_handle = IFile rawfd | IHandle file_handle rawfd

fun ih_file_handle :: "inode_handle \<Rightarrow> file_handle option" where
  "ih_file_handle (IFile f) = None"
| "ih_file_handle (IHandle h m) = Some h"

record inode_data =
  id_inode :: u64
  id_handle :: inode_handle
  id_id :: inode_id
  id_refcount :: u64
  id_mode :: u32

definition MAX_HOST_INO :: u64 where "MAX_HOST_INO = 0x7fffffffffff"

section \<open>The inode store\<close>

record inode_store =
  is_data :: "u64 \<rightharpoonup> inode_data"
  by_id :: "inode_id \<rightharpoonup> u64"
  by_handle :: "file_handle \<rightharpoonup> u64"

definition inode_store_default :: inode_store where
  "inode_store_default = \<lparr>is_data = Map.empty, by_id = Map.empty, by_handle = Map.empty\<rparr>"

definition store_insert :: "inode_data \<Rightarrow> inode_store \<Rightarrow> inode_store" where
  "store_insert d st =
     \<lparr>is_data = (is_data st)(id_inode d \<mapsto> d),
      by_id = (by_id st)(id_id d \<mapsto> id_inode d),
      by_handle = (case ih_file_handle (id_handle d) of
                     Some h \<Rightarrow> (by_handle st)(h \<mapsto> id_inode d) | None \<Rightarrow> by_handle st)\<rparr>"

definition store_remove :: "u64 \<Rightarrow> bool \<Rightarrow> inode_store \<Rightarrow> inode_data option \<times> inode_store" where
  "store_remove i remove_data_only st =
     (let data = is_data st i; st' = st\<lparr>is_data := (is_data st)(i := None)\<rparr>
      in if remove_data_only then (data, st')
         else
           (case data of
              None \<Rightarrow> (data, st')
            | Some d \<Rightarrow>
                (data,
                 st'\<lparr>by_handle := (case ih_file_handle (id_handle d) of
                                      Some h \<Rightarrow> (by_handle st')(h := None) | None \<Rightarrow> by_handle st'),
                     by_id := (by_id st')(id_id d := None)\<rparr>)))"

definition store_clear :: "inode_store \<Rightarrow> inode_store" where
  "store_clear st = inode_store_default"

definition store_get :: "u64 \<Rightarrow> inode_store \<Rightarrow> inode_data option" where
  "store_get i st = is_data st i"

definition inode_by_id :: "inode_id \<Rightarrow> inode_store \<Rightarrow> u64 option" where
  "inode_by_id k st = by_id st k"

definition inode_by_handle :: "file_handle \<Rightarrow> inode_store \<Rightarrow> u64 option" where
  "inode_by_handle h st = by_handle st h"

definition store_get_by_id :: "inode_id \<Rightarrow> inode_store \<Rightarrow> inode_data option" where
  "store_get_by_id k st = Option.bind (inode_by_id k st) (\<lambda>i. store_get i st)"

definition store_get_by_handle :: "file_handle \<Rightarrow> inode_store \<Rightarrow> inode_data option" where
  "store_get_by_handle h st = Option.bind (inode_by_handle h st) (\<lambda>i. store_get i st)"

section \<open>The inode map\<close>

definition map_get :: "u64 \<Rightarrow> inode_store \<Rightarrow> inode_data res" where
  "map_get i st = (case store_get i st of Some d \<Rightarrow> Ok d | None \<Rightarrow> Err (Os EBADF))"

definition get_inode_locked :: "inode_id \<Rightarrow> file_handle option \<Rightarrow> inode_store \<Rightarrow> u64 option" where
  "get_inode_locked k h st = (case h of Some fh \<Rightarrow> inode_by_handle fh st | None \<Rightarrow> inode_by_id k st)"

definition get_alt_locked :: "inode_id \<Rightarrow> file_handle option \<Rightarrow> inode_store \<Rightarrow> inode_data option" where
  "get_alt_locked k h st =
     (case Option.bind h (\<lambda>fh. store_get_by_handle fh st) of
        Some d \<Rightarrow> Some d
      | None \<Rightarrow>
          (case store_get_by_id k st of
             Some d \<Rightarrow> if h = None \<or> ih_file_handle (id_handle d) = None then Some d else None
           | None \<Rightarrow> None))"

text \<open>The update of an atomic reference count in place.\<close>

definition store_set_ref :: "u64 \<Rightarrow> u64 \<Rightarrow> inode_store \<Rightarrow> inode_store" where
  "store_set_ref i n st =
     st\<lparr>is_data := (\<lambda>j. if j = i then map_option (\<lambda>d. d\<lparr>id_refcount := n\<rparr>) (is_data st i) else is_data st j)\<rparr>"

section \<open>Handles\<close>

record handle_data =
  hd_inode :: u64
  hd_file :: rawfd
  hd_flags :: u32

type_synonym handle_map = "u64 \<rightharpoonup> handle_data"

definition handle_release :: "u64 \<Rightarrow> u64 \<Rightarrow> handle_map \<Rightarrow> unit res \<times> handle_map" where
  "handle_release h i hs =
     (case hs h of
        Some d \<Rightarrow> if hd_inode d = i then (Ok (), hs(h := None)) else (Err (Os EBADF), hs)
      | None \<Rightarrow> (Err (Os EBADF), hs))"

definition handle_get :: "u64 \<Rightarrow> u64 \<Rightarrow> handle_map \<Rightarrow> handle_data res" where
  "handle_get h i hs =
     (case hs h of
        Some d \<Rightarrow> if hd_inode d = i then Ok d else Err (Os EBADF)
      | None \<Rightarrow> Err (Os EBADF))"

section \<open>Unique inode numbers\<close>

text \<open>
  One bit for a virtual number, eight bits for the pair of device and mount, and 47 bits for the
  host inode number or a counter.
\<close>

definition VIRTUAL_INODE_FLAG :: u64 where "VIRTUAL_INODE_FLAG = 0x80000000000000"

record inode_generator =
  dev_mntid_map :: "u64 \<times> u64 \<rightharpoonup> u8"
  next_unique_id :: u8
  next_virtual_inode :: u64

definition generator_new :: inode_generator where
  "generator_new = \<lparr>dev_mntid_map = Map.empty, next_unique_id = 1, next_virtual_inode = ROOT_ID + 1\<rparr>"

definition get_unique_id :: "u64 \<times> u64 \<Rightarrow> (inode_generator, u8) op" where
  "get_unique_id k g =
     (case dev_mntid_map g k of
        Some n \<Rightarrow> (Ok n, g)
      | None \<Rightarrow>
          if next_unique_id g = - 1 then (Err (Custom Other), g)
          else (Ok (next_unique_id g),
                g\<lparr>next_unique_id := next_unique_id g + 1,
                  dev_mntid_map := (dev_mntid_map g)(k \<mapsto> next_unique_id g)\<rparr>))"

definition get_unique_inode :: "inode_id \<Rightarrow> (inode_generator, u64) op" where
  "get_unique_inode k g =
     op_bind (get_unique_id (iid_dev k, iid_mnt k) g) (\<lambda>unique_id g.
       if iid_ino k \<le> MAX_HOST_INO then (Ok (push_bit 47 (ucast unique_id) OR iid_ino k), g)
       else if next_virtual_inode g > MAX_HOST_INO then (Err (Custom Other), g)
       else (Ok (push_bit 47 (ucast unique_id) OR (next_virtual_inode g OR VIRTUAL_INODE_FLAG)),
             g\<lparr>next_virtual_inode := next_virtual_inode g + 1\<rparr>))"

section \<open>Numbers and their parts\<close>

lemma VIRTUAL_FLAG_bit: "bit VIRTUAL_INODE_FLAG n \<longleftrightarrow> n = 55"
proof -
  have eq: "VIRTUAL_INODE_FLAG = push_bit 55 1" by (simp add: VIRTUAL_INODE_FLAG_def push_bit_eq_mult)
  show ?thesis unfolding eq by (auto simp del: push_bit_of_1 simp: bit_simps)
qed

lemma le_MAX_HOST_INO_iff: "x \<le> MAX_HOST_INO \<longleftrightarrow> (\<forall>n. bit x n \<longrightarrow> n < 47)"
proof -
  have "x \<le> MAX_HOST_INO \<longleftrightarrow> take_bit 47 (uint x) = uint x"
    by (simp add: word_le_def MAX_HOST_INO_def take_bit_int_eq_self_iff) linarith
  also have "\<dots> \<longleftrightarrow> take_bit 47 x = x"
    by (simp add: word_uint_eq_iff unsigned_take_bit_eq)
  also have "\<dots> \<longleftrightarrow> (\<forall>n. bit x n \<longrightarrow> n < 47)"
    unfolding bit_eq_iff using bit_imp_le_length [of x] by (auto simp: bit_simps)
  finally show ?thesis .
qed

lemma le_MAX_HOST_INO_bit: "x \<le> MAX_HOST_INO \<Longrightarrow> bit x n \<Longrightarrow> n < 47"
  by (simp add: le_MAX_HOST_INO_iff)

text \<open>A number with its pair \<open>u\<close>, the flag \<open>v\<close> and the low part \<open>x\<close>.\<close>

definition unique_parts :: "u8 \<Rightarrow> bool \<Rightarrow> u64 \<Rightarrow> u64" where
  "unique_parts u v x = push_bit 47 (ucast u) OR (x OR (if v then VIRTUAL_INODE_FLAG else 0))"

lemma unique_parts_bit:
  assumes "x \<le> MAX_HOST_INO"
  shows "bit (unique_parts u v x) n \<longleftrightarrow>
    n < 47 \<and> bit x n \<or> 47 \<le> n \<and> n < 55 \<and> bit u (n - 47) \<or> v \<and> n = 55"
  using le_MAX_HOST_INO_bit [OF assms, of n] bit_imp_le_length [of u "n - 47"]
  by (auto simp: unique_parts_def bit_or_iff bit_push_bit_iff bit_ucast_iff VIRTUAL_FLAG_bit)

lemma unique_parts_inject:
  assumes "x \<le> MAX_HOST_INO" and "y \<le> MAX_HOST_INO"
  shows "unique_parts u v x = unique_parts u' v' y \<longleftrightarrow> u = u' \<and> v = v' \<and> x = y"
proof
  assume eq: "unique_parts u v x = unique_parts u' v' y"
  have b: "bit (unique_parts u v x) n = bit (unique_parts u' v' y) n" for n using eq by simp
  have "bit u n = bit u' n" for n
    using b [of "n + 47"] bit_imp_le_length [of u n] bit_imp_le_length [of u' n]
    by (auto simp: unique_parts_bit assms)
  moreover have "v = v'" using b [of 55] by (simp add: unique_parts_bit assms)
  moreover have "bit x n = bit y n" for n
    using b [of n] le_MAX_HOST_INO_bit [OF assms(1)] le_MAX_HOST_INO_bit [OF assms(2)]
    by (cases "n < 47") (auto simp: unique_parts_bit assms)
  ultimately show "u = u' \<and> v = v' \<and> x = y" by (simp add: bit_eq_iff)
qed simp

lemma unique_parts_bounds:
  assumes "x \<le> MAX_HOST_INO" and "u \<noteq> 0"
  shows "unique_parts u v x \<le> VFS_MAX_INO" and "MAX_HOST_INO < unique_parts u v x"
proof -
  show "unique_parts u v x \<le> VFS_MAX_INO"
    by (auto simp: le_VFS_MAX_INO_bit unique_parts_bit assms)
  show "MAX_HOST_INO < unique_parts u v x"
  proof (rule ccontr)
    assume "\<not> MAX_HOST_INO < unique_parts u v x"
    then have "bit (unique_parts u v x) n \<Longrightarrow> n < 47" for n using le_MAX_HOST_INO_bit by (simp add: not_less)
    then have "\<not> bit u n" for n
      using bit_imp_le_length [of u n] unique_parts_bit [OF assms(1), of u v "n + 47"] by force
    with assms(2) show False by (simp add: bit_eq_iff)
  qed
qed

section \<open>The generator\<close>

definition gen_wf :: "inode_generator \<Rightarrow> bool" where
  "gen_wf g \<longleftrightarrow> 0 < next_unique_id g \<and> 1 < next_virtual_inode g \<and>
     (\<forall>k n. dev_mntid_map g k = Some n \<longrightarrow> 0 < n \<and> n < next_unique_id g) \<and> inj_on (dev_mntid_map g) (dom (dev_mntid_map g))"

lemma gen_wf_new: "gen_wf generator_new"
  by (simp add: gen_wf_def generator_new_def ROOT_ID_def)

text \<open>What the state of the generator says of a number it gave out.\<close>

definition issued :: "inode_generator \<Rightarrow> inode_id \<Rightarrow> u64 \<Rightarrow> bool" where
  "issued g k n \<longleftrightarrow> (\<exists>u x. dev_mntid_map g (iid_dev k, iid_mnt k) = Some u \<and> u \<noteq> 0 \<and> x \<le> MAX_HOST_INO \<and>
     (if iid_ino k \<le> MAX_HOST_INO then n = unique_parts u False (iid_ino k)
      else n = unique_parts u True x \<and> x < next_virtual_inode g))"

definition gen_ext :: "inode_generator \<Rightarrow> inode_generator \<Rightarrow> bool" where
  "gen_ext g g' \<longleftrightarrow> dev_mntid_map g \<subseteq>\<^sub>m dev_mntid_map g' \<and> next_virtual_inode g \<le> next_virtual_inode g'"

lemma gen_ext_refl [simp]: "gen_ext g g"
  by (simp add: gen_ext_def)

lemma gen_ext_trans: "gen_ext g g' \<Longrightarrow> gen_ext g' g'' \<Longrightarrow> gen_ext g g''"
  by (auto simp: gen_ext_def intro: map_le_trans)

lemma issued_ext: "gen_ext g g' \<Longrightarrow> issued g k n \<Longrightarrow> issued g' k n"
  by (fastforce simp: gen_ext_def issued_def map_le_def dom_def split: if_splits intro: less_le_trans)

lemma word_less_no_wrap:
  assumes "(x :: u8) \<noteq> - 1"
  shows "x < x + 1"
proof -
  have "unat x \<noteq> unat (- 1 :: u8)" using assms unsigned_word_eqI [of x "- 1"] by metis
  also have "unat (- 1 :: u8) = 255" by (simp add: unsigned_minus_1_eq_mask mask_eq_exp_minus_1)
  finally have "unat x + 1 < 256" using unat_u8_less [of x] by linarith
  then show ?thesis by (intro word_less_add_one) simp
qed

lemma get_unique_id_step:
  assumes "gen_wf g" and "get_unique_id k g = (r, g')"
  shows "gen_wf g' \<and> gen_ext g g' \<and> next_virtual_inode g' = next_virtual_inode g \<and>
    (\<forall>u. r = Ok u \<longrightarrow> dev_mntid_map g' k = Some u \<and> u \<noteq> 0)"
proof (cases "dev_mntid_map g k = None \<and> next_unique_id g \<noteq> - 1")
  case True
  let ?n = "next_unique_id g"
  have lt: "?n < ?n + 1" using True by (simp add: word_less_no_wrap)
  have free: "dev_mntid_map g j \<noteq> Some ?n" for j using assms(1) unfolding gen_wf_def by (metis less_irrefl)
  have old: "0 < n \<and> n < ?n + 1" if "dev_mntid_map g j = Some n" for j n
    using assms(1) that lt unfolding gen_wf_def by (metis less_trans)
  have inj: "inj_on ((dev_mntid_map g)(k \<mapsto> ?n)) (dom ((dev_mntid_map g)(k \<mapsto> ?n)))"
    using assms(1) free True by (auto simp: gen_wf_def inj_on_def dom_def)
  have g': "g' = g\<lparr>next_unique_id := ?n + 1, dev_mntid_map := (dev_mntid_map g)(k \<mapsto> ?n)\<rparr>" and r: "r = Ok ?n"
    using assms(2) True by (auto simp: get_unique_id_def)
  have pos: "0 < ?n" "1 < next_virtual_inode g" using assms(1) by (simp_all add: gen_wf_def)
  have "gen_wf g'"
    using g' old inj lt pos by (auto simp: gen_wf_def intro: less_trans)
  moreover have "gen_ext g g'" using g' True by (auto simp: gen_ext_def map_le_def)
  ultimately show ?thesis using g' r pos by auto
next
  case False
  have "dev_mntid_map g k \<noteq> Some 0" using assms(1) unfolding gen_wf_def by (metis less_irrefl)
  with False show ?thesis using assms by (auto simp: get_unique_id_def split: option.splits)
qed

lemma get_unique_inode_step:
  assumes "gen_wf g" and "get_unique_inode k g = (r, g')"
  shows "gen_wf g' \<and> gen_ext g g' \<and> (\<forall>n. r = Ok n \<longrightarrow> issued g' k n)"
proof -
  obtain r1 g1 where id: "get_unique_id (iid_dev k, iid_mnt k) g = (r1, g1)" by fastforce
  note step = get_unique_id_step [OF assms(1) id]
  show ?thesis
  proof (cases r1)
    case (Ok u)
    with step have u: "dev_mntid_map g1 (iid_dev k, iid_mnt k) = Some u" "u \<noteq> 0" by auto
    consider (host) "iid_ino k \<le> MAX_HOST_INO" | (full) "\<not> iid_ino k \<le> MAX_HOST_INO" "next_virtual_inode g1 > MAX_HOST_INO"
      | (virtual) "\<not> iid_ino k \<le> MAX_HOST_INO" "next_virtual_inode g1 \<le> MAX_HOST_INO"
      by fastforce
    then show ?thesis
    proof cases
      case host
      then have "r = Ok (unique_parts u False (iid_ino k))" "g' = g1"
        using assms(2) id Ok by (auto simp: get_unique_inode_def unique_parts_def)
      with step u host show ?thesis by (auto simp: issued_def)
    next
      case full
      then show ?thesis using assms(2) id Ok step by (auto simp: get_unique_inode_def)
    next
      case virtual
      let ?x = "next_virtual_inode g1"
      have r: "r = Ok (unique_parts u True ?x)" "g' = g1\<lparr>next_virtual_inode := ?x + 1\<rparr>"
        using assms(2) id Ok virtual by (auto simp: get_unique_inode_def unique_parts_def not_less [symmetric] split: if_splits)
      have lt: "?x < ?x + 1"
        using virtual(2) by (intro word_less_add_one) (simp add: MAX_HOST_INO_def word_le_nat_alt)
      then have "gen_wf g'" "gen_ext g1 g'" using step r(2) by (auto simp: gen_wf_def gen_ext_def intro: less_trans)
      moreover have "issued g' k (unique_parts u True ?x)" using r(2) u virtual lt by (auto simp: issued_def)
      ultimately show ?thesis using step r(1) gen_ext_trans by auto
    qed
  qed (use assms(2) id step in \<open>auto simp: get_unique_inode_def\<close>)
qed

text \<open>The generator after a sequence of calls.\<close>

fun gen_after :: "inode_id list \<Rightarrow> inode_generator \<Rightarrow> inode_generator" where
  "gen_after [] g = g"
| "gen_after (k # ks) g = gen_after ks (snd (get_unique_inode k g))"

lemma gen_after_step: "gen_wf g \<Longrightarrow> gen_wf (gen_after ks g) \<and> gen_ext g (gen_after ks g)"
proof (induction ks arbitrary: g)
  case (Cons k ks)
  obtain r g' where g': "get_unique_inode k g = (r, g')" by fastforce
  then show ?case using get_unique_inode_step [OF Cons.prems g'] Cons.IH [of g'] gen_ext_trans by auto
qed simp

lemma gen_after_append: "gen_after (ks @ ls) g = gen_after ls (gen_after ks g)"
  by (induction ks arbitrary: g) auto

lemma issued_bounds: "issued g k n \<Longrightarrow> n \<le> VFS_MAX_INO \<and> MAX_HOST_INO < n"
  unfolding issued_def by (elim exE conjE) (cases "iid_ino k \<le> MAX_HOST_INO"; simp add: unique_parts_bounds)

text \<open>A number that is given out after \<open>n1\<close> was: it is \<open>n1\<close> again only for the same small host inode.\<close>

lemma issued_again:
  assumes "gen_wf g" and "issued g k1 n1" and "get_unique_inode k2 g = (Ok n2, g')"
  shows "n1 = n2 \<longleftrightarrow> k1 = k2 \<and> iid_ino k1 \<le> MAX_HOST_INO"
proof -
  obtain u1 g1 where id: "get_unique_id (iid_dev k2, iid_mnt k2) g = (Ok u1, g1)"
    using assms(3) by (auto simp: get_unique_inode_def)
  note step = get_unique_id_step [OF assms(1) id]
  obtain u x where 1: "dev_mntid_map g1 (iid_dev k1, iid_mnt k1) = Some u" "x \<le> MAX_HOST_INO"
      "if iid_ino k1 \<le> MAX_HOST_INO then n1 = unique_parts u False (iid_ino k1)
       else n1 = unique_parts u True x \<and> x < next_virtual_inode g1"
    using issued_ext [of g g1, OF _ assms(2)] step unfolding issued_def by blast
  have u1: "dev_mntid_map g1 (iid_dev k2, iid_mnt k2) = Some u1" using step by simp
  have inj: "inj_on (dev_mntid_map g1) (dom (dev_mntid_map g1))" using step by (simp add: gen_wf_def)
  have pair: "u = u1 \<longleftrightarrow> iid_dev k1 = iid_dev k2 \<and> iid_mnt k1 = iid_mnt k2"
    using inj_on_eq_iff [OF inj, of "(iid_dev k1, iid_mnt k1)" "(iid_dev k2, iid_mnt k2)"] 1(1) u1 by auto
  show ?thesis
  proof (cases "iid_ino k2 \<le> MAX_HOST_INO")
    case True
    then have "n2 = unique_parts u1 False (iid_ino k2)"
      using assms(3) id by (auto simp: get_unique_inode_def unique_parts_def)
    then show ?thesis using 1 pair True by (auto simp: unique_parts_inject split: if_splits intro: inode_id.equality)
  next
    case False
    then have n2: "next_virtual_inode g1 \<le> MAX_HOST_INO" "n2 = unique_parts u1 True (next_virtual_inode g1)"
      using assms(3) id by (auto simp: get_unique_inode_def unique_parts_def split: if_splits)
    then show ?thesis using 1 False by (auto simp: unique_parts_inject split: if_splits)
  qed
qed

text \<open>
  (C8) The generator of inode numbers gives a number of at most 56 bits, above every host inode
  number, and tells files apart: among all numbers it ever gives out, two are equal exactly when
  they were given to the same file with an inode number of at most 47 bits.
\<close>

theorem unique_inode_injective:
  assumes "get_unique_inode k1 (gen_after ks generator_new) = (Ok n1, g1)"
    and "get_unique_inode k2 (gen_after (ks @ k1 # ls) generator_new) = (Ok n2, g2)"
  shows "n1 \<le> VFS_MAX_INO \<and> MAX_HOST_INO < n1 \<and> (n1 = n2 \<longleftrightarrow> k1 = k2 \<and> iid_ino k1 \<le> MAX_HOST_INO)"
proof -
  have g: "gen_wf (gen_after ks generator_new)" using gen_after_step [OF gen_wf_new] by simp
  note step = get_unique_inode_step [OF g assms(1)]
  have g2: "gen_after (ks @ k1 # ls) generator_new = gen_after ls g1"
    using assms(1) by (simp add: gen_after_append)
  have wf: "gen_wf (gen_after ls g1)" and ext: "gen_ext g1 (gen_after ls g1)"
    using step gen_after_step by auto
  have "issued (gen_after ls g1) k1 n1" using step issued_ext [OF ext] by simp
  from issued_bounds [OF this] issued_again [OF wf this] assms(2) show ?thesis unfolding g2 by blast
qed

theorem unique_inode_injective_witness:
  "\<exists>n1 n2 n3. get_unique_inode \<lparr>iid_ino = 5, iid_dev = 1, iid_mnt = 0\<rparr> (gen_after [] generator_new) = (Ok n1, n3) \<and>
     get_unique_inode \<lparr>iid_ino = 5, iid_dev = 2, iid_mnt = 0\<rparr>
       (gen_after ([] @ \<lparr>iid_ino = 5, iid_dev = 1, iid_mnt = 0\<rparr> # []) generator_new) = (Ok n2, n3\<lparr>next_unique_id := 3,
         dev_mntid_map := (dev_mntid_map n3)((2, 0) \<mapsto> 2)\<rparr>) \<and> n1 \<noteq> n2"
proof -
  let ?k1 = "\<lparr>iid_ino = 5, iid_dev = 1, iid_mnt = 0\<rparr>" and ?k2 = "\<lparr>iid_ino = 5, iid_dev = 2, iid_mnt = 0\<rparr>"
  let ?g = "generator_new\<lparr>next_unique_id := 2, dev_mntid_map := [(1, 0) \<mapsto> 1]\<rparr>"
  have 1: "get_unique_inode ?k1 (gen_after [] generator_new) = (Ok (push_bit 47 (ucast (1 :: u8)) OR 5), ?g)"
    by (simp add: get_unique_inode_def get_unique_id_def generator_new_def MAX_HOST_INO_def)
  have 2: "get_unique_inode ?k2 (gen_after ([] @ ?k1 # []) generator_new) =
      (Ok (push_bit 47 (ucast (2 :: u8)) OR 5), ?g\<lparr>next_unique_id := 3, dev_mntid_map := (dev_mntid_map ?g)((2, 0) \<mapsto> 2)\<rparr>)"
    by (simp add: get_unique_inode_def get_unique_id_def generator_new_def MAX_HOST_INO_def)
  from unique_inode_injective [OF 1 2] 1 2 show ?thesis by auto
qed

end
