(* ===== verification/Passthrough_Host.thy ===== *)
theory Passthrough_Host
  imports Passthrough_Inodes Server
begin

text \<open>
  The host below the passthrough file system. The kernel and the C library are not part of the
  sources: the system calls are the fields of the record \<open>host\<close>, functions of a host state
  \<open>'h\<close> that return an error number or a result and the host state after the call. On top of
  them stand the wrappers of the sources: \<^verbatim>\<open>passthrough/util.rs\<close> (opening and stat),
  \<^verbatim>\<open>passthrough/statx.rs\<close>, \<^verbatim>\<open>passthrough/file_handle.rs\<close> and \<^verbatim>\<open>passthrough/mount_fd.rs\<close> (the
  descriptors of the mounts that file handles are opened with).

  A \<^verbatim>\<open>File\<close> is its descriptor, and dropping it is the call \<open>h_close\<close>, whose result the sources
  ignore. The text of \<^verbatim>\<open>/proc/self/mountinfo\<close> is the list of its Unicode code points. The
  descriptions of mount errors and the set of mounts whose errors were logged only serve the
  log and are left out.
\<close>

unbundle bit_operations_syntax

section \<open>Flags of the system calls\<close>

definition O_RDONLY :: i32 where "O_RDONLY = 0"
definition O_WRONLY :: i32 where "O_WRONLY = 1"
definition O_RDWR :: i32 where "O_RDWR = 2"
definition O_ACCMODE :: i32 where "O_ACCMODE = 3"
definition O_CREAT :: i32 where "O_CREAT = 0x40"
definition O_EXCL :: i32 where "O_EXCL = 0x80"
definition O_APPEND :: i32 where "O_APPEND = 0x400"
definition O_NONBLOCK :: i32 where "O_NONBLOCK = 0x800"
definition O_DIRECT :: i32 where "O_DIRECT = 0x4000"
definition O_DIRECTORY :: i32 where "O_DIRECTORY = 0x10000"
definition O_NOFOLLOW :: i32 where "O_NOFOLLOW = 0x20000"
definition O_CLOEXEC :: i32 where "O_CLOEXEC = 0x80000"
definition O_PATH :: i32 where "O_PATH = 0x200000"
definition AT_FDCWD :: rawfd where "AT_FDCWD = - 100"
definition AT_REMOVEDIR :: i32 where "AT_REMOVEDIR = 0x200"
definition SEEK_SET :: i32 where "SEEK_SET = 0"
definition S_IFMT :: u32 where "S_IFMT = 0xF000"
definition S_IFREG :: u32 where "S_IFREG = 0x8000"
definition S_IFDIR :: u32 where "S_IFDIR = 0x4000"
definition UTIME_NOW :: i64 where "UTIME_NOW = 0x3fffffff"
definition UTIME_OMIT :: i64 where "UTIME_OMIT = 0x3ffffffe"
definition FALLOC_FL_KEEP_SIZE :: i32 where "FALLOC_FL_KEEP_SIZE = 1"
definition FALLOC_FL_PUNCH_HOLE :: i32 where "FALLOC_FL_PUNCH_HOLE = 2"
definition FALLOC_FL_COLLAPSE_RANGE :: i32 where "FALLOC_FL_COLLAPSE_RANGE = 8"
definition FALLOC_FL_ZERO_RANGE :: i32 where "FALLOC_FL_ZERO_RANGE = 16"
definition FALLOC_FL_INSERT_RANGE :: i32 where "FALLOC_FL_INSERT_RANGE = 32"
definition FALLOC_FL_UNSHARE_RANGE :: i32 where "FALLOC_FL_UNSHARE_RANGE = 64"
definition STATX_BASIC_STATS :: u32 where "STATX_BASIC_STATS = 0x7ff"
definition STATX_MNT_ID :: u32 where "STATX_MNT_ID = 0x1000"
definition PATH_MAX :: u64 where "PATH_MAX = 4096"
definition MAX_HANDLE_SIZE :: nat where "MAX_HANDLE_SIZE = 128"
abbreviation EOPNOTSUPP :: int where "EOPNOTSUPP \<equiv> 95"

section \<open>System calls\<close>

record statx_st =
  stx_mask :: u32
  stx_blksize :: u32
  stx_nlink :: u32
  stx_uid :: u32
  stx_gid :: u32
  stx_mode :: u16
  stx_ino :: u64
  stx_size :: u64
  stx_blocks :: u64
  stx_atime :: "i64 \<times> u32"
  stx_mtime :: "i64 \<times> u32"
  stx_ctime :: "i64 \<times> u32"
  stx_rdev_major :: u32
  stx_rdev_minor :: u32
  stx_dev_major :: u32
  stx_dev_minor :: u32
  stx_mnt_id :: u64

type_synonym timespec = "i64 \<times> i64"
type_synonym text_line = "nat list"
type_synonym ('h, 'a) sys = "'h \<Rightarrow> (int + 'a) \<times> 'h"

text \<open>
  \<open>h_name_to_handle\<close> takes the number of bytes of the buffer; on failure it also returns the
  \<^verbatim>\<open>handle_bytes\<close> the kernel stored, on success the type and bytes of the handle and the
  mount id. \<open>h_getxattr\<close> and \<open>h_listxattr\<close> return the number of bytes and the buffer. The two
  mount information fields are the opening of the file and the reading of its whole text.
\<close>

record 'h host =
  h_openat :: "rawfd \<Rightarrow> cname \<Rightarrow> i32 \<Rightarrow> u32 option \<Rightarrow> ('h, rawfd) sys"
  h_open :: "text_line \<Rightarrow> i32 \<Rightarrow> ('h, rawfd) sys"
  h_close :: "rawfd \<Rightarrow> ('h, unit) sys"
  h_dup :: "rawfd \<Rightarrow> ('h, rawfd) sys"
  h_statx :: "rawfd \<Rightarrow> cname \<Rightarrow> ('h, statx_st) sys"
  h_makedev :: "u32 \<Rightarrow> u32 \<Rightarrow> u64"
  h_fstatat :: "rawfd \<Rightarrow> cname \<Rightarrow> ('h, stat64) sys"
  h_fstatvfs :: "rawfd \<Rightarrow> ('h, statvfs64) sys"
  h_name_to_handle :: "rawfd \<Rightarrow> cname \<Rightarrow> u32 \<Rightarrow> 'h \<Rightarrow> ((int \<times> u32) + (i32 \<times> bytes \<times> i32)) \<times> 'h"
  h_open_by_handle :: "rawfd \<Rightarrow> i32 \<Rightarrow> bytes \<Rightarrow> i32 \<Rightarrow> ('h, rawfd) sys"
  h_mountinfo_open :: "('h, rawfd) sys"
  h_mountinfo_read :: "('h, text_line) op"
  h_umask :: "u32 \<Rightarrow> 'h \<Rightarrow> 'h"
  h_readlinkat :: "rawfd \<Rightarrow> cname \<Rightarrow> u64 \<Rightarrow> ('h, bytes) sys"
  h_lseek :: "rawfd \<Rightarrow> i64 \<Rightarrow> i32 \<Rightarrow> ('h, i64) sys"
  h_getdents :: "rawfd \<Rightarrow> u32 \<Rightarrow> ('h, bytes) sys"
  h_fcntl_setfl :: "rawfd \<Rightarrow> u32 \<Rightarrow> ('h, unit) sys"
  h_unlinkat :: "rawfd \<Rightarrow> cname \<Rightarrow> i32 \<Rightarrow> ('h, unit) sys"
  h_mkdirat :: "rawfd \<Rightarrow> cname \<Rightarrow> u32 \<Rightarrow> ('h, unit) sys"
  h_mknodat :: "rawfd \<Rightarrow> cname \<Rightarrow> u32 \<Rightarrow> u64 \<Rightarrow> ('h, unit) sys"
  h_symlinkat :: "cname \<Rightarrow> rawfd \<Rightarrow> cname \<Rightarrow> ('h, unit) sys"
  h_linkat :: "rawfd \<Rightarrow> rawfd \<Rightarrow> cname \<Rightarrow> ('h, unit) sys"
  h_renameat2 :: "rawfd \<Rightarrow> cname \<Rightarrow> rawfd \<Rightarrow> cname \<Rightarrow> u32 \<Rightarrow> ('h, unit) sys"
  h_fchmod :: "rawfd \<Rightarrow> u32 \<Rightarrow> ('h, unit) sys"
  h_fchmodat :: "rawfd \<Rightarrow> cname \<Rightarrow> u32 \<Rightarrow> ('h, unit) sys"
  h_fchownat :: "rawfd \<Rightarrow> u32 \<Rightarrow> u32 \<Rightarrow> ('h, unit) sys"
  h_ftruncate :: "rawfd \<Rightarrow> i64 \<Rightarrow> ('h, unit) sys"
  h_futimens :: "rawfd \<Rightarrow> timespec \<times> timespec \<Rightarrow> ('h, unit) sys"
  h_utimensat :: "rawfd \<Rightarrow> cname \<Rightarrow> timespec \<times> timespec \<Rightarrow> ('h, unit) sys"
  h_fsync :: "rawfd \<Rightarrow> ('h, unit) sys"
  h_fdatasync :: "rawfd \<Rightarrow> ('h, unit) sys"
  h_fallocate :: "rawfd \<Rightarrow> i32 \<Rightarrow> i64 \<Rightarrow> i64 \<Rightarrow> ('h, unit) sys"
  h_setxattr :: "cname \<Rightarrow> cname \<Rightarrow> bytes \<Rightarrow> i32 \<Rightarrow> ('h, unit) sys"
  h_getxattr :: "cname \<Rightarrow> cname \<Rightarrow> u32 \<Rightarrow> ('h, u64 \<times> bytes) sys"
  h_listxattr :: "cname \<Rightarrow> u32 \<Rightarrow> ('h, u64 \<times> bytes) sys"
  h_removexattr :: "cname \<Rightarrow> cname \<Rightarrow> ('h, unit) sys"
  h_setresuid :: "u32 \<Rightarrow> ('h, unit) sys"
  h_setresgid :: "u32 \<Rightarrow> ('h, unit) sys"
  h_has_cap_fsetid :: "('h, bool) sys"
  h_drop_cap_fsetid :: "('h, unit) sys"
  h_raise_cap_fsetid :: "('h, unit) sys"

fun sys_res :: "int + 'a \<Rightarrow> 'a res" where
  "sys_res (Inl e) = Err (Os e)"
| "sys_res (Inr x) = Ok x"

definition syscall :: "('h, 'a) sys \<Rightarrow> ('h, 'a) op" where
  "syscall f h = (case f h of (r, h') \<Rightarrow> (sys_res r, h'))"

definition close_file :: "'h host \<Rightarrow> rawfd \<Rightarrow> 'h \<Rightarrow> 'h" where
  "close_file H fd h = snd (h_close H fd h)"

text \<open>\<^verbatim>\<open>format!("{}", fd)\<close>.\<close>

fun dec_digits :: "nat \<Rightarrow> string" where
  "dec_digits n = (if n < 10 then [char_of (48 + n)] else dec_digits (n div 10) @ [char_of (48 + n mod 10)])"

declare dec_digits.simps [simp del]

definition fd_string :: "rawfd \<Rightarrow> cname" where
  "fd_string fd = (if fd < 0 then CHR ''-'' # dec_digits (nat (- fd)) else dec_digits (nat fd))"

section \<open>Wrappers\<close>

definition openat :: "'h host \<Rightarrow> rawfd \<Rightarrow> cname \<Rightarrow> i32 \<Rightarrow> u32 \<Rightarrow> ('h, rawfd) op" where
  "openat H dir_fd path flags mode =
     (if flags AND O_CREAT = O_CREAT then syscall (h_openat H dir_fd path flags (Some mode))
      else syscall (h_openat H dir_fd path flags None))"

definition reopen_fd_through_proc :: "'h host \<Rightarrow> rawfd \<Rightarrow> i32 \<Rightarrow> rawfd \<Rightarrow> ('h, rawfd) op" where
  "reopen_fd_through_proc H fd flags proc_self_fd =
     openat H proc_self_fd (fd_string fd) (flags AND NOT O_NOFOLLOW AND NOT O_CREAT) 0"

definition stat_fd :: "'h host \<Rightarrow> rawfd \<Rightarrow> cname option \<Rightarrow> ('h, stat64) op" where
  "stat_fd H dir path = syscall (h_fstatat H dir (case path of Some p \<Rightarrow> p | None \<Rightarrow> ''''))"

definition is_safe_inode :: "u32 \<Rightarrow> bool" where
  "is_safe_inode mode \<longleftrightarrow> mode AND S_IFMT = S_IFREG \<or> mode AND S_IFMT = S_IFDIR"

definition is_dir :: "u32 \<Rightarrow> bool" where
  "is_dir mode \<longleftrightarrow> mode AND S_IFMT = S_IFDIR"

section \<open>File handles\<close>

text \<open>\<^verbatim>\<open>CFileHandle::new\<close>: the wrapper refuses a handle longer than the maximum, and \<^verbatim>\<open>unwrap\<close> panics.\<close>

definition c_file_handle_new :: "nat \<Rightarrow> unit res" where
  "c_file_handle_new n = (if MAX_HANDLE_SIZE < n then Panic else Ok ())"

definition from_name_at :: "'h host \<Rightarrow> rawfd \<Rightarrow> cname \<Rightarrow> ('h, file_handle option) op" where
  "from_name_at H dir_fd path h =
     (case h_name_to_handle H dir_fd path 0 h of
        (Inr _, h) \<Rightarrow> (Err (Custom InvalidData), h)
      | (Inl (e, handle_bytes), h) \<Rightarrow>
          if e = EOVERFLOW then
            op_bind (c_file_handle_new (unat handle_bytes), h) (\<lambda>_ h.
              case h_name_to_handle H dir_fd path handle_bytes h of
                (Inl (e, _), h) \<Rightarrow> (Err (Os e), h)
              | (Inr (ty, bs, mount_id), h) \<Rightarrow>
                  (Ok (Some \<lparr>fh_mnt_id = scast mount_id, fh_type = ty, fh_bytes = bs\<rparr>), h))
          else if e = EOPNOTSUPP then (Ok None, h)
          else (Err (Os e), h))"

definition from_fd :: "'h host \<Rightarrow> rawfd \<Rightarrow> ('h, file_handle option) op" where
  "from_fd H fd = from_name_at H fd ''''"

definition openable_open :: "'h host \<Rightarrow> rawfd \<Rightarrow> file_handle \<Rightarrow> i32 \<Rightarrow> ('h, rawfd) op" where
  "openable_open H mount_fd fh flags = syscall (h_open_by_handle H mount_fd (fh_type fh) (fh_bytes fh) flags)"

section \<open>Extended stat\<close>

definition statx_stat64 :: "'h host \<Rightarrow> statx_st \<Rightarrow> stat64 option" where
  "statx_stat64 H stx =
     (if stx_mask stx AND STATX_BASIC_STATS \<noteq> 0 then
        Some (stat64_zeroed
          \<lparr>st_dev := h_makedev H (stx_dev_major stx) (stx_dev_minor stx),
           st_ino := stx_ino stx, st_mode := ucast (stx_mode stx), st_nlink := ucast (stx_nlink stx),
           st_uid := stx_uid stx, st_gid := stx_gid stx,
           st_rdev := h_makedev H (stx_rdev_major stx) (stx_rdev_minor stx),
           st_size := stx_size stx, st_blksize := ucast (stx_blksize stx), st_blocks := stx_blocks stx,
           st_atime := fst (stx_atime stx), st_atime_nsec := ucast (snd (stx_atime stx)),
           st_mtime := fst (stx_mtime stx), st_mtime_nsec := ucast (snd (stx_mtime stx)),
           st_ctime := fst (stx_ctime stx), st_ctime_nsec := ucast (snd (stx_ctime stx))\<rparr>)
      else None)"

definition statx_mount_id :: "statx_st \<Rightarrow> u64 option" where
  "statx_mount_id stx = (if stx_mask stx AND STATX_MNT_ID \<noteq> 0 then Some (stx_mnt_id stx) else None)"

definition get_mount_id :: "'h host \<Rightarrow> rawfd \<Rightarrow> cname \<Rightarrow> 'h \<Rightarrow> u64 option res \<times> 'h" where
  "get_mount_id H dir path h =
     (case from_name_at H dir path h of
        (Ok (Some v), h) \<Rightarrow> (Ok (Some (fh_mnt_id v)), h)
      | (Panic, h) \<Rightarrow> (Panic, h)
      | (_, h) \<Rightarrow> (Ok None, h))"

definition statx :: "'h host \<Rightarrow> rawfd \<Rightarrow> cname option \<Rightarrow> ('h, stat_ext) op" where
  "statx H dir p h =
     (let path = (case p of Some p \<Rightarrow> p | None \<Rightarrow> '''') in
      op_bind (syscall (h_statx H dir path) h) (\<lambda>stx h.
      op_bind (case statx_mount_id stx of Some m \<Rightarrow> (Ok (Some m), h) | None \<Rightarrow> get_mount_id H dir path h) (\<lambda>m h.
        case statx_stat64 H stx of
          Some st \<Rightarrow> (Ok \<lparr>sx_st = st, sx_mnt_id = (case m of Some m \<Rightarrow> m | None \<Rightarrow> 0)\<rparr>, h)
        | None \<Rightarrow> (Err (Os ENOSYS), h))))"

section \<open>Mount descriptors\<close>

text \<open>
  The map from a mount id to its \<^verbatim>\<open>MountFd\<close>: the descriptor with the number of strong
  references. Without interference an entry is there exactly as long as it is referenced, so
  that upgrading the weak pointer of an entry succeeds.
\<close>

type_synonym mount_map = "u64 \<rightharpoonup> rawfd \<times> nat"

fun split_by :: "('a \<Rightarrow> bool) \<Rightarrow> 'a list \<Rightarrow> 'a list list" where
  "split_by p [] = [[]]"
| "split_by p (x # xs) =
     (if p x then [] # split_by p xs
      else case split_by p xs of [] \<Rightarrow> [[x]] | y # ys \<Rightarrow> (x # y) # ys)"

definition char_is_whitespace :: "nat \<Rightarrow> bool" where
  "char_is_whitespace c \<longleftrightarrow>
     9 \<le> c \<and> c \<le> 13 \<or> c = 32 \<or> c = 0x85 \<or> c = 0xA0 \<or> c = 0x1680 \<or> 0x2000 \<le> c \<and> c \<le> 0x200A \<or>
     c = 0x2028 \<or> c = 0x2029 \<or> c = 0x202F \<or> c = 0x205F \<or> c = 0x3000"

text \<open>\<^verbatim>\<open>str::parse::<u64>\<close>: an optional plus sign, then one or more decimal digits, below \<open>2\<^sup>6\<^sup>4\<close>.\<close>

definition parse_u64 :: "text_line \<Rightarrow> u64 option" where
  "parse_u64 cs =
     (let ds = (case cs of c # rest \<Rightarrow> if c = 43 then rest else cs | [] \<Rightarrow> []);
          v = foldl (\<lambda>a d. 10 * a + (d - 48)) 0 ds
      in if ds \<noteq> [] \<and> (\<forall>d\<in>set ds. 48 \<le> d \<and> d \<le> 57) \<and> v < 2 ^ 64 then Some (of_nat v) else None)"

fun find_map :: "('a \<Rightarrow> 'b option) \<Rightarrow> 'a list \<Rightarrow> 'b option" where
  "find_map f [] = None"
| "find_map f (x # xs) = (case f x of Some y \<Rightarrow> Some y | None \<Rightarrow> find_map f xs)"

definition mount_line_path :: "u64 \<Rightarrow> text_line \<Rightarrow> text_line option" where
  "mount_line_path mount_id line =
     (let columns = split_by char_is_whitespace line in
      if parse_u64 (hd columns) \<noteq> Some mount_id then None
      else if 4 < length columns then Some (columns ! 4) else None)"

definition strip_mount_prefix :: "text_line option \<Rightarrow> text_line \<Rightarrow> text_line" where
  "strip_mount_prefix mount_prefix p =
     (case mount_prefix of
        None \<Rightarrow> p
      | Some prefix \<Rightarrow>
          if starts_with p prefix \<and> drop (length prefix) p \<noteq> [] then drop (length prefix) p else [47])"

definition get_mount_root :: "'h host \<Rightarrow> text_line option \<Rightarrow> u64 \<Rightarrow> ('h, text_line) op" where
  "get_mount_root H mount_prefix mount_id h =
     op_bind (h_mountinfo_read H h) (\<lambda>mountinfo h.
       case find_map (mount_line_path mount_id) (split_on 10 mountinfo) of
         Some p \<Rightarrow> (Ok (strip_mount_prefix mount_prefix p), h)
       | None \<Rightarrow> (Err (Os EINVAL), h))"

definition validate_mount_id :: "'h host \<Rightarrow> u64 \<Rightarrow> rawfd \<Rightarrow> ('h, u32) op" where
  "validate_mount_id H mount_id mount_point_fd h =
     op_bind (statx H mount_point_fd None h) (\<lambda>stx h.
       if sx_mnt_id stx \<noteq> mount_id then (Err (Os EIO), h) else (Ok (st_mode (sx_st stx)), h))"

text \<open>Opening the mount point of a mount that has no entry.\<close>

definition open_mount_fd :: "'h host \<Rightarrow> text_line option \<Rightarrow> rawfd \<Rightarrow> u64 \<Rightarrow> ('h, rawfd) op" where
  "open_mount_fd H mount_prefix proc_self_fd mount_id h =
     op_bind (get_mount_root H mount_prefix mount_id h) (\<lambda>mount_point h.
       if 0 \<in> set mount_point then (Err (Custom InvalidInput), h)
       else
         op_bind (syscall (h_open H mount_point O_PATH) h) (\<lambda>mount_point_fd h.
         op_bind (validate_mount_id H mount_id mount_point_fd h) (\<lambda>mode h.
           if \<not> is_safe_inode (mode AND S_IFMT) then (Err (Os EIO), h)
           else reopen_fd_through_proc H mount_point_fd (O_RDONLY OR O_NOFOLLOW OR O_CLOEXEC) proc_self_fd h)))"

definition mount_get ::
  "'h host \<Rightarrow> text_line option \<Rightarrow> rawfd \<Rightarrow> u64 \<Rightarrow> (mount_map \<times> 'h, rawfd) op" where
  "mount_get H mount_prefix proc_self_fd mount_id = (\<lambda>(m, h).
     case m mount_id of
       Some (fd, n) \<Rightarrow> (Ok fd, (m(mount_id \<mapsto> (fd, n + 1)), h))
     | None \<Rightarrow>
         (case open_mount_fd H mount_prefix proc_self_fd mount_id h of
            (Ok file, h) \<Rightarrow> (Ok file, (m(mount_id \<mapsto> (file, 1)), h))
          | (Err e, h) \<Rightarrow> (Err e, (m, h))
          | (Panic, h) \<Rightarrow> (Panic, (m, h))))"

text \<open>\<^verbatim>\<open>Drop for MountFd\<close> when the last reference goes: the entry leaves the map, the file is closed.\<close>

definition mount_put :: "'h host \<Rightarrow> u64 \<Rightarrow> mount_map \<times> 'h \<Rightarrow> mount_map \<times> 'h" where
  "mount_put H mount_id = (\<lambda>(m, h).
     case m mount_id of
       Some (fd, n) \<Rightarrow>
         if n \<le> 1 then (m(mount_id := None), close_file H fd h) else (m(mount_id \<mapsto> (fd, n - 1)), h)
     | None \<Rightarrow> (m, h))"

end
