(* ===== verification/Passthrough.thy ===== *)
theory Passthrough
  imports Passthrough_Host
begin

text \<open>
  The passthrough file system: \<^verbatim>\<open>PassthroughFs\<close> of \<^verbatim>\<open>passthrough/mod.rs\<close> with its \<^verbatim>\<open>FileSystem\<close>
  methods of \<^verbatim>\<open>passthrough/sync_io.rs\<close>, over the tables of \<open>Passthrough_Inodes\<close> and the host
  of \<open>Passthrough_Host\<close>. The state \<open>'h pt\<close> holds the fields of the structure and the host state;
  every method is a function of the host's system calls.

  A guard object of the sources (an owned \<^verbatim>\<open>File\<close>, changed credentials, a taken capability) is
  a bracket around the rest of the method: what the guard's \<^verbatim>\<open>Drop\<close> does happens on every way
  out, in the order in which the sources drop their locals. The objects a caller lends to
  \<^verbatim>\<open>read\<close>, \<^verbatim>\<open>write\<close> and the mapping methods are values of type \<open>'c\<close> with the methods of the
  record \<open>lent_ops\<close>.
\<close>

section \<open>Configuration\<close>

datatype cache_policy = CacheNever | CacheMetadata | CacheAuto | CacheAlways

definition cache_policy_from_str :: "string \<Rightarrow> (string, cache_policy) xresult" where
  "cache_policy_from_str s =
     (if s \<in> {''never'', ''Never'', ''NEVER'', ''none'', ''None'', ''NONE''} then XOk CacheNever
      else if s = ''metadata'' then XOk CacheMetadata
      else if s \<in> {''auto'', ''Auto'', ''AUTO''} then XOk CacheAuto
      else if s \<in> {''always'', ''Always'', ''ALWAYS''} then XOk CacheAlways
      else XErr ''invalid cache policy'')"

record pt_config =
  cfg_attr_timeout :: duration
  cfg_entry_timeout :: duration
  cfg_dir_attr_timeout :: "duration option"
  cfg_dir_entry_timeout :: "duration option"
  cfg_cache_policy :: cache_policy
  cfg_writeback :: bool
  cfg_root_dir :: string
  cfg_xattr :: bool
  cfg_do_import :: bool
  cfg_no_open :: bool
  cfg_no_opendir :: bool
  cfg_killpriv_v2 :: bool
  cfg_inode_file_handles :: bool
  cfg_no_readdir :: bool
  cfg_seal_size :: bool
  cfg_enable_mntid :: bool
  cfg_dax_file_size :: "u64 option"
  cfg_use_host_ino :: bool
  cfg_allow_direct_io :: bool

definition pt_config_default :: pt_config where
  "pt_config_default =
     \<lparr>cfg_attr_timeout = duration_from_secs 5, cfg_entry_timeout = duration_from_secs 5,
      cfg_dir_attr_timeout = None, cfg_dir_entry_timeout = None, cfg_cache_policy = CacheAuto,
      cfg_writeback = False, cfg_root_dir = ''/'', cfg_xattr = False, cfg_do_import = True,
      cfg_no_open = False, cfg_no_opendir = False, cfg_killpriv_v2 = False,
      cfg_inode_file_handles = False, cfg_no_readdir = False, cfg_seal_size = False,
      cfg_enable_mntid = False, cfg_dax_file_size = None, cfg_use_host_ino = False,
      cfg_allow_direct_io = True\<rparr>"

section \<open>State\<close>

record 'h pt =
  pt_store :: inode_store
  pt_next_inode :: u64
  pt_handles :: handle_map
  pt_next_handle :: u64
  pt_gen :: inode_generator
  pt_mounts :: mount_map
  pt_proc_self_fd :: rawfd
  pt_writeback :: bool
  pt_no_open :: bool
  pt_no_opendir :: bool
  pt_killpriv_v2 :: bool
  pt_no_readdir :: bool
  pt_seal_size :: bool
  pt_perfile_dax :: bool
  pt_dir_entry_timeout :: duration
  pt_dir_attr_timeout :: duration
  pt_cfg :: pt_config
  pt_host :: 'h

text \<open>An operation of the host, run on the host part of the state.\<close>

definition host_op :: "('h, 'a) op \<Rightarrow> ('h pt, 'a) op" where
  "host_op f s = (case f (pt_host s) of (r, h) \<Rightarrow> (r, s\<lparr>pt_host := h\<rparr>))"

definition close_fd :: "'h host \<Rightarrow> rawfd \<Rightarrow> 'h pt \<Rightarrow> 'h pt" where
  "close_fd H fd s = s\<lparr>pt_host := close_file H fd (pt_host s)\<rparr>"

text \<open>\<open>g\<close> runs when \<open>m\<close> is left, with whatever result.\<close>

definition finally_op :: "('s \<Rightarrow> 's) \<Rightarrow> ('s, 'a) op \<Rightarrow> ('s, 'a) op" where
  "finally_op g m s = (case m s of (r, s') \<Rightarrow> (r, g s'))"

text \<open>\<open>g\<close> runs when \<open>m\<close> is left early: what it guards has moved into the result otherwise.\<close>

definition unless_ok :: "('s \<Rightarrow> 's) \<Rightarrow> ('s, 'a) op \<Rightarrow> ('s, 'a) op" where
  "unless_ok g m s = (case m s of (Ok x, s') \<Rightarrow> (Ok x, s') | (r, s') \<Rightarrow> (r, g s'))"

definition inode_get :: "u64 \<Rightarrow> ('h pt, inode_data) op" where
  "inode_get i s = (map_get i (pt_store s), s)"

definition handles_get :: "u64 \<Rightarrow> u64 \<Rightarrow> ('h pt, handle_data) op" where
  "handles_get h i s = (handle_get h i (pt_handles s), s)"

section \<open>The file of an inode\<close>

text \<open>
  \<^verbatim>\<open>get_file\<close>: the descriptor of the inode itself, or a descriptor opened from the file handle,
  which is closed when its user is done.
\<close>

definition with_file :: "'h host \<Rightarrow> inode_data \<Rightarrow> (rawfd \<Rightarrow> ('h pt, 'a) op) \<Rightarrow> ('h pt, 'a) op" where
  "with_file H d body s =
     (case id_handle d of
        IFile f \<Rightarrow> body f s
      | IHandle fh m \<Rightarrow>
          op_bind (host_op (openable_open H m fh O_PATH) s) (\<lambda>f. finally_op (close_fd H f) (body f)))"

definition data_open_file :: "'h host \<Rightarrow> inode_data \<Rightarrow> i32 \<Rightarrow> ('h pt, rawfd) op" where
  "data_open_file H d flags s =
     (case id_handle d of
        IFile f \<Rightarrow> host_op (reopen_fd_through_proc H f flags (pt_proc_self_fd s)) s
      | IHandle fh m \<Rightarrow> host_op (openable_open H m fh flags) s)"

definition data_stat :: "'h host \<Rightarrow> inode_data \<Rightarrow> ('h pt, stat64) op" where
  "data_stat H d = with_file H d (\<lambda>f. host_op (stat_fd H f None))"

text \<open>Dropping the handle of an inode closes its descriptor or releases its mount.\<close>

definition drop_inode_handle :: "'h host \<Rightarrow> inode_handle \<Rightarrow> 'h pt \<Rightarrow> 'h pt" where
  "drop_inode_handle H ih s =
     (case ih of
        IFile f \<Rightarrow> close_fd H f s
      | IHandle fh m \<Rightarrow>
          (case mount_put H (fh_mnt_id fh) (pt_mounts s, pt_host s) of
             (ms, h) \<Rightarrow> s\<lparr>pt_mounts := ms, pt_host := h\<rparr>))"

definition drop_inode_data :: "'h host \<Rightarrow> inode_data option \<Rightarrow> 'h pt \<Rightarrow> 'h pt" where
  "drop_inode_data H d s = (case d of Some d \<Rightarrow> drop_inode_handle H (id_handle d) s | None \<Rightarrow> s)"

section \<open>Construction and lookup\<close>

definition open_file_restricted :: "'h host \<Rightarrow> rawfd \<Rightarrow> cname \<Rightarrow> i32 \<Rightarrow> u32 \<Rightarrow> ('h pt, rawfd) op" where
  "open_file_restricted H dir pathname flags mode =
     host_op (openat H dir pathname (O_NOFOLLOW OR O_CLOEXEC OR flags) mode)"

definition open_file_and_handle ::
  "'h host \<Rightarrow> rawfd \<Rightarrow> cname \<Rightarrow> ('h pt, rawfd \<times> file_handle option \<times> stat_ext) op" where
  "open_file_and_handle H dir name s =
     op_bind (open_file_restricted H dir name O_PATH 0 s) (\<lambda>path_file. unless_ok (close_fd H path_file) (\<lambda>s.
       op_bind (host_op (statx H path_file None) s) (\<lambda>st s.
       op_bind (if cfg_inode_file_handles (pt_cfg s) then host_op (from_fd H path_file) s else (Ok None, s)) (\<lambda>handle s.
         (Ok (path_file, handle, st), s)))))"

definition to_openable_handle :: "'h host \<Rightarrow> file_handle \<Rightarrow> ('h pt, rawfd) op" where
  "to_openable_handle H fh s =
     (case mount_get H None (pt_proc_self_fd s) (fh_mnt_id fh) (pt_mounts s, pt_host s) of
        (r, (ms, h)) \<Rightarrow> (r, s\<lparr>pt_mounts := ms, pt_host := h\<rparr>))"

text \<open>\<^verbatim>\<open>InodeMap::insert\<close>; the entry it replaces is taken.\<close>

definition inode_insert :: "'h host \<Rightarrow> inode_data \<Rightarrow> 'h pt \<Rightarrow> 'h pt" where
  "inode_insert H d s =
     drop_inode_data H (store_get (id_inode d) (pt_store s)) (s\<lparr>pt_store := store_insert d (pt_store s)\<rparr>)"

text \<open>\<^verbatim>\<open>new\<close> drops the options that conflict with the cache policy.\<close>

definition new_config :: "pt_config \<Rightarrow> pt_config" where
  "new_config cfg =
     (let cfg = (if cfg_no_open cfg \<and> cfg_cache_policy cfg \<noteq> CacheAlways then cfg\<lparr>cfg_no_open := False\<rparr> else cfg)
      in if cfg_writeback cfg \<and> cfg_cache_policy cfg = CacheNever then cfg\<lparr>cfg_writeback := False\<rparr> else cfg)"

definition new_state :: "pt_config \<Rightarrow> rawfd \<Rightarrow> 'h \<Rightarrow> 'h pt" where
  "new_state cfg proc_self_fd h =
     \<lparr>pt_store = inode_store_default, pt_next_inode = ROOT_ID + 1, pt_handles = Map.empty,
      pt_next_handle = 1, pt_gen = generator_new, pt_mounts = Map.empty,
      pt_proc_self_fd = proc_self_fd, pt_writeback = False, pt_no_open = False,
      pt_no_opendir = False, pt_killpriv_v2 = False, pt_no_readdir = cfg_no_readdir cfg,
      pt_seal_size = cfg_seal_size cfg, pt_perfile_dax = False,
      pt_dir_entry_timeout =
        (case cfg_dir_entry_timeout cfg of Some e \<Rightarrow> e | None \<Rightarrow> cfg_entry_timeout cfg),
      pt_dir_attr_timeout =
        (case cfg_dir_attr_timeout cfg of Some a \<Rightarrow> a | None \<Rightarrow> cfg_attr_timeout cfg),
      pt_cfg = cfg, pt_host = h\<rparr>"

definition pt_new :: "'h host \<Rightarrow> pt_config \<Rightarrow> ('h, 'h pt) op" where
  "pt_new H cfg h =
     op_bind (openat H AT_FDCWD ''/proc/self/fd'' (O_PATH OR O_NOFOLLOW OR O_CLOEXEC) 0 h) (\<lambda>proc_self_fd h.
     op_bind (unless_ok (close_file H proc_self_fd) (syscall (h_mountinfo_open H)) h) (\<lambda>_ h.
       (Ok (new_state (new_config cfg) proc_self_fd h), h)))"

text \<open>
  The handle of a newly found file: the path descriptor itself, or the file handle with the
  descriptor of its mount, in which case the path descriptor is closed at the end.
\<close>

definition with_new_handle ::
  "'h host \<Rightarrow> rawfd \<Rightarrow> file_handle option \<Rightarrow> (inode_handle \<Rightarrow> ('h pt, 'a) op) \<Rightarrow> ('h pt, 'a) op" where
  "with_new_handle H path_fd handle_opt body =
     (case handle_opt of
        None \<Rightarrow> body (IFile path_fd)
      | Some h \<Rightarrow> finally_op (close_fd H path_fd) (\<lambda>s.
          op_bind (to_openable_handle H h s) (\<lambda>m. body (IHandle h m))))"

definition pt_import :: "'h host \<Rightarrow> ('h pt, unit) op" where
  "pt_import H s =
     (if CHR 0x00 \<in> set (cfg_root_dir (pt_cfg s)) then (Panic, s)
      else
        op_bind (open_file_and_handle H AT_FDCWD (cfg_root_dir (pt_cfg s)) s) (\<lambda>(path_fd, handle_opt, st).
          with_new_handle H path_fd handle_opt (\<lambda>handle s.
            (Ok (), inode_insert H
               \<lparr>id_inode = ROOT_ID, id_handle = handle, id_id = inode_id_from_stat st, id_refcount = 2,
                id_mode = st_mode (sx_st st)\<rparr>
               (s\<lparr>pt_host := h_umask H 0 (pt_host s)\<rparr>)))))"

definition keep_fds :: "'h pt \<Rightarrow> rawfd list" where
  "keep_fds s = [pt_proc_self_fd s]"

definition readlinkat_proc_file :: "'h host \<Rightarrow> u64 \<Rightarrow> ('h pt, bytes) op" where
  "readlinkat_proc_file H inode s =
     op_bind (inode_get inode s) (\<lambda>data. with_file H data (\<lambda>file s.
       host_op (syscall (h_readlinkat H (pt_proc_self_fd s) (fd_string file) PATH_MAX)) s))"

definition create_file_excl :: "'h host \<Rightarrow> rawfd \<Rightarrow> cname \<Rightarrow> i32 \<Rightarrow> u32 \<Rightarrow> ('h pt, rawfd option) op" where
  "create_file_excl H dir pathname flags mode s =
     (case host_op (openat H dir pathname (flags OR O_CREAT OR O_EXCL) mode) s of
        (Ok file, s) \<Rightarrow> (Ok (Some file), s)
      | (Err err, s) \<Rightarrow>
          if err = Os EEXIST then (if flags AND O_EXCL \<noteq> 0 then (Err err, s) else (Ok None, s))
          else (Err err, s)
      | (Panic, s) \<Rightarrow> (Panic, s))"

definition allocate_inode :: "inode_id \<Rightarrow> file_handle option \<Rightarrow> ('h pt, u64) op" where
  "allocate_inode k handle_opt s =
     (let known = get_inode_locked k handle_opt (pt_store s);
          unique = (\<lambda>s. case get_unique_inode k (pt_gen s) of (r, g) \<Rightarrow> (r, s\<lparr>pt_gen := g\<rparr>))
      in if \<not> cfg_use_host_ino (pt_cfg s) then
           (case known of
              Some i \<Rightarrow> (Ok i, s)
            | None \<Rightarrow> (Ok (pt_next_inode s), s\<lparr>pt_next_inode := pt_next_inode s + 1\<rparr>))
         else if MAX_HOST_INO < iid_ino k then (case known of Some i \<Rightarrow> (Ok i, s) | None \<Rightarrow> unique s)
         else unique s)"

text \<open>
  The part of \<^verbatim>\<open>do_lookup\<close> under the write lock of the inode map: the search is repeated, as
  another thread may have added the file, and the new inode is inserted.
\<close>

definition lookup_locked ::
  "'h host \<Rightarrow> inode_id \<Rightarrow> file_handle option \<Rightarrow> u32 \<Rightarrow> inode_handle \<Rightarrow> ('h pt, u64) op" where
  "lookup_locked H k handle_opt mode handle s =
     (case get_alt_locked k handle_opt (pt_store s) of
        Some data \<Rightarrow>
          (Ok (id_inode data),
           drop_inode_handle H handle
             (s\<lparr>pt_store := store_set_ref (id_inode data) (id_refcount data + 1) (pt_store s)\<rparr>))
      | None \<Rightarrow>
          unless_ok (drop_inode_handle H handle) (\<lambda>s.
            op_bind (allocate_inode k handle_opt s) (\<lambda>inode s.
              if VFS_MAX_INO < inode then (Err (Custom Other), s)
              else
                (Ok inode, inode_insert H
                   \<lparr>id_inode = inode, id_handle = handle, id_id = k, id_refcount = 1, id_mode = mode\<rparr> s))) s)"

text \<open>
  The part of \<^verbatim>\<open>do_lookup\<close> that finds the inode of the opened file and takes a reference to it.
  The search loop retries while the reference count of the entry it finds is zero; nothing else
  runs here, so that it would retry forever, which is the result \<open>Panic\<close>.
\<close>

definition lookup_inode ::
  "'h host \<Rightarrow> rawfd \<Rightarrow> file_handle option \<Rightarrow> stat_ext \<Rightarrow> ('h pt, u64) op" where
  "lookup_inode H path_fd handle_opt st s =
     (let k = inode_id_from_stat st in
      case get_alt_locked k handle_opt (pt_store s) of
        Some data \<Rightarrow>
          finally_op (close_fd H path_fd) (\<lambda>s.
            if id_refcount data = 0 then (Panic, s)
            else
              (Ok (id_inode data),
               s\<lparr>pt_store := store_set_ref (id_inode data) (saturating_add (id_refcount data) 1) (pt_store s)\<rparr>)) s
      | None \<Rightarrow> with_new_handle H path_fd handle_opt (lookup_locked H k handle_opt (st_mode (sx_st st))) s)"

definition FUSE_ATTR_DAX :: u32 where "FUSE_ATTR_DAX = 2"

definition lookup_entry :: "u64 \<Rightarrow> stat_ext \<Rightarrow> 'h pt \<Rightarrow> entry" where
  "lookup_entry inode st s =
     (let (entry_timeout, attr_timeout) =
            (if is_dir (st_mode (sx_st st)) then (pt_dir_entry_timeout s, pt_dir_attr_timeout s)
             else (cfg_entry_timeout (pt_cfg s), cfg_attr_timeout (pt_cfg s)));
          attr_flags =
            (case cfg_dax_file_size (pt_cfg s) of
               Some dax_file_size \<Rightarrow>
                 if pt_perfile_dax s \<and> 0 <=s st_size (sx_st st) \<and> dax_file_size \<le> st_size (sx_st st)
                 then FUSE_ATTR_DAX else 0
             | None \<Rightarrow> 0)
      in \<lparr>e_inode = inode, e_generation = 0, e_attr = sx_st st, e_attr_flags = attr_flags,
          e_attr_timeout = attr_timeout, e_entry_timeout = entry_timeout\<rparr>)"

definition do_lookup :: "'h host \<Rightarrow> u64 \<Rightarrow> cname \<Rightarrow> ('h pt, entry) op" where
  "do_lookup H parent n s =
     (let name = (if parent = ROOT_ID \<and> starts_with (to_bytes_with_nul n) PARENT_DIR_CSTR then ''.'' else n) in
      op_bind (inode_get parent s) (\<lambda>dir. with_file H dir (\<lambda>dir_file s.
        op_bind (open_file_and_handle H dir_file name s) (\<lambda>(path_fd, handle_opt, st) s.
        op_bind (lookup_inode H path_fd handle_opt st s) (\<lambda>inode s.
          (Ok (lookup_entry inode st s), s))))))"

definition pt_forget_one :: "'h host \<Rightarrow> u64 \<Rightarrow> u64 \<Rightarrow> 'h pt \<Rightarrow> 'h pt" where
  "pt_forget_one H inode count s =
     (if inode = ROOT_ID then s
      else
        case store_get inode (pt_store s) of
          None \<Rightarrow> s
        | Some data \<Rightarrow>
            let new = saturating_sub (id_refcount data) count;
                st = store_set_ref inode new (pt_store s)
            in if new = 0 then
                 let keep_mapping = (\<not> cfg_use_host_ino (pt_cfg s) \<or> MAX_HOST_INO < iid_ino (id_id data));
                     (d, st) = store_remove inode keep_mapping st
                 in drop_inode_data H d (s\<lparr>pt_store := st\<rparr>)
               else s\<lparr>pt_store := st\<rparr>)"

text \<open>\<^verbatim>\<open>do_release\<close>: a removed handle's file is closed.\<close>

definition do_release :: "'h host \<Rightarrow> u64 \<Rightarrow> u64 \<Rightarrow> ('h pt, unit) op" where
  "do_release H inode handle s =
     (case handle_release handle inode (pt_handles s) of
        (Ok u, hs) \<Rightarrow>
          (Ok u, (case pt_handles s handle of Some d \<Rightarrow> close_fd H (hd_file d) | None \<Rightarrow> id)
                   (s\<lparr>pt_handles := hs\<rparr>))
      | (r, hs) \<Rightarrow> (r, s\<lparr>pt_handles := hs\<rparr>))"

definition pt_validate :: "cname \<Rightarrow> ('h pt, unit) op" where
  "pt_validate name s =
     (if \<not> cfg_do_import (pt_cfg s) then (Ok (), s) else (validate_path_component name, s))"

definition seal_size_check :: "u32 \<Rightarrow> u64 \<Rightarrow> u64 \<Rightarrow> u64 \<Rightarrow> i32 \<Rightarrow> unit res" where
  "seal_size_check opcode file_size offset sz mode =
     (if checked_add offset sz = None then Err (Os EINVAL)
      else if opcode = OpWrite then (if file_size < sz + offset then Err (Os EPERM) else Ok ())
      else if opcode = OpFallocate then
        (let op = mode AND NOT (FALLOC_FL_KEEP_SIZE OR FALLOC_FL_UNSHARE_RANGE) in
         if op = 0 \<or> op = FALLOC_FL_PUNCH_HOLE \<or> op = FALLOC_FL_ZERO_RANGE then
           (if file_size < sz + offset then Err (Os EPERM) else Ok ())
         else if op = FALLOC_FL_COLLAPSE_RANGE \<or> op = FALLOC_FL_INSERT_RANGE then Err (Os EPERM)
         else Err (Os EINVAL))
      else Err (Os ENOSYS))"

definition get_writeback_open_flags :: "bool \<Rightarrow> i32 \<Rightarrow> i32" where
  "get_writeback_open_flags writeback flags =
     (let new_flags = (if writeback \<and> flags AND O_ACCMODE = O_WRONLY
                       then (flags AND NOT O_ACCMODE) OR O_RDWR else flags)
      in if writeback \<and> flags AND O_APPEND \<noteq> 0 then new_flags AND NOT O_APPEND else new_flags)"

section \<open>Credentials and capabilities\<close>

definition set_cred :: "(u32 \<Rightarrow> ('h, unit) sys) \<Rightarrow> u32 \<Rightarrow> ('h pt, unit) op" where
  "set_cred call val s = (if val = 0 then (Ok (), s) else host_op (syscall (call val)) s)"

text \<open>Dropping the guard; the result is the error number a failure leaves behind.\<close>

definition drop_cred :: "(u32 \<Rightarrow> ('h, unit) sys) \<Rightarrow> u32 \<Rightarrow> 'h pt \<Rightarrow> int option \<times> 'h pt" where
  "drop_cred call val s =
     (if val = 0 then (None, s)
      else
        case call 0 (pt_host s) of
          (Inl e, h) \<Rightarrow> (Some e, s\<lparr>pt_host := h\<rparr>)
        | (Inr _, h) \<Rightarrow> (None, s\<lparr>pt_host := h\<rparr>))"

definition set_creds :: "'h host \<Rightarrow> u32 \<Rightarrow> u32 \<Rightarrow> ('h pt, unit) op" where
  "set_creds H uid gid s =
     op_bind (set_cred (h_setresgid H) gid s) (\<lambda>_.
       unless_ok (\<lambda>s. snd (drop_cred (h_setresgid H) gid s)) (set_cred (h_setresuid H) uid))"

definition drop_creds :: "'h host \<Rightarrow> u32 \<Rightarrow> u32 \<Rightarrow> 'h pt \<Rightarrow> int option \<times> 'h pt" where
  "drop_creds H uid gid s =
     (let (e1, s) = drop_cred (h_setresgid H) gid s; (e2, s) = drop_cred (h_setresuid H) uid s
      in (case e2 of Some e \<Rightarrow> Some e | None \<Rightarrow> e1, s))"

definition with_creds :: "'h host \<Rightarrow> u32 \<Rightarrow> u32 \<Rightarrow> ('h pt, 'a) op \<Rightarrow> ('h pt, 'a) op" where
  "with_creds H uid gid body s =
     op_bind (set_creds H uid gid s) (\<lambda>_. finally_op (\<lambda>s. snd (drop_creds H uid gid s)) body)"

text \<open>
  A system call made under changed credentials whose error number is read after they were
  changed back: a failure to change them back replaces it.
\<close>

definition creds_syscall ::
  "'h host \<Rightarrow> u32 \<Rightarrow> u32 \<Rightarrow> ('h pt, int + 'a) op \<Rightarrow> ('h pt, 'a) op" where
  "creds_syscall H uid gid body s =
     op_bind (set_creds H uid gid s) (\<lambda>_ s.
       let (r, s) = body s; (e, s) = drop_creds H uid gid s
       in op_bind (r, s) (\<lambda>x s. (sys_res (case (x, e) of (Inl _, Some e) \<Rightarrow> Inl e | _ \<Rightarrow> x), s)))"

definition raw_syscall :: "('h, 'a) sys \<Rightarrow> ('h pt, int + 'a) op" where
  "raw_syscall f s = (case f (pt_host s) of (r, h) \<Rightarrow> (Ok r, s\<lparr>pt_host := h\<rparr>))"

definition drop_cap_fsetid :: "'h host \<Rightarrow> ('h pt, bool) op" where
  "drop_cap_fsetid H s =
     (case host_op (syscall (h_has_cap_fsetid H)) s of
        (Ok has, s) \<Rightarrow>
          if \<not> has then (Ok False, s)
          else
            (case host_op (syscall (h_drop_cap_fsetid H)) s of
               (Ok _, s) \<Rightarrow> (Ok True, s)
             | (Err _, s) \<Rightarrow> (Err (Custom PermissionDenied), s)
             | (Panic, s) \<Rightarrow> (Panic, s))
      | (Err _, s) \<Rightarrow> (Err (Custom PermissionDenied), s)
      | (Panic, s) \<Rightarrow> (Panic, s))"

definition raise_cap :: "'h host \<Rightarrow> bool \<Rightarrow> 'h pt \<Rightarrow> 'h pt" where
  "raise_cap H taken s = (if taken then snd (host_op (syscall (h_raise_cap_fsetid H)) s) else s)"

definition with_killpriv :: "'h host \<Rightarrow> bool \<Rightarrow> ('h pt, 'a) op \<Rightarrow> ('h pt, 'a) op" where
  "with_killpriv H requested body s =
     op_bind (if requested then drop_cap_fsetid H s else (Ok False, s)) (\<lambda>taken.
       finally_op (raise_cap H taken) body)"

end
