(* ===== verification/Passthrough_Fs.thy ===== *)
theory Passthrough_Fs
  imports Passthrough
begin

text \<open>
  The methods of the trait \<^verbatim>\<open>FileSystem\<close> for \<^verbatim>\<open>PassthroughFs\<close> (\<^verbatim>\<open>passthrough/sync_io.rs\<close>), in the
  order of the source, and the record \<open>pt_fs_ops\<close> of them with the mount operation of
  \<^verbatim>\<open>BackendFileSystem\<close>.

  A method that works on an object of its caller runs on the pair of that object and the state.
\<close>

section \<open>Lent objects\<close>

record ('c, 'h) lent_ops =
  l_write_from :: "rawfd \<Rightarrow> usize \<Rightarrow> u64 \<Rightarrow> 'c \<Rightarrow> 'h \<Rightarrow> usize res \<times> 'c \<times> 'h"
  l_read_to :: "rawfd \<Rightarrow> usize \<Rightarrow> u64 \<Rightarrow> 'c \<Rightarrow> 'h \<Rightarrow> usize res \<times> 'c \<times> 'h"
  l_map :: "u64 \<Rightarrow> u64 \<Rightarrow> u64 \<Rightarrow> u64 \<Rightarrow> rawfd \<Rightarrow> 'c \<Rightarrow> 'h \<Rightarrow> unit res \<times> 'c \<times> 'h"
  l_unmap :: "removemapping_one list \<Rightarrow> 'c \<Rightarrow> 'h \<Rightarrow> unit res \<times> 'c \<times> 'h"

definition lent_op :: "('c \<Rightarrow> 'h \<Rightarrow> 'a res \<times> 'c \<times> 'h) \<Rightarrow> ('c \<times> 'h pt, 'a) op" where
  "lent_op f = (\<lambda>(c, s). case f c (pt_host s) of (r, c, h) \<Rightarrow> (r, (c, s\<lparr>pt_host := h\<rparr>)))"

definition pt_op :: "('s, 'a) op \<Rightarrow> ('c \<times> 's, 'a) op" where
  "pt_op f = (\<lambda>(c, s). case f s of (r, s) \<Rightarrow> (r, (c, s)))"

abbreviation close_fd2 :: "'h host \<Rightarrow> rawfd \<Rightarrow> 'c \<times> 'h pt \<Rightarrow> 'c \<times> 'h pt" where
  "close_fd2 H fd \<equiv> map_prod id (close_fd H fd)"

section \<open>Helpers\<close>

definition open_inode :: "'h host \<Rightarrow> u64 \<Rightarrow> i32 \<Rightarrow> ('h pt, rawfd) op" where
  "open_inode H inode flags s =
     op_bind (inode_get inode s) (\<lambda>data s.
       if \<not> is_safe_inode (id_mode data) then (Err (Os EBADF), s)
       else
         let new_flags = get_writeback_open_flags (pt_writeback s) flags;
             new_flags = (if \<not> cfg_allow_direct_io (pt_cfg s) \<and> flags AND O_DIRECT \<noteq> 0
                          then new_flags AND NOT O_DIRECT else new_flags)
         in data_open_file H data (new_flags OR O_CLOEXEC) s)"

text \<open>
  The open file of a request with the number of its handle, or a file opened for this request
  only, which is closed with it.
\<close>

definition get_dirdata :: "'h host \<Rightarrow> u64 \<Rightarrow> u64 \<Rightarrow> i32 \<Rightarrow> ('h pt, handle_data \<times> u64 option) op" where
  "get_dirdata H handle inode flags s =
     (if \<not> pt_no_opendir s then op_bind (handles_get handle inode s) (\<lambda>d s. (Ok (d, Some handle), s))
      else op_bind (open_inode H inode (flags OR O_DIRECTORY) s) (\<lambda>file s.
             (Ok (\<lparr>hd_inode = inode, hd_file = file, hd_flags = ucast flags\<rparr>, None), s)))"

definition get_data :: "'h host \<Rightarrow> u64 \<Rightarrow> u64 \<Rightarrow> i32 \<Rightarrow> ('h pt, handle_data \<times> u64 option) op" where
  "get_data H handle inode flags s =
     (if \<not> pt_no_open s then op_bind (handles_get handle inode s) (\<lambda>d s. (Ok (d, Some handle), s))
      else op_bind (open_inode H inode flags s) (\<lambda>file s.
             (Ok (\<lparr>hd_inode = inode, hd_file = file, hd_flags = ucast flags\<rparr>, None), s)))"

definition drop_data :: "'h host \<Rightarrow> handle_data \<times> u64 option \<Rightarrow> 'h pt \<Rightarrow> 'h pt" where
  "drop_data H d s = (case d of (d, None) \<Rightarrow> close_fd H (hd_file d) s | (d, Some h) \<Rightarrow> s)"

definition check_fd_flags :: "'h host \<Rightarrow> handle_data \<times> u64 option \<Rightarrow> rawfd \<Rightarrow> u32 \<Rightarrow> ('h pt, unit) op" where
  "check_fd_flags H d fd flags s =
     (if hd_flags (fst d) \<noteq> flags then
        op_bind (host_op (syscall (h_fcntl_setfl H fd flags)) s) (\<lambda>_ s.
          (Ok (), case snd d of
                    Some h \<Rightarrow> s\<lparr>pt_handles := (pt_handles s)(h \<mapsto> (fst d)\<lparr>hd_flags := flags\<rparr>)\<rparr>
                  | None \<Rightarrow> s))
      else (Ok (), s))"

text \<open>\<^verbatim>\<open>HandleMap::insert\<close>; the file of an entry it replaces is closed.\<close>

definition handles_insert :: "'h host \<Rightarrow> u64 \<Rightarrow> handle_data \<Rightarrow> 'h pt \<Rightarrow> 'h pt" where
  "handles_insert H handle d s =
     (case pt_handles s handle of Some old \<Rightarrow> close_fd H (hd_file old) | None \<Rightarrow> id)
       (s\<lparr>pt_handles := (pt_handles s)(handle \<mapsto> d)\<rparr>)"

section \<open>Directory entries\<close>

record linux_dirent64 =
  d_ino :: u64
  d_off :: i64
  d_reclen :: u16
  d_ty :: u8

definition linux_dirent64_codec :: "linux_dirent64 codec" where
  "linux_dirent64_codec = \<lparr>
     co_layout = [8, 8, 2, 1],
     co_vals = (\<lambda>x. [unat (d_ino x), unat (d_off x), unat (d_reclen x), unat (d_ty x)]),
     co_of = (\<lambda>vs. \<lparr>d_ino = of_nat (vs ! 0), d_off = of_nat (vs ! 1), d_reclen = of_nat (vs ! 2),
           d_ty = of_nat (vs ! 3)\<rparr>)\<rparr>"

interpretation linux_dirent64_b: byte_valued linux_dirent64_codec
  by unfold_locales (auto simp: linux_dirent64_codec_def codec_proofs)

text \<open>
  One entry of the buffer: \<^verbatim>\<open>split_at\<close> panics when the buffer is shorter than the fixed part, and
  the slice of the name when the record is shorter than the fixed part or longer than the buffer.
\<close>

definition next_dirent :: "bytes \<Rightarrow> (linux_dirent64 \<times> bytes) option" where
  "next_dirent rem =
     (let n = size_of linux_dirent64_codec; d = from_slice linux_dirent64_codec (take n rem) in
      if length rem < n \<or> unat (d_reclen d) < n \<or> length rem < unat (d_reclen d) then None
      else Some (d, take (unat (d_reclen d) - n) (drop n rem)))"

lemma next_dirent_progress: "next_dirent rem = Some (d, name) \<Longrightarrow> 0 < unat (d_reclen d) \<and> rem \<noteq> []"
  by (auto simp: next_dirent_def Let_def size_of_def linux_dirent64_codec_def split: if_splits)

function pt_readdir_loop ::
  "(dir_entry \<Rightarrow> ('s, usize) op) \<Rightarrow> nat \<Rightarrow> bytes \<Rightarrow> ('s, unit) op" where
  "pt_readdir_loop add_entry orig_rem_len rem s =
     (if rem = [] then (Ok (), s)
      else
        case next_dirent rem of
          None \<Rightarrow> (Panic, s)
        | Some (d, name) \<Rightarrow>
            if starts_with (name_of_bytes name) CURRENT_DIR_CSTR \<or> starts_with (name_of_bytes name) PARENT_DIR_CSTR
            then pt_readdir_loop add_entry orig_rem_len (drop (unat (d_reclen d)) rem) s
            else
              (case bytes_to_cstr name of
                 XOk n \<Rightarrow>
                   (case add_entry \<lparr>de_ino = d_ino d, de_offset = d_off d, de_type = ucast (d_ty d), de_name = n\<rparr> s of
                      (Ok r, s) \<Rightarrow>
                        if r = 0 then (Ok (), s)
                        else pt_readdir_loop add_entry orig_rem_len (drop (unat (d_reclen d)) rem) s
                    | (Err e, s) \<Rightarrow> if length rem = orig_rem_len then (Err e, s) else (Ok (), s)
                    | (Panic, s) \<Rightarrow> (Panic, s))
               | XErr _ \<Rightarrow> (Err (Os EINVAL), s)
               | XPanic \<Rightarrow> (Panic, s)))"
  by pat_completeness auto
termination
  by (relation "measure (\<lambda>(add_entry, n, rem, s). length rem)") (auto dest: next_dirent_progress)

declare pt_readdir_loop.simps [simp del]

definition pt_do_readdir ::
  "'h host \<Rightarrow> u64 \<Rightarrow> u64 \<Rightarrow> u32 \<Rightarrow> u64 \<Rightarrow> (dir_entry \<Rightarrow> ('c \<times> 'h pt, usize) op) \<Rightarrow> ('c \<times> 'h pt, unit) op" where
  "pt_do_readdir H inode handle sz offset add_entry s =
     (if sz = 0 then (Ok (), s)
      else
        op_bind (pt_op (get_dirdata H handle inode O_RDONLY) s) (\<lambda>data.
          finally_op (map_prod id (drop_data H data)) (\<lambda>s.
            op_bind (pt_op (host_op (syscall (h_lseek H (hd_file (fst data)) offset SEEK_SET))) s) (\<lambda>_ s.
            op_bind (pt_op (host_op (syscall (h_getdents H (hd_file (fst data)) sz))) s) (\<lambda>buf s.
              pt_readdir_loop add_entry (length buf) buf s)))))"

section \<open>Opening and attributes\<close>

definition FOPEN_IN_KILL_SUIDGID :: u32 where "FOPEN_IN_KILL_SUIDGID = 1"
definition WRITE_KILL_PRIV :: u32 where "WRITE_KILL_PRIV = 4"
definition FOPEN_DIRECT_IO :: open_options where "FOPEN_DIRECT_IO = 1"
definition FOPEN_KEEP_CACHE :: open_options where "FOPEN_KEEP_CACHE = 2"
definition FOPEN_CACHE_DIR :: open_options where "FOPEN_CACHE_DIR = 8"

definition open_cache_options :: "cache_policy \<Rightarrow> u32 \<Rightarrow> open_options" where
  "open_cache_options policy flags =
     (let file = (flags AND ucast O_DIRECTORY = 0) in
      case policy of
        CacheNever \<Rightarrow> if file then FOPEN_DIRECT_IO else 0
      | CacheMetadata \<Rightarrow> if file then FOPEN_DIRECT_IO else FOPEN_CACHE_DIR OR FOPEN_KEEP_CACHE
      | CacheAlways \<Rightarrow> if file then FOPEN_KEEP_CACHE else FOPEN_KEEP_CACHE OR FOPEN_CACHE_DIR
      | CacheAuto \<Rightarrow> 0)"

definition do_open ::
  "'h host \<Rightarrow> u64 \<Rightarrow> u32 \<Rightarrow> u32 \<Rightarrow> ('h pt, u64 option \<times> open_options \<times> u32 option) op" where
  "do_open H inode flags fuse_flags s =
     op_bind (with_killpriv H (pt_killpriv_v2 s \<and> fuse_flags AND FOPEN_IN_KILL_SUIDGID \<noteq> 0)
                (open_inode H inode (ucast flags)) s) (\<lambda>file s.
       let handle = pt_next_handle s;
           s = handles_insert H handle \<lparr>hd_inode = inode, hd_file = file, hd_flags = flags\<rparr>
                 (s\<lparr>pt_next_handle := handle + 1\<rparr>)
       in (Ok (Some handle, open_cache_options (cfg_cache_policy (pt_cfg s)) flags, None), s))"

definition do_getattr :: "'h host \<Rightarrow> u64 \<Rightarrow> u64 option \<Rightarrow> ('h pt, stat64 \<times> duration) op" where
  "do_getattr H inode handle s =
     op_bind (inode_get inode s) (\<lambda>data s.
     op_bind (case handle of
                Some h \<Rightarrow>
                  if \<not> pt_no_open s
                  then op_bind (handles_get h inode s) (\<lambda>hd. host_op (stat_fd H (hd_file hd) None))
                  else data_stat H data s
              | None \<Rightarrow> data_stat H data s) (\<lambda>st s.
       (Ok (st, cfg_attr_timeout (pt_cfg s)), s)))"

definition do_unlink :: "'h host \<Rightarrow> u64 \<Rightarrow> cname \<Rightarrow> i32 \<Rightarrow> ('h pt, unit) op" where
  "do_unlink H parent name flags s =
     op_bind (inode_get parent s) (\<lambda>data. with_file H data (\<lambda>file.
       host_op (syscall (h_unlinkat H file name flags))))"

section \<open>Session\<close>

definition pt_init :: "'h host \<Rightarrow> fs_options \<Rightarrow> ('h pt, fs_options) op" where
  "pt_init H capable s =
     op_bind (if cfg_do_import (pt_cfg s) then pt_import H s else (Ok (), s)) (\<lambda>_ s.
       let vfs = (\<not> cfg_do_import (pt_cfg s));
           has = (\<lambda>f. capable AND f = f);
           opts = DO_READDIRPLUS OR READDIRPLUS_AUTO;
           wb = ((vfs \<or> cfg_writeback (pt_cfg s)) \<and> has WRITEBACK_CACHE);
           opts = (if wb then opts OR WRITEBACK_CACHE else opts);
           no = ((vfs \<or> cfg_no_open (pt_cfg s)) \<and> has ZERO_MESSAGE_OPEN);
           opts = (if no then (opts OR ZERO_MESSAGE_OPEN) AND NOT ATOMIC_O_TRUNC else opts);
           nod = ((vfs \<or> cfg_no_opendir (pt_cfg s)) \<and> has ZERO_MESSAGE_OPENDIR);
           opts = (if nod then opts OR ZERO_MESSAGE_OPENDIR else opts);
           kp = ((vfs \<or> cfg_killpriv_v2 (pt_cfg s)) \<and> has HANDLE_KILLPRIV_V2);
           opts = (if kp then opts OR HANDLE_KILLPRIV_V2 else opts);
           dax = has PERFILE_DAX;
           opts = (if dax then opts OR PERFILE_DAX else opts)
       in (Ok opts,
           s\<lparr>pt_writeback := wb \<or> pt_writeback s, pt_no_open := no \<or> pt_no_open s,
             pt_no_opendir := nod \<or> pt_no_opendir s, pt_killpriv_v2 := kp \<or> pt_killpriv_v2 s,
             pt_perfile_dax := dax \<or> pt_perfile_dax s\<rparr>))"

text \<open>\<^verbatim>\<open>BTreeMap::clear\<close> drops the values in the order of the keys.\<close>

definition map_values :: "('k::linorder \<rightharpoonup> 'v) \<Rightarrow> 'v list" where
  "map_values m = map (\<lambda>k. the (m k)) (sorted_list_of_set (dom m))"

definition handles_clear :: "'h host \<Rightarrow> 'h pt \<Rightarrow> 'h pt" where
  "handles_clear H s =
     foldl (\<lambda>s d. close_fd H (hd_file d) s) (s\<lparr>pt_handles := Map.empty\<rparr>) (map_values (pt_handles s))"

definition inodes_clear :: "'h host \<Rightarrow> 'h pt \<Rightarrow> 'h pt" where
  "inodes_clear H s =
     foldl (\<lambda>s d. drop_inode_handle H (id_handle d) s) (s\<lparr>pt_store := store_clear (pt_store s)\<rparr>)
       (map_values (is_data (pt_store s)))"

definition pt_destroy :: "'h host \<Rightarrow> 'h pt \<Rightarrow> 'h pt" where
  "pt_destroy H s = snd (pt_import H (inodes_clear H (handles_clear H s)))"

definition pt_statfs :: "'h host \<Rightarrow> fuse_context \<Rightarrow> u64 \<Rightarrow> ('h pt, statvfs64) op" where
  "pt_statfs H ctx inode s =
     op_bind (inode_get inode s) (\<lambda>data. with_file H data (\<lambda>file. host_op (syscall (h_fstatvfs H file))))"

definition pt_lookup :: "'h host \<Rightarrow> fuse_context \<Rightarrow> u64 \<Rightarrow> cname \<Rightarrow> ('h pt, entry) op" where
  "pt_lookup H ctx parent name s =
     (if SLASH_ASCII \<in> set (to_bytes_with_nul name) then (Err (Os EINVAL), s) else do_lookup H parent name s)"

definition pt_forget :: "'h host \<Rightarrow> fuse_context \<Rightarrow> u64 \<Rightarrow> u64 \<Rightarrow> 'h pt \<Rightarrow> 'h pt" where
  "pt_forget H ctx inode count s = pt_forget_one H inode count s"

definition pt_batch_forget :: "'h host \<Rightarrow> fuse_context \<Rightarrow> (u64 \<times> u64) list \<Rightarrow> 'h pt \<Rightarrow> 'h pt" where
  "pt_batch_forget H ctx requests s = foldl (\<lambda>s (inode, count). pt_forget_one H inode count s) s requests"

definition pt_opendir :: "'h host \<Rightarrow> fuse_context \<Rightarrow> u64 \<Rightarrow> u32 \<Rightarrow> ('h pt, u64 option \<times> open_options) op" where
  "pt_opendir H ctx inode flags s =
     (if pt_no_opendir s then (Err (Os ENOSYS), s)
      else op_bind (do_open H inode (flags OR ucast O_DIRECTORY) 0 s) (\<lambda>(a, b, _) s. (Ok (a, b), s)))"

definition pt_releasedir :: "'h host \<Rightarrow> fuse_context \<Rightarrow> u64 \<Rightarrow> u32 \<Rightarrow> u64 \<Rightarrow> ('h pt, unit) op" where
  "pt_releasedir H ctx inode flags handle s =
     (if pt_no_opendir s then (Err (Os ENOSYS), s) else do_release H inode handle s)"

section \<open>Creation, directories and handles\<close>

definition pt_mkdir :: "'h host \<Rightarrow> fuse_context \<Rightarrow> u64 \<Rightarrow> cname \<Rightarrow> u32 \<Rightarrow> u32 \<Rightarrow> ('h pt, entry) op" where
  "pt_mkdir H ctx parent name mode umask s =
     op_bind (pt_validate name s) (\<lambda>_ s.
     op_bind (inode_get parent s) (\<lambda>data s.
     op_bind (creds_syscall H (ctx_uid ctx) (ctx_gid ctx)
                (with_file H data (\<lambda>file. raw_syscall (h_mkdirat H file name (mode AND NOT umask)))) s) (\<lambda>_ s.
       do_lookup H parent name s)))"

definition pt_rmdir :: "'h host \<Rightarrow> fuse_context \<Rightarrow> u64 \<Rightarrow> cname \<Rightarrow> ('h pt, unit) op" where
  "pt_rmdir H ctx parent name s =
     op_bind (pt_validate name s) (\<lambda>_ s. do_unlink H parent name AT_REMOVEDIR s)"

text \<open>The closure of \<^verbatim>\<open>readdir\<close>: the first byte of an empty name does not exist.\<close>

definition readdir_entry ::
  "'h host \<Rightarrow> u64 \<Rightarrow> (dir_entry \<Rightarrow> ('c, usize) op) \<Rightarrow> dir_entry \<Rightarrow> ('c \<times> 'h pt, usize) op" where
  "readdir_entry H inode add_entry de s =
     (if de_name de = [] then (Panic, s)
      else
        op_bind (pt_op (do_lookup H inode (de_name de)) s) (\<lambda>entry (c, s).
          let s = pt_forget_one H (e_inode entry) 1 s in
          case add_entry (de\<lparr>de_ino := e_inode entry\<rparr>) c of (r, c) \<Rightarrow> (r, (c, s))))"

definition pt_readdir ::
  "'h host \<Rightarrow> fuse_context \<Rightarrow> u64 \<Rightarrow> u64 \<Rightarrow> u32 \<Rightarrow> u64 \<Rightarrow> (dir_entry \<Rightarrow> ('c, usize) op) \<Rightarrow> 'c \<Rightarrow> 'h pt \<Rightarrow>
     unit res \<times> 'c \<times> 'h pt" where
  "pt_readdir H ctx inode handle sz offset add_entry c s =
     (if pt_no_readdir s then (Ok (), c, s)
      else pt_do_readdir H inode handle sz offset (readdir_entry H inode add_entry) (c, s))"

definition readdirplus_entry ::
  "'h host \<Rightarrow> u64 \<Rightarrow> (dir_entry \<Rightarrow> entry \<Rightarrow> ('c, usize) op) \<Rightarrow> dir_entry \<Rightarrow> ('c \<times> 'h pt, usize) op" where
  "readdirplus_entry H inode add_entry de s =
     (if de_name de = [] then (Panic, s)
      else
        op_bind (pt_op (do_lookup H inode (de_name de)) s) (\<lambda>entry (c, s).
          case add_entry (de\<lparr>de_ino := st_ino (e_attr entry)\<rparr>) entry c of
            (Ok r, c) \<Rightarrow> (Ok r, (c, if r = 0 then pt_forget_one H (e_inode entry) 1 s else s))
          | (r, c) \<Rightarrow> (r, (c, s))))"

definition pt_readdirplus ::
  "'h host \<Rightarrow> fuse_context \<Rightarrow> u64 \<Rightarrow> u64 \<Rightarrow> u32 \<Rightarrow> u64 \<Rightarrow> (dir_entry \<Rightarrow> entry \<Rightarrow> ('c, usize) op) \<Rightarrow> 'c \<Rightarrow> 'h pt \<Rightarrow>
     unit res \<times> 'c \<times> 'h pt" where
  "pt_readdirplus H ctx inode handle sz offset add_entry c s =
     (if pt_no_readdir s then (Ok (), c, s)
      else pt_do_readdir H inode handle sz offset (readdirplus_entry H inode add_entry) (c, s))"

definition pt_open ::
  "'h host \<Rightarrow> fuse_context \<Rightarrow> u64 \<Rightarrow> u32 \<Rightarrow> u32 \<Rightarrow> ('h pt, u64 option \<times> open_options \<times> u32 option) op" where
  "pt_open H ctx inode flags fuse_flags s =
     (if pt_no_open s then (Err (Os ENOSYS), s) else do_open H inode flags fuse_flags s)"

definition pt_release ::
  "'h host \<Rightarrow> fuse_context \<Rightarrow> u64 \<Rightarrow> u32 \<Rightarrow> u64 \<Rightarrow> bool \<Rightarrow> bool \<Rightarrow> u64 option \<Rightarrow> ('h pt, unit) op" where
  "pt_release H ctx inode flags handle flush flock_release lock_owner s =
     (if pt_no_open s then (Err (Os ENOSYS), s) else do_release H inode handle s)"

definition create_cache_options :: "cache_policy \<Rightarrow> open_options" where
  "create_cache_options policy =
     (case policy of
        CacheNever \<Rightarrow> FOPEN_DIRECT_IO
      | CacheMetadata \<Rightarrow> FOPEN_DIRECT_IO
      | CacheAlways \<Rightarrow> FOPEN_KEEP_CACHE
      | CacheAuto \<Rightarrow> 0)"

text \<open>
  \<^verbatim>\<open>create\<close>: the file that was created, or, when it existed before, the one that is opened now;
  and the handle for it, without which the file is closed again.
\<close>

definition create_open_file ::
  "'h host \<Rightarrow> fuse_context \<Rightarrow> create_in \<Rightarrow> rawfd option \<Rightarrow> entry \<Rightarrow> ('h pt, rawfd) op" where
  "create_open_file H ctx args new_file entry s =
     (case new_file of
        Some f \<Rightarrow> (Ok f, s)
      | None \<Rightarrow>
          with_killpriv H (pt_killpriv_v2 s \<and> ci_fuse_flags args AND FOPEN_IN_KILL_SUIDGID \<noteq> 0)
            (with_creds H (ctx_uid ctx) (ctx_gid ctx)
              (open_inode H (e_inode entry) (ucast (ci_flags args)))) s)"

definition pt_create_reply ::
  "'h host \<Rightarrow> create_in \<Rightarrow> entry \<Rightarrow> rawfd \<Rightarrow> ('h pt, entry \<times> u64 option \<times> open_options \<times> u32 option) op" where
  "pt_create_reply H args entry file s =
     (let opts = create_cache_options (cfg_cache_policy (pt_cfg s)); handle = pt_next_handle s in
      if \<not> pt_no_open s then
        (Ok (entry, Some handle, opts, None),
         handles_insert H handle \<lparr>hd_inode = e_inode entry, hd_file = file, hd_flags = ci_flags args\<rparr>
           (s\<lparr>pt_next_handle := handle + 1\<rparr>))
      else (Ok (entry, None, opts, None), close_fd H file s))"

text \<open>The created file is closed when the lookup fails.\<close>

definition pt_create ::
  "'h host \<Rightarrow> fuse_context \<Rightarrow> u64 \<Rightarrow> cname \<Rightarrow> create_in \<Rightarrow>
     ('h pt, entry \<times> u64 option \<times> open_options \<times> u32 option) op" where
  "pt_create H ctx parent name args s =
     op_bind (pt_validate name s) (\<lambda>_ s.
     op_bind (inode_get parent s) (\<lambda>dir. with_file H dir (\<lambda>dir_file s.
       op_bind (with_creds H (ctx_uid ctx) (ctx_gid ctx)
                  (\<lambda>s. create_file_excl H dir_file name
                         (get_writeback_open_flags (pt_writeback s) (ucast (ci_flags args)))
                         (ci_mode args AND NOT (ci_umask args AND 0x1FF)) s) s) (\<lambda>new_file s.
       op_bind (unless_ok (case new_file of Some f \<Rightarrow> close_fd H f | None \<Rightarrow> id) (do_lookup H parent name) s) (\<lambda>entry s.
       op_bind (create_open_file H ctx args new_file entry s) (pt_create_reply H args entry))))))"

definition pt_unlink :: "'h host \<Rightarrow> fuse_context \<Rightarrow> u64 \<Rightarrow> cname \<Rightarrow> ('h pt, unit) op" where
  "pt_unlink H ctx parent name s = op_bind (pt_validate name s) (\<lambda>_ s. do_unlink H parent name 0 s)"

section \<open>Mappings, reading and writing\<close>

definition SETUPMAPPING_WRITE :: u64 where "SETUPMAPPING_WRITE = 1"

definition pt_setupmapping ::
  "'h host \<Rightarrow> ('c, 'h) lent_ops \<Rightarrow> fuse_context \<Rightarrow> u64 \<Rightarrow> u64 \<Rightarrow> u64 \<Rightarrow> u64 \<Rightarrow> u64 \<Rightarrow> u64 \<Rightarrow> 'c \<Rightarrow> 'h pt \<Rightarrow>
     unit res \<times> 'c \<times> 'h pt" where
  "pt_setupmapping H L ctx inode handle foffset len flags moffset vu_req s =
     op_bind (pt_op (open_inode H inode (if flags AND SETUPMAPPING_WRITE \<noteq> 0 then O_RDWR else O_RDONLY)) (vu_req, s))
       (\<lambda>file. finally_op (close_fd2 H file) (lent_op (l_map L foffset moffset len flags file)))"

definition pt_removemapping ::
  "'h host \<Rightarrow> ('c, 'h) lent_ops \<Rightarrow> fuse_context \<Rightarrow> u64 \<Rightarrow> removemapping_one list \<Rightarrow> 'c \<Rightarrow> 'h pt \<Rightarrow>
     unit res \<times> 'c \<times> 'h pt" where
  "pt_removemapping H L ctx inode requests vu_req s = lent_op (l_unmap L requests) (vu_req, s)"

text \<open>
  \<^verbatim>\<open>read\<close> and \<^verbatim>\<open>write\<close> build a second owner \<^verbatim>\<open>f\<close> of the descriptor and disarm it with
  \<^verbatim>\<open>ManuallyDrop\<close> only after the checks: a failing check closes the descriptor.
\<close>

definition pt_read ::
  "'h host \<Rightarrow> ('c, 'h) lent_ops \<Rightarrow> fuse_context \<Rightarrow> u64 \<Rightarrow> u64 \<Rightarrow> 'c \<Rightarrow> u32 \<Rightarrow> u64 \<Rightarrow> u64 option \<Rightarrow> u32 \<Rightarrow> 'h pt \<Rightarrow>
     usize res \<times> 'c \<times> 'h pt" where
  "pt_read H L ctx inode handle w sz offset lock_owner flags s =
     op_bind (pt_op (get_data H handle inode O_RDONLY) (w, s)) (\<lambda>data.
       finally_op (map_prod id (drop_data H data)) (\<lambda>s.
         let f = hd_file (fst data) in
         op_bind (unless_ok (close_fd2 H f) (pt_op (check_fd_flags H data f flags)) s) (\<lambda>_.
           lent_op (l_write_from L f (ucast sz) offset))))"

definition pt_write ::
  "'h host \<Rightarrow> ('c, 'h) lent_ops \<Rightarrow> fuse_context \<Rightarrow> u64 \<Rightarrow> u64 \<Rightarrow> 'c \<Rightarrow> u32 \<Rightarrow> u64 \<Rightarrow> u64 option \<Rightarrow> bool \<Rightarrow> u32 \<Rightarrow> u32 \<Rightarrow>
     'h pt \<Rightarrow> usize res \<times> 'c \<times> 'h pt" where
  "pt_write H L ctx inode handle r sz offset lock_owner delayed_write flags fuse_flags s =
     op_bind (pt_op (get_data H handle inode O_RDWR) (r, s)) (\<lambda>data.
       finally_op (map_prod id (drop_data H data)) (\<lambda>s.
         let f = hd_file (fst data) in
         op_bind (unless_ok (close_fd2 H f) (pt_op (\<lambda>s.
                    op_bind (check_fd_flags H data f flags s) (\<lambda>_ s.
                      if pt_seal_size s then
                        op_bind (host_op (stat_fd H f None) s) (\<lambda>st s.
                          (seal_size_check OpWrite (st_size st) offset (ucast sz) 0, s))
                      else (Ok (), s)))) s) (\<lambda>_ s.
         op_bind (pt_op (\<lambda>s. if pt_killpriv_v2 s \<and> fuse_flags AND WRITE_KILL_PRIV \<noteq> 0
                              then drop_cap_fsetid H s else (Ok False, s)) s) (\<lambda>taken.
           finally_op (map_prod id (raise_cap H taken)) (lent_op (l_read_to L f (ucast sz) offset))))))"

section \<open>Attributes and names\<close>

definition pt_getattr :: "'h host \<Rightarrow> fuse_context \<Rightarrow> u64 \<Rightarrow> u64 option \<Rightarrow> ('h pt, stat64 \<times> duration) op" where
  "pt_getattr H ctx inode handle s = do_getattr H inode handle s"

datatype setattr_data = SdHandle handle_data | SdProcPath cname

definition setattr_mode :: "'h host \<Rightarrow> setattr_data \<Rightarrow> u32 \<Rightarrow> ('h pt, unit) op" where
  "setattr_mode H data mode s =
     (case data of
        SdHandle h \<Rightarrow> host_op (syscall (h_fchmod H (hd_file h) mode)) s
      | SdProcPath p \<Rightarrow> host_op (syscall (h_fchmodat H (pt_proc_self_fd s) p mode)) s)"

definition setattr_size :: "'h host \<Rightarrow> u64 \<Rightarrow> setattr_data \<Rightarrow> i64 \<Rightarrow> ('h pt, unit) op" where
  "setattr_size H inode data sz s =
     (case data of
        SdHandle h \<Rightarrow> host_op (syscall (h_ftruncate H (hd_file h) sz)) s
      | SdProcPath p \<Rightarrow>
          op_bind (open_inode H inode (O_NONBLOCK OR O_RDWR) s) (\<lambda>f.
            finally_op (close_fd H f) (host_op (syscall (h_ftruncate H f sz)))))"

definition setattr_times :: "stat64 \<Rightarrow> setattr_valid \<Rightarrow> timespec \<times> timespec" where
  "setattr_times attr valid =
     (let has = (\<lambda>f. valid AND f = f) in
      ((if has FATTR_ATIME_NOW then (0, UTIME_NOW)
        else if has FATTR_ATIME then (st_atime attr, st_atime_nsec attr) else (0, UTIME_OMIT)),
       (if has FATTR_MTIME_NOW then (0, UTIME_NOW)
        else if has FATTR_MTIME then (st_mtime attr, st_mtime_nsec attr) else (0, UTIME_OMIT))))"

definition setattr_utimens :: "'h host \<Rightarrow> setattr_data \<Rightarrow> timespec \<times> timespec \<Rightarrow> ('h pt, unit) op" where
  "setattr_utimens H data tvs s =
     (case data of
        SdHandle h \<Rightarrow> host_op (syscall (h_futimens H (hd_file h) tvs)) s
      | SdProcPath p \<Rightarrow> host_op (syscall (h_utimensat H (pt_proc_self_fd s) p tvs)) s)"

definition pt_setattr ::
  "'h host \<Rightarrow> fuse_context \<Rightarrow> u64 \<Rightarrow> stat64 \<Rightarrow> u64 option \<Rightarrow> setattr_valid \<Rightarrow> ('h pt, stat64 \<times> duration) op" where
  "pt_setattr H ctx inode attr handle valid s =
     (let has = (\<lambda>f. valid AND f = f); any = (\<lambda>f. valid AND f \<noteq> 0) in
      op_bind (inode_get inode s) (\<lambda>inode_data. with_file H inode_data (\<lambda>file s.
        op_bind (case handle of
                   Some h \<Rightarrow>
                     if pt_no_open s then (Ok (SdProcPath (fd_string file)), s)
                     else op_bind (handles_get h inode s) (\<lambda>hd s. (Ok (SdHandle hd), s))
                 | None \<Rightarrow> (Ok (SdProcPath (fd_string file)), s)) (\<lambda>data s.
        if has FATTR_SIZE \<and> pt_seal_size s then (Err (Os EPERM), s)
        else
          op_bind (if has FATTR_MODE then setattr_mode H data (st_mode attr) s else (Ok (), s)) (\<lambda>_ s.
          op_bind (if any (FATTR_UID OR FATTR_GID) then
                     host_op (syscall (h_fchownat H file
                       (if has FATTR_UID then st_uid attr else - 1)
                       (if has FATTR_GID then st_gid attr else - 1))) s
                   else (Ok (), s)) (\<lambda>_ s.
          op_bind (if has FATTR_SIZE then
                     with_killpriv H (pt_killpriv_v2 s \<and> has FATTR_KILL_SUIDGID)
                       (setattr_size H inode data (st_size attr)) s
                   else (Ok (), s)) (\<lambda>_ s.
          op_bind (if any (FATTR_ATIME OR FATTR_MTIME) then
                     setattr_utimens H data (setattr_times attr valid) s
                   else (Ok (), s)) (\<lambda>_ s.
            do_getattr H inode handle s))))))))"

definition pt_rename ::
  "'h host \<Rightarrow> fuse_context \<Rightarrow> u64 \<Rightarrow> cname \<Rightarrow> u64 \<Rightarrow> cname \<Rightarrow> u32 \<Rightarrow> ('h pt, unit) op" where
  "pt_rename H ctx olddir oldname newdir newname flags s =
     op_bind (pt_validate oldname s) (\<lambda>_ s.
     op_bind (pt_validate newname s) (\<lambda>_ s.
     op_bind (inode_get olddir s) (\<lambda>old_inode s.
     op_bind (inode_get newdir s) (\<lambda>new_inode.
       with_file H old_inode (\<lambda>old_file. with_file H new_inode (\<lambda>new_file.
         host_op (syscall (h_renameat2 H old_file oldname new_file newname flags))))))))"

definition pt_mknod ::
  "'h host \<Rightarrow> fuse_context \<Rightarrow> u64 \<Rightarrow> cname \<Rightarrow> u32 \<Rightarrow> u32 \<Rightarrow> u32 \<Rightarrow> ('h pt, entry) op" where
  "pt_mknod H ctx parent name mode rdev umask s =
     op_bind (pt_validate name s) (\<lambda>_ s.
     op_bind (inode_get parent s) (\<lambda>data. with_file H data (\<lambda>file s.
       op_bind (creds_syscall H (ctx_uid ctx) (ctx_gid ctx)
                  (raw_syscall (h_mknodat H file name (mode AND NOT umask) (ucast rdev))) s) (\<lambda>_ s.
         do_lookup H parent name s))))"

definition pt_link :: "'h host \<Rightarrow> fuse_context \<Rightarrow> u64 \<Rightarrow> u64 \<Rightarrow> cname \<Rightarrow> ('h pt, entry) op" where
  "pt_link H ctx inode newparent newname s =
     op_bind (pt_validate newname s) (\<lambda>_ s.
     op_bind (inode_get inode s) (\<lambda>data s.
     op_bind (inode_get newparent s) (\<lambda>new_inode.
       with_file H data (\<lambda>file. with_file H new_inode (\<lambda>new_file s.
         op_bind (host_op (syscall (h_linkat H file new_file newname)) s) (\<lambda>_ s.
           do_lookup H newparent newname s))))))"

definition pt_symlink :: "'h host \<Rightarrow> fuse_context \<Rightarrow> cname \<Rightarrow> u64 \<Rightarrow> cname \<Rightarrow> ('h pt, entry) op" where
  "pt_symlink H ctx linkname parent name s =
     op_bind (pt_validate name s) (\<lambda>_ s.
     op_bind (inode_get parent s) (\<lambda>data s.
     op_bind (creds_syscall H (ctx_uid ctx) (ctx_gid ctx)
                (with_file H data (\<lambda>file. raw_syscall (h_symlinkat H linkname file name))) s) (\<lambda>_ s.
       do_lookup H parent name s)))"

definition pt_readlink :: "'h host \<Rightarrow> fuse_context \<Rightarrow> u64 \<Rightarrow> ('h pt, bytes) op" where
  "pt_readlink H ctx inode s =
     op_bind (inode_get inode s) (\<lambda>data. with_file H data (\<lambda>file.
       host_op (syscall (h_readlinkat H file '''' PATH_MAX))))"

section \<open>Flushing, access and extended attributes\<close>

definition pt_flush :: "'h host \<Rightarrow> fuse_context \<Rightarrow> u64 \<Rightarrow> u64 \<Rightarrow> u64 \<Rightarrow> ('h pt, unit) op" where
  "pt_flush H ctx inode handle lock_owner s =
     (if pt_no_open s then (Err (Os ENOSYS), s)
      else
        op_bind (handles_get handle inode s) (\<lambda>data s.
        op_bind (host_op (syscall (h_dup H (hd_file data))) s) (\<lambda>newfd.
          host_op (syscall (h_close H newfd)))))"

definition pt_fsync :: "'h host \<Rightarrow> fuse_context \<Rightarrow> u64 \<Rightarrow> bool \<Rightarrow> u64 \<Rightarrow> ('h pt, unit) op" where
  "pt_fsync H ctx inode datasync handle s =
     op_bind (get_data H handle inode O_RDONLY s) (\<lambda>data.
       finally_op (drop_data H data)
         (host_op (syscall (if datasync then h_fdatasync H (hd_file (fst data)) else h_fsync H (hd_file (fst data))))))"

definition pt_fsyncdir :: "'h host \<Rightarrow> fuse_context \<Rightarrow> u64 \<Rightarrow> bool \<Rightarrow> u64 \<Rightarrow> ('h pt, unit) op" where
  "pt_fsyncdir H ctx inode datasync handle s = pt_fsync H ctx inode datasync handle s"

definition access_check :: "stat64 \<Rightarrow> fuse_context \<Rightarrow> u32 \<Rightarrow> unit res" where
  "access_check st ctx amask =
     (let mode = amask AND 7; uid = ctx_uid ctx; gid = ctx_gid ctx; m = st_mode st in
      if mode = 0 then Ok ()
      else if mode AND 4 \<noteq> 0 \<and> uid \<noteq> 0 \<and> (st_uid st \<noteq> uid \<or> m AND 0x100 = 0) \<and>
              (st_gid st \<noteq> gid \<or> m AND 0x20 = 0) \<and> m AND 0x4 = 0 then Err (Os EACCES)
      else if mode AND 2 \<noteq> 0 \<and> uid \<noteq> 0 \<and> (st_uid st \<noteq> uid \<or> m AND 0x80 = 0) \<and>
              (st_gid st \<noteq> gid \<or> m AND 0x10 = 0) \<and> m AND 0x2 = 0 then Err (Os EACCES)
      else if mode AND 1 \<noteq> 0 \<and> (uid \<noteq> 0 \<or> m AND 0x49 = 0) \<and> (st_uid st \<noteq> uid \<or> m AND 0x40 = 0) \<and>
              (st_gid st \<noteq> gid \<or> m AND 0x8 = 0) \<and> m AND 0x1 = 0 then Err (Os EACCES)
      else Ok ())"

definition pt_access :: "'h host \<Rightarrow> fuse_context \<Rightarrow> u64 \<Rightarrow> u32 \<Rightarrow> ('h pt, unit) op" where
  "pt_access H ctx inode amask s =
     op_bind (inode_get inode s) (\<lambda>data s.
     op_bind (data_stat H data s) (\<lambda>st s. (access_check st ctx amask, s)))"

definition proc_fd_path :: "rawfd \<Rightarrow> cname" where
  "proc_fd_path fd = ''/proc/self/fd/'' @ fd_string fd"

definition with_xattr_path :: "'h host \<Rightarrow> u64 \<Rightarrow> (cname \<Rightarrow> ('h pt, 'a) op) \<Rightarrow> ('h pt, 'a) op" where
  "with_xattr_path H inode body s =
     (if \<not> cfg_xattr (pt_cfg s) then (Err (Os ENOSYS), s)
      else op_bind (inode_get inode s) (\<lambda>data. with_file H data (\<lambda>file. body (proc_fd_path file))))"

definition pt_setxattr :: "'h host \<Rightarrow> fuse_context \<Rightarrow> u64 \<Rightarrow> cname \<Rightarrow> bytes \<Rightarrow> u32 \<Rightarrow> ('h pt, unit) op" where
  "pt_setxattr H ctx inode name value flags =
     with_xattr_path H inode (\<lambda>p. host_op (syscall (h_setxattr H p name value (ucast flags))))"

definition pt_getxattr :: "'h host \<Rightarrow> fuse_context \<Rightarrow> u64 \<Rightarrow> cname \<Rightarrow> u32 \<Rightarrow> ('h pt, getxattr_reply) op" where
  "pt_getxattr H ctx inode name sz =
     with_xattr_path H inode (\<lambda>p s. op_bind (host_op (syscall (h_getxattr H p name sz)) s) (\<lambda>(res, buf) s.
       (Ok (if sz = 0 then GxCount (ucast res) else GxValue buf), s)))"

definition pt_listxattr :: "'h host \<Rightarrow> fuse_context \<Rightarrow> u64 \<Rightarrow> u32 \<Rightarrow> ('h pt, listxattr_reply) op" where
  "pt_listxattr H ctx inode sz =
     with_xattr_path H inode (\<lambda>p s. op_bind (host_op (syscall (h_listxattr H p sz)) s) (\<lambda>(res, buf) s.
       (Ok (if sz = 0 then LxCount (ucast res) else LxNames buf), s)))"

definition pt_removexattr :: "'h host \<Rightarrow> fuse_context \<Rightarrow> u64 \<Rightarrow> cname \<Rightarrow> ('h pt, unit) op" where
  "pt_removexattr H ctx inode name =
     with_xattr_path H inode (\<lambda>p. host_op (syscall (h_removexattr H p name)))"

definition pt_fallocate ::
  "'h host \<Rightarrow> fuse_context \<Rightarrow> u64 \<Rightarrow> u64 \<Rightarrow> u32 \<Rightarrow> u64 \<Rightarrow> u64 \<Rightarrow> ('h pt, unit) op" where
  "pt_fallocate H ctx inode handle mode offset len s =
     op_bind (get_data H handle inode O_RDWR s) (\<lambda>data. finally_op (drop_data H data) (\<lambda>s.
       let fd = hd_file (fst data) in
       op_bind (if pt_seal_size s then
                  op_bind (host_op (stat_fd H fd None) s) (\<lambda>st s.
                    (seal_size_check OpFallocate (st_size st) offset len (ucast mode), s))
                else (Ok (), s)) (\<lambda>_.
         host_op (syscall (h_fallocate H fd (ucast mode) offset len)))))"

definition pt_lseek :: "'h host \<Rightarrow> fuse_context \<Rightarrow> u64 \<Rightarrow> u64 \<Rightarrow> u64 \<Rightarrow> u32 \<Rightarrow> ('h pt, u64) op" where
  "pt_lseek H ctx inode handle offset whence s =
     op_bind (handles_get handle inode s) (\<lambda>data.
       host_op (syscall (h_lseek H (hd_file data) offset (ucast whence))))"

section \<open>The file system\<close>

definition pt_mount :: "'h host \<Rightarrow> ('h pt, entry \<times> u64) op" where
  "pt_mount H s = op_bind (do_lookup H ROOT_ID ''.'' s) (\<lambda>entry s. (Ok (entry, VFS_MAX_INO), s))"

definition pt_fs_ops :: "'h host \<Rightarrow> ('c, 'h) lent_ops \<Rightarrow> ('h pt, 'c) fs_ops" where
  "pt_fs_ops H L = default_fs_ops\<lparr>
     fs_init := pt_init H, fs_destroy := pt_destroy H, fs_lookup := pt_lookup H,
     fs_forget := pt_forget H, fs_batch_forget := pt_batch_forget H, fs_getattr := pt_getattr H,
     fs_setattr := pt_setattr H, fs_readlink := pt_readlink H, fs_symlink := pt_symlink H,
     fs_mknod := pt_mknod H, fs_mkdir := pt_mkdir H, fs_unlink := pt_unlink H, fs_rmdir := pt_rmdir H,
     fs_rename := pt_rename H, fs_link := pt_link H, fs_open := pt_open H, fs_create := pt_create H,
     fs_read := pt_read H L, fs_write := pt_write H L, fs_flush := pt_flush H, fs_fsync := pt_fsync H,
     fs_fallocate := pt_fallocate H, fs_release := pt_release H, fs_statfs := pt_statfs H,
     fs_setxattr := pt_setxattr H, fs_getxattr := pt_getxattr H, fs_listxattr := pt_listxattr H,
     fs_removexattr := pt_removexattr H, fs_opendir := pt_opendir H, fs_readdir := pt_readdir H,
     fs_readdirplus := pt_readdirplus H, fs_fsyncdir := pt_fsyncdir H,
     fs_releasedir := pt_releasedir H, fs_setupmapping := pt_setupmapping H L,
     fs_removemapping := pt_removemapping H L, fs_access := pt_access H, fs_lseek := pt_lseek H\<rparr>"

definition pt_backend_ops :: "'h host \<Rightarrow> ('c, 'h) lent_ops \<Rightarrow> ('h pt, 'c) backend_ops" where
  "pt_backend_ops H L = fs_ops.extend (pt_fs_ops H L) (backend_ops.fields (pt_mount H))"

end
