(* ===== verification/Passthrough_Closed.thy ===== *)
theory Passthrough_Closed
  imports Passthrough_Fs Server_Calls
begin

text \<open>
  What a method of the passthrough file system can do to its state, as contracts. A predicate on
  states that survives a change of the host and of the mount descriptors survives every method
  that only talks to the host (\<open>pt_closed\<close>); with handles, every method but those that take or
  drop references to inodes (\<open>pt_closed_handles\<close>); and with a step of the lookup and of the
  forget, every request to the file system (\<open>pt_closed_inodes\<close>). The properties of the file
  system instantiate these locales with the predicates they are about.
\<close>

section \<open>The directory loop\<close>

text \<open>The loop only changes its state through the closure that takes the entries.\<close>

lemma pt_readdir_loop_keeps:
  assumes add: "\<And>de t. Q t \<Longrightarrow> Q (snd (add de t))"
  shows "Q s \<Longrightarrow> Q (snd (pt_readdir_loop add n rem s))"
proof (induction rem arbitrary: s rule: measure_induct_rule [of length])
  case (less rem)
  have IH: "Q (snd (pt_readdir_loop add n (drop (unat (d_reclen d)) rem) t))" if "next_dirent rem = Some (d, name)" "Q t" for d name t
    using less.IH [of "drop (unat (d_reclen d)) rem" t] next_dirent_progress [OF that(1)] that(2) by simp
  have A: "Q t" if "add de s = (r, t)" for de r t
    using add [OF less.prems, of de] that by simp
  show ?case
    by (subst pt_readdir_loop.simps) (auto simp: less.prems split: option.split xresult.split prod.split res.split intro: IH dest: A)
qed

text \<open>
  The same with a budget: every turn of the loop takes at least one byte of the buffer and calls
  the closure at most once.
\<close>

lemma pt_readdir_loop_budget:
  assumes add: "\<And>k de t. I (Suc k) t \<Longrightarrow> I k (snd (add de t))"
    and mono: "\<And>k j t. I k t \<Longrightarrow> j \<le> k \<Longrightarrow> I j t"
  shows "I (length rem) s \<Longrightarrow> I 0 (snd (pt_readdir_loop add n rem s))"
proof (induction rem arbitrary: s rule: measure_induct_rule [of length])
  case (less rem)
  have IH: "I 0 (snd (pt_readdir_loop add n (drop (unat (d_reclen d)) rem) t))"
    if "next_dirent rem = Some (d, name)" "I (length rem - 1) t" for d name t
  proof -
    have le: "length (drop (unat (d_reclen d)) rem) \<le> length rem - 1" using next_dirent_progress [OF that(1)] by auto
    show ?thesis using less.IH [OF _ mono [OF that(2) le]] next_dirent_progress [OF that(1)] by simp
  qed
  have A: "I (length rem - 1) t" if "rem \<noteq> []" "add de s = (r, t)" for de r t
    using add [of "length rem - 1" s de] less.prems that by simp
  show ?case
    using mono [OF less.prems, of 0] mono [OF less.prems, of "length rem - 1"]
    by (subst pt_readdir_loop.simps)
      (auto split: option.split xresult.split prod.split res.split intro!: IH dest!: A intro: mono)
qed

section \<open>Talking to the host\<close>

locale pt_closed =
  fixes P :: "'h pt \<Rightarrow> bool"
  assumes P_mounts: "P s \<Longrightarrow> P (s\<lparr>pt_mounts := m, pt_host := h\<rparr>)"
begin

lemma P_host: "P s \<Longrightarrow> P (s\<lparr>pt_host := h\<rparr>)"
  using P_mounts [of s h "pt_mounts s"] by simp

lemma P_host_op: "P s \<Longrightarrow> P (snd (host_op f s))"
  by (auto simp: host_op_def P_host split: prod.split)

lemma P_raw_syscall: "P s \<Longrightarrow> P (snd (raw_syscall f s))"
  by (auto simp: raw_syscall_def P_host split: prod.split)

lemma P_close_fd: "P s \<Longrightarrow> P (close_fd H fd s)"
  by (simp add: close_fd_def P_host)

lemma P_bind: "P (snd p) \<Longrightarrow> (\<And>x t. p = (Ok x, t) \<Longrightarrow> P t \<Longrightarrow> P (snd (f x t))) \<Longrightarrow> P (snd (op_bind p f))"
  by (cases p; cases "fst p") auto

lemma P_finally: "P (snd (m s)) \<Longrightarrow> (\<And>t. P t \<Longrightarrow> P (g t)) \<Longrightarrow> P (snd (finally_op g m s))"
  by (auto simp: finally_op_def split: prod.split)

lemma P_unless_ok: "P (snd (m s)) \<Longrightarrow> (\<And>t. P t \<Longrightarrow> P (g t)) \<Longrightarrow> P (snd (unless_ok g m s))"
  by (auto simp: unless_ok_def split: prod.split res.split)

lemma P_inode_get: "P s \<Longrightarrow> P (snd (inode_get i s))"
  by (simp add: inode_get_def)

lemma P_handles_get: "P s \<Longrightarrow> P (snd (handles_get h i s))"
  by (simp add: handles_get_def)

lemma P_validate: "P s \<Longrightarrow> P (snd (pt_validate name s))"
  by (simp add: pt_validate_def)

lemma P_with_file: "P s \<Longrightarrow> (\<And>f t. P t \<Longrightarrow> P (snd (body f t))) \<Longrightarrow> P (snd (with_file H d body s))"
  by (auto simp: with_file_def intro!: P_bind P_finally P_host_op P_close_fd split: inode_handle.split)

lemma P_drop_inode_handle: "P s \<Longrightarrow> P (drop_inode_handle H ih s)"
  by (auto simp: drop_inode_handle_def intro: P_close_fd P_mounts split: inode_handle.split prod.split)

lemma P_drop_inode_data: "P s \<Longrightarrow> P (drop_inode_data H d s)"
  by (auto simp: drop_inode_data_def intro: P_drop_inode_handle split: option.split)

lemmas P_basic = P_host P_host_op P_raw_syscall P_close_fd P_bind P_finally P_unless_ok P_inode_get P_handles_get
  P_validate P_with_file P_drop_inode_handle P_drop_inode_data

lemma P_data_open_file: "P s \<Longrightarrow> P (snd (data_open_file H d flags s))"
  by (auto simp: data_open_file_def intro: P_host_op split: inode_handle.split)

lemma P_data_stat: "P s \<Longrightarrow> P (snd (data_stat H d s))"
  by (auto simp: data_stat_def intro: P_basic)

lemma P_open_file_and_handle: "P s \<Longrightarrow> P (snd (open_file_and_handle H dir name s))"
  by (auto simp: open_file_and_handle_def open_file_restricted_def intro!: P_basic)

lemma P_to_openable_handle: "P s \<Longrightarrow> P (snd (to_openable_handle H fh s))"
  by (auto simp: to_openable_handle_def intro: P_mounts split: prod.split)

lemma P_with_new_handle:
  "P s \<Longrightarrow> (\<And>ih t. P t \<Longrightarrow> P (snd (body ih t))) \<Longrightarrow> P (snd (with_new_handle H fd ho body s))"
  by (auto simp: with_new_handle_def intro!: P_basic P_to_openable_handle split: option.split)

lemma P_create_file_excl: "P s \<Longrightarrow> P (snd (create_file_excl H dir name flags mode s))"
  using P_host_op [of s "openat H dir name (flags OR O_CREAT OR O_EXCL) mode"]
  by (auto simp: create_file_excl_def split: prod.split res.split)

lemma P_set_cred: "P s \<Longrightarrow> P (snd (set_cred call val s))"
  by (simp add: set_cred_def P_host_op)

lemma P_drop_cred: "P s \<Longrightarrow> P (snd (drop_cred call val s))"
  by (auto simp: drop_cred_def P_host split: prod.split sum.split)

lemma P_set_creds: "P s \<Longrightarrow> P (snd (set_creds H uid gid s))"
  by (auto simp: set_creds_def intro!: P_basic P_set_cred P_drop_cred)

lemma P_drop_creds: "P s \<Longrightarrow> P (snd (drop_creds H uid gid s))"
  using P_drop_cred [of s "h_setresgid H" gid] P_drop_cred
  by (auto simp: drop_creds_def split: prod.split) (metis snd_conv)

lemma P_with_creds: "P s \<Longrightarrow> (\<And>t. P t \<Longrightarrow> P (snd (body t))) \<Longrightarrow> P (snd (with_creds H uid gid body s))"
  by (auto simp: with_creds_def intro!: P_bind P_finally P_set_creds P_drop_creds)

lemma P_creds_syscall: "P s \<Longrightarrow> (\<And>t. P t \<Longrightarrow> P (snd (body t))) \<Longrightarrow> P (snd (creds_syscall H uid gid body s))"
proof -
  assume s: "P s" and body: "\<And>t. P t \<Longrightarrow> P (snd (body t))"
  have "P (snd (let (r, s) = body t; (e, s) = drop_creds H uid gid s
       in op_bind (r, s) (\<lambda>x s. (sys_res (case (x, e) of (Inl _, Some e) \<Rightarrow> Inl e | _ \<Rightarrow> x), s))))" if t: "P t" for t
    using P_drop_creds [OF body [OF t], of H uid gid]
    by (auto split: prod.split intro!: P_bind)
  then show ?thesis using P_set_creds [OF s] by (simp add: creds_syscall_def P_bind)
qed

lemma P_drop_cap_fsetid: "P s \<Longrightarrow> P (snd (drop_cap_fsetid H s))"
proof -
  assume "P s"
  then have has: "P (snd (host_op (syscall (h_has_cap_fsetid H)) s))" by (rule P_host_op)
  then have "P (snd (host_op (syscall (h_drop_cap_fsetid H)) (snd (host_op (syscall (h_has_cap_fsetid H)) s))))"
    by (rule P_host_op)
  with has show ?thesis by (auto simp: drop_cap_fsetid_def split: prod.split res.split)
qed

lemma P_raise_cap: "P s \<Longrightarrow> P (raise_cap H taken s)"
  by (simp add: raise_cap_def P_host_op)

lemma P_with_killpriv: "P s \<Longrightarrow> (\<And>t. P t \<Longrightarrow> P (snd (body t))) \<Longrightarrow> P (snd (with_killpriv H req body s))"
  by (auto simp: with_killpriv_def intro!: P_bind P_finally P_drop_cap_fsetid P_raise_cap)

lemmas P_parts = P_basic P_data_open_file P_data_stat P_open_file_and_handle P_to_openable_handle P_with_new_handle
  P_create_file_excl P_with_creds P_creds_syscall P_with_killpriv

lemma P_open_inode: "P s \<Longrightarrow> P (snd (open_inode H i flags s))"
  by (auto simp: open_inode_def Let_def intro!: P_parts)

lemma P_get_data: "P s \<Longrightarrow> P (snd (get_data H h i flags s))"
  by (auto simp: get_data_def intro!: P_parts P_open_inode)

lemma P_get_dirdata: "P s \<Longrightarrow> P (snd (get_dirdata H h i flags s))"
  by (auto simp: get_dirdata_def intro!: P_parts P_open_inode)

lemma P_drop_data: "P s \<Longrightarrow> P (drop_data H d s)"
  by (auto simp: drop_data_def P_close_fd split: prod.split option.split)

lemma P_getattr: "P s \<Longrightarrow> P (snd (do_getattr H i h s))"
  by (auto simp: do_getattr_def intro!: P_parts split: option.split)

lemma P_unlink: "P s \<Longrightarrow> P (snd (do_unlink H p name flags s))"
  by (auto simp: do_unlink_def intro!: P_parts)

lemma P_xattr_path: "P s \<Longrightarrow> (\<And>p t. P t \<Longrightarrow> P (snd (body p t))) \<Longrightarrow> P (snd (with_xattr_path H i body s))"
  by (auto simp: with_xattr_path_def intro!: P_parts)

lemma P_setattr_parts:
  "P s \<Longrightarrow> P (snd (setattr_mode H d mode s))"
  "P s \<Longrightarrow> P (snd (setattr_size H i d sz s))"
  "P s \<Longrightarrow> P (snd (setattr_utimens H d tvs s))"
  by (auto simp: setattr_mode_def setattr_size_def setattr_utimens_def intro!: P_parts P_open_inode
      split: setattr_data.split)

lemma P_setattr: "P s \<Longrightarrow> P (snd (pt_setattr H ctx i a h valid s))"
  unfolding pt_setattr_def Let_def
  by (rule P_bind P_with_file P_inode_get P_setattr_parts P_with_killpriv P_host_op P_getattr | assumption
      | (simp add: P_handles_get P_bind split: option.split; fail)
      | (simp only: split: if_split, intro conjI impI))+

lemma P_host_methods:
  "P s \<Longrightarrow> P (snd (pt_getattr H ctx i h s))"
  "P s \<Longrightarrow> P (snd (pt_statfs H ctx i s))"
  "P s \<Longrightarrow> P (snd (pt_readlink H ctx i s))"
  "P s \<Longrightarrow> P (snd (pt_unlink H ctx i name s))"
  "P s \<Longrightarrow> P (snd (pt_rmdir H ctx i name s))"
  "P s \<Longrightarrow> P (snd (pt_rename H ctx i oldname j newname flags s))"
  "P s \<Longrightarrow> P (snd (pt_flush H ctx i fh owner s))"
  "P s \<Longrightarrow> P (snd (pt_fsync H ctx i datasync fh s))"
  "P s \<Longrightarrow> P (snd (pt_fsyncdir H ctx i datasync fh s))"
  "P s \<Longrightarrow> P (snd (pt_access H ctx i amask s))"
  "P s \<Longrightarrow> P (snd (pt_setxattr H ctx i name val flags s))"
  "P s \<Longrightarrow> P (snd (pt_getxattr H ctx i name sz s))"
  "P s \<Longrightarrow> P (snd (pt_listxattr H ctx i sz s))"
  "P s \<Longrightarrow> P (snd (pt_removexattr H ctx i name s))"
  "P s \<Longrightarrow> P (snd (pt_lseek H ctx i fh off whence s))"
  by (auto simp: pt_getattr_def pt_statfs_def pt_readlink_def pt_unlink_def pt_rmdir_def pt_rename_def pt_flush_def
      pt_fsync_def pt_fsyncdir_def pt_access_def pt_setxattr_def pt_getxattr_def pt_listxattr_def pt_removexattr_def
      pt_lseek_def intro!: P_parts P_getattr P_unlink P_xattr_path P_get_data P_drop_data)

lemma P_fallocate: "P s \<Longrightarrow> P (snd (pt_fallocate H ctx i fh mode off len s))"
  by (auto simp: pt_fallocate_def Let_def intro!: P_parts P_get_data P_drop_data)

text \<open>The same for the methods that work on an object of the caller.\<close>

lemma P_lent_op: "P (snd cs) \<Longrightarrow> P (snd (snd (lent_op f cs)))"
  by (auto simp: lent_op_def P_host split: prod.split)

lemma P_pt_op: "P (snd cs) \<Longrightarrow> (\<And>t. P t \<Longrightarrow> P (snd (f t))) \<Longrightarrow> P (snd (snd (pt_op f cs)))"
  by (auto simp: pt_op_def split: prod.split) (metis snd_conv)

lemma P_bind2:
  "P (snd (snd p)) \<Longrightarrow> (\<And>x t. P (snd t) \<Longrightarrow> P (snd (snd (f x t)))) \<Longrightarrow> P (snd (snd (op_bind p f)))"
  by (cases p; cases "fst p") auto

lemma P_finally2:
  "P (snd (snd (m s))) \<Longrightarrow> (\<And>t. P t \<Longrightarrow> P (g t)) \<Longrightarrow> P (snd (snd (finally_op (map_prod id g) m s)))"
  by (auto simp: finally_op_def split: prod.split)

lemma P_unless_ok2:
  "P (snd (snd (m s))) \<Longrightarrow> (\<And>t. P t \<Longrightarrow> P (g t)) \<Longrightarrow> P (snd (snd (unless_ok (map_prod id g) m s)))"
  by (auto simp: unless_ok_def split: prod.split res.split)

lemmas P_lent = P_lent_op P_pt_op P_bind2 P_finally2 P_unless_ok2

lemma P_mapping:
  "P s \<Longrightarrow> P (snd (snd (pt_setupmapping H L ctx i fh fo len fl mo c s)))"
  "P s \<Longrightarrow> P (snd (snd (pt_removemapping H L ctx i reqs c s)))"
  by (auto simp: pt_setupmapping_def pt_removemapping_def intro!: P_lent P_open_inode P_close_fd)

end

section \<open>Handles\<close>

locale pt_closed_handles = pt_closed +
  assumes P_handles: "P s \<Longrightarrow> P (s\<lparr>pt_handles := hs\<rparr>)"
    and P_next_handle: "P s \<Longrightarrow> P (s\<lparr>pt_next_handle := n\<rparr>)"
begin

lemma P_check_fd_flags: "P s \<Longrightarrow> P (snd (check_fd_flags H d fd flags s))"
  by (auto simp: check_fd_flags_def intro!: P_bind P_host_op P_handles split: option.split)

lemma P_handles_insert: "P s \<Longrightarrow> P (handles_insert H h d s)"
  by (auto simp: handles_insert_def intro!: P_handles P_close_fd split: option.split)

lemma P_do_open: "P s \<Longrightarrow> P (snd (do_open H i flags fuse_flags s))"
  by (auto simp: do_open_def Let_def intro!: P_bind P_with_killpriv P_open_inode P_handles_insert P_next_handle)

lemma P_do_release: "P s \<Longrightarrow> P (snd (do_release H i h s))"
  by (auto simp: do_release_def intro!: P_handles P_close_fd split: prod.split res.split option.split)

lemma P_handle_methods:
  "P s \<Longrightarrow> P (snd (pt_open H ctx i flags fuse_flags s))"
  "P s \<Longrightarrow> P (snd (pt_release H ctx i flags fh fl flock owner s))"
  "P s \<Longrightarrow> P (snd (pt_opendir H ctx i flags s))"
  "P s \<Longrightarrow> P (snd (pt_releasedir H ctx i flags fh s))"
  by (auto simp: pt_open_def pt_release_def pt_opendir_def pt_releasedir_def intro!: P_bind P_do_open P_do_release)

lemma P_read: "P s \<Longrightarrow> P (snd (snd (pt_read H L ctx i fh c sz off owner flags s)))"
  by (auto simp: pt_read_def Let_def intro!: P_lent P_get_data P_drop_data P_close_fd P_check_fd_flags)

lemma P_write: "P s \<Longrightarrow> P (snd (snd (pt_write H L ctx i fh c sz off owner delayed flags fuse_flags s)))"
  by (auto simp: pt_write_def Let_def intro!: P_lent P_get_data P_drop_data P_close_fd P_check_fd_flags P_raise_cap
      P_bind P_host_op P_drop_cap_fsetid)

lemma P_create_open_file: "P s \<Longrightarrow> P (snd (create_open_file H ctx args new e s))"
  by (auto simp: create_open_file_def intro!: P_with_killpriv P_with_creds P_open_inode split: option.split)

lemma P_create_reply: "P s \<Longrightarrow> P (snd (pt_create_reply H args e file s))"
  by (auto simp: pt_create_reply_def Let_def intro!: P_handles_insert P_next_handle P_close_fd)

end

section \<open>Inodes\<close>

locale pt_closed_inodes = pt_closed_handles P for P :: "'h pt \<Rightarrow> bool" +
  fixes H :: "'h host"
  assumes P_lookup_inode: "P s \<Longrightarrow> P (snd (lookup_inode H fd ho st s))"
    and P_forget_one: "P s \<Longrightarrow> P (pt_forget_one H i n s)"
begin

lemma P_do_lookup: "P s \<Longrightarrow> P (snd (do_lookup H p name s))"
  by (auto simp: do_lookup_def Let_def intro!: P_parts P_lookup_inode)

lemma P_lookup_methods:
  "P s \<Longrightarrow> P (snd (pt_lookup H ctx i name s))"
  "P s \<Longrightarrow> P (snd (pt_mkdir H ctx i name mode umask s))"
  "P s \<Longrightarrow> P (snd (pt_mknod H ctx i name mode rdev umask s))"
  "P s \<Longrightarrow> P (snd (pt_symlink H ctx target i name s))"
  "P s \<Longrightarrow> P (snd (pt_link H ctx i j name s))"
  by (auto simp: pt_lookup_def pt_mkdir_def pt_mknod_def pt_symlink_def pt_link_def intro!: P_parts P_do_lookup)

lemma P_create: "P s \<Longrightarrow> P (snd (pt_create H ctx i name args s))"
  by (auto simp: pt_create_def intro!: P_parts P_do_lookup P_create_open_file P_create_reply split: option.split)

lemma P_readdir_entry: "P (snd s) \<Longrightarrow> P (snd (snd (readdir_entry H i add de s)))"
  by (auto simp: readdir_entry_def Let_def intro!: P_lent P_do_lookup P_forget_one split: prod.split)

lemma P_readdirplus_entry: "P (snd s) \<Longrightarrow> P (snd (snd (readdirplus_entry H i addp de s)))"
  by (auto simp: readdirplus_entry_def intro!: P_lent P_do_lookup P_forget_one split: prod.split res.split)

lemma P_do_readdir:
  assumes "\<And>de t. P (snd t) \<Longrightarrow> P (snd (snd (add de t)))" and "P (snd s)"
  shows "P (snd (snd (pt_do_readdir H i fh sz off add s)))"
  using assms(2) pt_readdir_loop_keeps [where Q = "\<lambda>t. P (snd t)", OF assms(1)]
  by (auto simp: pt_do_readdir_def intro!: P_lent P_get_dirdata P_drop_data P_host_op)

lemma P_dir_methods:
  "P s \<Longrightarrow> P (snd (snd (pt_readdir H ctx i fh sz off add c s)))"
  "P s \<Longrightarrow> P (snd (snd (pt_readdirplus H ctx i fh sz off addp c s)))"
  by (auto simp: pt_readdir_def pt_readdirplus_def intro!: P_do_readdir P_readdir_entry P_readdirplus_entry)

lemma P_forget_methods:
  "P s \<Longrightarrow> P (pt_forget H ctx i n s)"
  "P s \<Longrightarrow> P (pt_batch_forget H ctx reqs s)"
proof -
  show "P s \<Longrightarrow> P (pt_forget H ctx i n s)" by (simp add: pt_forget_def P_forget_one)
  show "P s \<Longrightarrow> P (pt_batch_forget H ctx reqs s)" unfolding pt_batch_forget_def
    by (induction reqs arbitrary: s) (auto intro: P_forget_one)
qed

text \<open>Every request about an inode.\<close>

theorem P_call: "fs_call (pt_fs_ops H L) i s s' \<Longrightarrow> P s \<Longrightarrow> P s'"
  by (induction rule: fs_call.induct)
    (simp_all add: pt_fs_ops_def default_fs_ops_def P_host_methods P_fallocate P_mapping P_setattr P_handle_methods P_read
      P_write P_lookup_methods P_create P_dir_methods P_forget_methods)

end

end
