(* ===== verification/Passthrough_Refs.thy ===== *)
theory Passthrough_Refs
  imports Passthrough_Closed
begin

text \<open>
  The references of the client to the inodes of the passthrough file system. Every entry the
  file system hands out counts one reference, and the client gives references back with
  \<^verbatim>\<open>forget\<close>; an inode may leave the tables only when no reference is left. The development
  covers the configuration in which inode numbers are allocated by the file system
  (\<open>cfg_use_host_ino\<close> is false, the default).
\<close>

section \<open>The part of the state that holds inodes\<close>

definition tab :: "'h pt \<Rightarrow> inode_store \<times> u64 \<times> pt_config" where
  "tab s = (pt_store s, pt_next_inode s, pt_cfg s)"

definition store_refs :: "inode_store \<Rightarrow> u64 \<Rightarrow> nat" where
  "store_refs st i = (case is_data st i of Some d \<Rightarrow> unat (id_refcount d) | None \<Rightarrow> 0)"

abbreviation refs :: "'h pt \<Rightarrow> u64 \<Rightarrow> nat" where
  "refs s \<equiv> store_refs (pt_store s)"

text \<open>
  Every entry is filed under its own number with a positive count, every number in use was
  allocated before, and the root is there.
\<close>

fun tab_wf :: "inode_store \<times> u64 \<times> pt_config \<Rightarrow> bool" where
  "tab_wf (st, n, cfg) \<longleftrightarrow>
     \<not> cfg_use_host_ino cfg \<and> ROOT_ID \<in> dom (is_data st) \<and>
     (\<forall>i d. is_data st i = Some d \<longrightarrow> id_inode d = i \<and> id_refcount d \<noteq> 0 \<and> i < n) \<and>
     (\<forall>k i. by_id st k = Some i \<longrightarrow> i < n) \<and> (\<forall>h i. by_handle st h = Some i \<longrightarrow> i < n)"

declare tab_wf.simps [simp del]

definition pt_wf :: "'h pt \<Rightarrow> bool" where
  "pt_wf s \<longleftrightarrow> tab_wf (tab s)"

lemma tab_simps [simp]:
  "tab (s\<lparr>pt_host := h\<rparr>) = tab s"
  "tab (s\<lparr>pt_mounts := m\<rparr>) = tab s"
  "tab (s\<lparr>pt_handles := hs\<rparr>) = tab s"
  "tab (s\<lparr>pt_next_handle := n\<rparr>) = tab s"
  "tab (s\<lparr>pt_next_inode := k\<rparr>) = (pt_store s, k, pt_cfg s)"
  "tab (s\<lparr>pt_store := st\<rparr>) = (st, pt_next_inode s, pt_cfg s)"
  by (simp_all add: tab_def)

interpretation same: pt_closed_handles "\<lambda>s'. tab s' = tab s" for s
  by unfold_locales simp_all

lemma tab_eqD: "tab s' = tab s \<Longrightarrow> pt_store s' = pt_store s \<and> pt_next_inode s' = pt_next_inode s \<and> pt_cfg s' = pt_cfg s"
  by (simp add: tab_def)

lemma tab_close_fd [simp]: "tab (close_fd H fd s) = tab s"
  by (simp add: close_fd_def)

lemma tab_drop_handle [simp]: "tab (drop_inode_handle H ih s) = tab s"
  by (simp add: same.P_drop_inode_handle)

lemma tab_drop_data [simp]: "tab (drop_inode_data H d s) = tab s"
  by (simp add: same.P_drop_inode_data)

section \<open>Taking a reference\<close>

lemma get_alt_in: "get_alt_locked k ho st = Some d \<Longrightarrow> \<exists>i. is_data st i = Some d"
  by (auto simp: get_alt_locked_def store_get_by_id_def store_get_by_handle_def store_get_def
      split: option.splits if_splits bind_splits)

lemma get_alt_none: "get_alt_locked k ho st = None \<Longrightarrow> get_inode_locked k ho st = Some i \<Longrightarrow> is_data st i = None"
  by (auto simp: get_alt_locked_def get_inode_locked_def store_get_by_id_def store_get_by_handle_def store_get_def
      split: option.splits if_splits bind_splits)

lemma get_inode_bound: "tab_wf (st, n, cfg) \<Longrightarrow> get_inode_locked k ho st = Some i \<Longrightarrow> i < n"
  by (auto simp: tab_wf.simps get_inode_locked_def inode_by_id_def inode_by_handle_def split: option.splits)

definition take_ref :: "u64 \<Rightarrow> (u64 \<Rightarrow> nat) \<Rightarrow> u64 \<Rightarrow> nat" where
  "take_ref i f = f(i := min (f i + 1) (2 ^ 64 - 1))"

lemma unat_max_u64: "unat (- 1 :: u64) = 2 ^ 64 - 1"
  by (simp add: unsigned_minus_1_eq_mask mask_eq_exp_minus_1)

lemma unat_saturating_succ: "unat (saturating_add n 1 :: u64) = min (unat n + 1) (2 ^ 64 - 1)"
  using unsigned_less [of n] by (auto simp: saturating_add_def unat_max_u64 unat_word_ariths)

lemma saturating_succ_nonzero [simp]: "saturating_add n 1 \<noteq> (0 :: u64)"
  using unat_saturating_succ [of n] by (auto simp: unat_eq_zero)

lemma store_refs_set_ref:
  "is_data st i \<noteq> None \<Longrightarrow> store_refs (store_set_ref i n st) = (store_refs st)(i := unat n)"
  by (auto simp: store_refs_def store_set_ref_def)

lemma store_refs_insert: "store_refs (store_insert d st) = (store_refs st)(id_inode d := unat (id_refcount d))"
  by (auto simp: store_refs_def store_insert_def)

lemma tab_wf_set_ref:
  "tab_wf (st, n, cfg) \<Longrightarrow> c \<noteq> 0 \<Longrightarrow> tab_wf (store_set_ref i c st, n, cfg)"
  by (auto simp: tab_wf.simps store_set_ref_def)

lemma tab_wf_insert:
  "tab_wf (st, n, cfg) \<Longrightarrow> id_inode d < n \<Longrightarrow> id_refcount d \<noteq> 0 \<Longrightarrow> tab_wf (store_insert d st, n, cfg)"
  by (auto simp: tab_wf.simps store_insert_def split: option.splits if_splits)

lemma tab_wf_mono: "tab_wf (st, n, cfg) \<Longrightarrow> n \<le> n' \<Longrightarrow> tab_wf (st, n', cfg)"
  unfolding tab_wf.simps by (meson order.strict_trans2)

lemma with_new_handle_tab:
  assumes "with_new_handle H fd ho body s = (r, s')"
  obtains (early) "\<And>x. r \<noteq> Ok x" and "tab s' = tab s"
    | (run) ih t t' where "ih_file_handle ih = ho" and "tab t = tab s" and "body ih t = (r, t')" and "tab s' = tab t'"
proof (cases ho)
  case None
  then show ?thesis using assms run [of "IFile fd" s s'] by (simp add: with_new_handle_def)
next
  case (Some h)
  obtain q t where q: "to_openable_handle H h s = (q, t)" by fastforce
  have t: "tab t = tab s" using same.P_to_openable_handle [OF refl, of H h s] q by simp
  show ?thesis
  proof (cases q)
    case (Ok m)
    obtain t' where "body (IHandle h m) t = (r, t')" "s' = close_fd H fd t'"
      using assms Some q Ok by (auto simp: with_new_handle_def finally_op_def split: prod.splits)
    then show ?thesis using run [of "IHandle h m" t t'] Some t by simp
  qed (use assms Some q t in \<open>auto simp: with_new_handle_def finally_op_def intro!: early\<close>)
qed

text \<open>
  Why the configuration matters. When the host gives a live inode number to a new file, the handle
  of the new file is unknown and the search finds nothing. With \<^verbatim>\<open>use_host_ino\<close> the number is
  computed from the number on the host again, and the entry that the client still refers to is
  replaced by one that counts a single reference, whatever the count was before.
\<close>

lemma reused_host_ino_resets_count:
  assumes "cfg_use_host_ino (pt_cfg s)" and "iid_ino k \<le> MAX_HOST_INO"
    and "get_alt_locked k (Some fh) (pt_store s) = None"
    and "fst (get_unique_inode k (pt_gen s)) = Ok i" and "i \<le> VFS_MAX_INO"
    and "is_data (pt_store s) i = Some d"
  shows "fst (lookup_locked H k (Some fh) mode ih s) = Ok i \<and>
    refs s i = unat (id_refcount d) \<and> refs (snd (lookup_locked H k (Some fh) mode ih s)) i = 1"
proof -
  let ?d = "\<lparr>id_inode = i, id_handle = ih, id_id = k, id_refcount = 1, id_mode = mode\<rparr>"
  obtain g where g: "get_unique_inode k (pt_gen s) = (Ok i, g)" using assms(4) by (metis prod.collapse)
  have l: "lookup_locked H k (Some fh) mode ih s = (Ok i, inode_insert H ?d (s\<lparr>pt_gen := g\<rparr>))"
    using assms(1-3,5) g by (simp add: lookup_locked_def unless_ok_def allocate_inode_def Let_def leD)
  have "tab (inode_insert H ?d (s\<lparr>pt_gen := g\<rparr>)) = (store_insert ?d (pt_store s), pt_next_inode s, pt_cfg s)"
    by (simp add: inode_insert_def tab_def [of "_\<lparr>pt_store := _\<rparr>"])
  then have "pt_store (inode_insert H ?d (s\<lparr>pt_gen := g\<rparr>)) = store_insert ?d (pt_store s)"
    by (simp add: tab_def)
  then show ?thesis using l assms(6) by (simp add: store_refs_def store_insert_def)
qed

text \<open>
  The step at the core of every lookup: it takes exactly one reference when it succeeds and
  none when it fails.
\<close>

lemma insert_new:
  assumes wf: "tab_wf (st, n, cfg)" and alt: "get_alt_locked k ho st = None" and n: "unat n + 1 < 2 ^ 64"
    and i: "i = (case get_inode_locked k ho st of Some j \<Rightarrow> j | None \<Rightarrow> n)"
    and n': "n' = (case get_inode_locked k ho st of Some j \<Rightarrow> n | None \<Rightarrow> n + 1)"
    and d: "id_inode d = i" "id_refcount d = 1"
  shows "tab_wf (store_insert d st, n', cfg) \<and> n \<le> n' \<and> unat n' \<le> unat n + 1 \<and>
    store_refs (store_insert d st) = take_ref i (store_refs st)"
proof -
  have lt: "n < n + 1" using n by (simp add: word_less_nat_alt unat_word_ariths)
  have free: "is_data st i = None"
    using get_alt_none [OF alt] wf i by (cases "is_data st n") (auto simp: tab_wf.simps split: option.splits)
  have bound: "i < n'" "n \<le> n'"
    using get_inode_bound [OF wf] lt i n' by (auto split: option.splits)
  have "store_refs (store_insert d st) = take_ref i (store_refs st)"
    using d free by (auto simp: store_refs_insert take_ref_def store_refs_def)
  moreover have "unat n' \<le> unat n + 1" using n n' by (auto simp: unat_word_ariths split: option.splits)
  ultimately show ?thesis
    using tab_wf_insert [OF tab_wf_mono [OF wf bound(2)], of d] bound d by auto
qed

lemma lookup_locked_refs:
  assumes wf: "pt_wf s" and n: "unat (pt_next_inode s) + 1 < 2 ^ 64"
    and alt: "get_alt_locked k ho (pt_store s) = None" and t: "tab t = tab s"
    and run: "lookup_locked H k ho m ih t = (r, t')" and s': "tab s' = tab t'"
  shows "pt_wf s' \<and> pt_next_inode s \<le> pt_next_inode s' \<and> unat (pt_next_inode s') \<le> unat (pt_next_inode s) + 1 \<and>
    refs s' = (case r of Ok i \<Rightarrow> take_ref i (refs s) | _ \<Rightarrow> refs s)"
proof -
  define i where "i = (case get_inode_locked k ho (pt_store s) of Some j \<Rightarrow> j | None \<Rightarrow> pt_next_inode s)"
  define n' where "n' = (case get_inode_locked k ho (pt_store s) of Some j \<Rightarrow> pt_next_inode s | None \<Rightarrow> pt_next_inode s + 1)"
  define d where "d = \<lparr>id_inode = i, id_handle = ih, id_id = k, id_refcount = 1, id_mode = m\<rparr>"
  have W: "tab_wf (pt_store s, pt_next_inode s, pt_cfg s)" using wf by (simp add: pt_wf_def tab_def)
  have T: "get_alt_locked k ho (pt_store t) = None" "pt_store t = pt_store s" "pt_cfg t = pt_cfg s"
    using tab_eqD [OF t] alt by simp_all
  have u: "\<not> cfg_use_host_ino (pt_cfg s)" using W by (simp add: tab_wf.simps)
  have alloc: "allocate_inode k ho t = (Ok i, t\<lparr>pt_next_inode := n'\<rparr>)"
    using tab_eqD [OF t] u
    by (cases "get_inode_locked k ho (pt_store s)") (auto simp: allocate_inode_def Let_def i_def n'_def)
  have N: "tab_wf (store_insert d (pt_store s), n', pt_cfg s)" "pt_next_inode s \<le> n'" "unat n' \<le> unat (pt_next_inode s) + 1"
    "store_refs (store_insert d (pt_store s)) = take_ref i (refs s)"
    using insert_new [OF W alt n i_def n'_def, of d] by (simp_all add: d_def)
  show ?thesis
  proof (cases "VFS_MAX_INO < i")
    case True
    have r: "r = Err (Custom Other)" and st: "tab s' = (pt_store s, n', pt_cfg s)"
      using run T alloc True s' by (auto simp: lookup_locked_def unless_ok_def)
    have "pt_wf s'" unfolding pt_wf_def st by (rule tab_wf_mono [OF W N(2)])
    moreover have "pt_store s' = pt_store s" "pt_next_inode s' = n'" using st by (simp_all add: tab_def)
    ultimately show ?thesis unfolding r by (simp only: N res.case simp_thms)
  next
    case False
    have r: "r = Ok i" and st: "tab s' = (store_insert d (pt_store s), n', pt_cfg s)"
      using run T alloc False s' by (auto simp: lookup_locked_def unless_ok_def inode_insert_def d_def)
    have "pt_wf s'" unfolding pt_wf_def st by (rule N(1))
    moreover have "pt_store s' = store_insert d (pt_store s)" "pt_next_inode s' = n'" using st by (simp_all add: tab_def)
    ultimately show ?thesis unfolding r by (simp only: N res.case simp_thms)
  qed
qed

lemma lookup_inode_refs:
  assumes wf: "pt_wf s" and n: "unat (pt_next_inode s) + 1 < 2 ^ 64" and eq: "lookup_inode H fd ho st s = (r, s')"
  shows "pt_wf s' \<and> pt_next_inode s \<le> pt_next_inode s' \<and> unat (pt_next_inode s') \<le> unat (pt_next_inode s) + 1 \<and>
    refs s' = (case r of Ok i \<Rightarrow> take_ref i (refs s) | _ \<Rightarrow> refs s)"
proof (cases "get_alt_locked (inode_id_from_stat st) ho (pt_store s)")
  case (Some d)
  then obtain i where i: "is_data (pt_store s) i = Some d" using get_alt_in by blast
  have d: "id_inode d = i" "id_refcount d \<noteq> 0" using wf i by (auto simp: pt_wf_def tab_def tab_wf.simps)
  let ?st = "store_set_ref i (saturating_add (id_refcount d) 1) (pt_store s)"
  have r: "r = Ok i" and s': "tab s' = tab (s\<lparr>pt_store := ?st\<rparr>)"
    using eq Some d by (auto simp: lookup_inode_def finally_op_def)
  have "store_refs ?st = take_ref i (refs s)"
    using i by (simp add: store_refs_set_ref unat_saturating_succ take_ref_def store_refs_def)
  moreover have "tab_wf (tab s')"
    using wf s' tab_wf_set_ref [of "pt_store s" "pt_next_inode s" "pt_cfg s"] by (simp add: pt_wf_def tab_def)
  ultimately show ?thesis using r s' by (simp add: pt_wf_def tab_def)
next
  case None
  then have "with_new_handle H fd ho (lookup_locked H (inode_id_from_stat st) ho (st_mode (sx_st st))) s = (r, s')"
    using eq by (simp add: lookup_inode_def Let_def)
  then show ?thesis
  proof (cases rule: with_new_handle_tab)
    case early
    then show ?thesis using wf by (cases r) (auto simp: pt_wf_def tab_def)
  next
    case (run ih t t')
    show ?thesis using lookup_locked_refs [OF wf n None run(2,3,4)] .
  qed
qed

section \<open>Operations that look up one file\<close>

text \<open>What an operation with the inode \<open>r\<close> in its result does to the tables.\<close>

definition took :: "'h pt \<Rightarrow> u64 res \<Rightarrow> 'h pt \<Rightarrow> bool" where
  "took s r s' \<longleftrightarrow> pt_wf s' \<and> pt_next_inode s \<le> pt_next_inode s' \<and> unat (pt_next_inode s') \<le> unat (pt_next_inode s) + 1 \<and>
     refs s' = (case r of Ok i \<Rightarrow> take_ref i (refs s) | _ \<Rightarrow> refs s)"

definition one_ref :: "('a \<Rightarrow> u64) \<Rightarrow> 'h pt \<Rightarrow> 'a res \<times> 'h pt \<Rightarrow> bool" where
  "one_ref g s p \<longleftrightarrow> (pt_wf s \<and> unat (pt_next_inode s) + 1 < 2 ^ 64 \<longrightarrow> took s (res_map g (fst p)) (snd p))"

lemma took_cong: "tab t = tab s \<Longrightarrow> took t r u = took s r u"
  by (drule tab_eqD) (cases r; simp add: took_def)

lemma took_cong2: "tab u = tab v \<Longrightarrow> took s r u = took s r v"
  by (frule tab_eqD) (simp add: took_def pt_wf_def)

lemma pt_wf_cong: "tab t = tab s \<Longrightarrow> pt_wf t = pt_wf s"
  by (simp add: pt_wf_def)

lemma one_ref_early: "(\<And>x. fst p \<noteq> Ok x) \<Longrightarrow> tab (snd p) = tab s \<Longrightarrow> one_ref g s p"
  by (cases "fst p") (auto simp: one_ref_def took_def pt_wf_def tab_def)

lemma one_ref_Err: "one_ref g s (Err e, s)"
  by (simp add: one_ref_early)

lemma one_ref_cong: "one_ref g t p \<Longrightarrow> tab t = tab s \<Longrightarrow> one_ref g s p"
  using took_cong [of t s] pt_wf_cong [of t s] tab_eqD [of t s] by (simp add: one_ref_def)

lemma one_ref_bind:
  assumes "tab (snd p) = tab s" and "\<And>x t. tab t = tab s \<Longrightarrow> one_ref g t (f x t)"
  shows "one_ref g s (op_bind p f)"
proof (cases p)
  case (Pair r t)
  then have t: "tab t = tab s" using assms(1) by simp
  show ?thesis
  proof (cases r)
    case (Ok x)
    then show ?thesis using Pair one_ref_cong [OF assms(2) [OF t] t] by simp
  qed (use Pair t in \<open>auto intro: one_ref_early\<close>)
qed

lemma one_ref_finally:
  assumes "one_ref g s (m s)" and "\<And>t. tab (h t) = tab t"
  shows "one_ref g s (finally_op h m s)"
  using assms(1) took_cong2 [OF assms(2)] by (auto simp: one_ref_def finally_op_def split: prod.splits)

lemma one_ref_with_file:
  assumes "\<And>f t. tab t = tab s \<Longrightarrow> one_ref g t (body f t)"
  shows "one_ref g s (with_file H d body s)"
  unfolding with_file_def
  by (auto split: inode_handle.split intro!: assms one_ref_bind one_ref_finally same.P_host_op)

lemma one_ref_map:
  assumes "one_ref g s p" and "\<And>x t. g' (k x t) = g x"
  shows "one_ref g' s (op_bind p (\<lambda>x t. (Ok (k x t), t)))"
  using assms by (cases p; cases "fst p") (auto simp: one_ref_def)

lemma one_ref_lookup_inode: "one_ref id s (lookup_inode H fd ho st s)"
  using lookup_inode_refs [of s H fd ho st] by (cases "lookup_inode H fd ho st s"; cases "fst (lookup_inode H fd ho st s)")
    (auto simp: one_ref_def took_def)

lemma e_inode_lookup_entry [simp]: "e_inode (lookup_entry i st s) = i"
  by (simp add: lookup_entry_def Let_def split: prod.split)

lemma one_ref_do_lookup: "one_ref e_inode s (do_lookup H p name s)"
  unfolding do_lookup_def Let_def
  by (auto intro!: one_ref_bind one_ref_with_file one_ref_map [OF one_ref_lookup_inode] same.P_inode_get
      same.P_open_file_and_handle)

lemmas one_ref_rules = one_ref_bind one_ref_with_file one_ref_do_lookup same.P_validate same.P_inode_get
  same.P_creds_syscall same.P_with_file same.P_raw_syscall same.P_host_op

lemma one_ref_methods:
  "one_ref e_inode s (pt_lookup H ctx i name s)"
  "one_ref e_inode s (pt_mkdir H ctx i name mode umask s)"
  "one_ref e_inode s (pt_mknod H ctx i name mode rdev umask s)"
  "one_ref e_inode s (pt_symlink H ctx target i name s)"
  "one_ref e_inode s (pt_link H ctx i j name s)"
  by (auto simp: pt_lookup_def pt_mkdir_def pt_mknod_def pt_symlink_def pt_link_def intro!: one_ref_rules one_ref_Err)

section \<open>Giving references back\<close>

lemma tab_wf_remove: "tab_wf (st, n, cfg) \<Longrightarrow> i \<noteq> ROOT_ID \<Longrightarrow> tab_wf (st\<lparr>is_data := (is_data st)(i := None)\<rparr>, n, cfg)"
  by (auto simp: tab_wf.simps)

lemma forget_one_tab:
  assumes wf: "pt_wf s" and i: "i \<noteq> ROOT_ID" and d: "is_data (pt_store s) i = Some d"
  shows "tab (pt_forget_one H i n s) =
    (let st = store_set_ref i (saturating_sub (id_refcount d) n) (pt_store s)
     in if saturating_sub (id_refcount d) n = 0 then st\<lparr>is_data := (is_data st)(i := None)\<rparr> else st,
     pt_next_inode s, pt_cfg s)"
proof -
  have "\<not> cfg_use_host_ino (pt_cfg s)" using wf by (simp add: pt_wf_def tab_def tab_wf.simps)
  then show ?thesis using i d by (simp add: pt_forget_one_def store_get_def Let_def store_remove_def)
qed

lemma forget_one_refs:
  assumes wf: "pt_wf s"
  shows "pt_wf (pt_forget_one H i n s) \<and> pt_next_inode (pt_forget_one H i n s) = pt_next_inode s \<and>
    refs (pt_forget_one H i n s) = (if i = ROOT_ID then refs s else (refs s)(i := refs s i - unat n))"
proof (cases "i = ROOT_ID \<or> is_data (pt_store s) i = None")
  case True
  then show ?thesis using wf by (auto simp: pt_forget_one_def store_get_def store_refs_def)
next
  case False
  then obtain d where i: "i \<noteq> ROOT_ID" and d: "is_data (pt_store s) i = Some d" by auto
  let ?c = "saturating_sub (id_refcount d) n"
  let ?st = "store_set_ref i ?c (pt_store s)"
  note T = forget_one_tab [OF wf i d, of H n]
  have W: "tab_wf (pt_store s, pt_next_inode s, pt_cfg s)" using wf by (simp add: pt_wf_def tab_def)
  have R: "store_refs ?st = (refs s)(i := refs s i - unat n)"
    using d by (simp add: store_refs_set_ref unat_saturating_sub store_refs_def)
  show ?thesis
  proof (cases "?c = 0")
    case True
    have "tab (pt_forget_one H i n s) = (?st\<lparr>is_data := (is_data ?st)(i := None)\<rparr>, pt_next_inode s, pt_cfg s)"
      using T True by (simp add: Let_def)
    moreover have "(is_data ?st)(i := None) = (is_data (pt_store s))(i := None)"
      by (auto simp: store_set_ref_def)
    then have "?st\<lparr>is_data := (is_data ?st)(i := None)\<rparr> = (pt_store s)\<lparr>is_data := (is_data (pt_store s))(i := None)\<rparr>"
      by (simp add: store_set_ref_def)
    moreover have "unat ?c = 0" using True by simp
    then have "store_refs ((pt_store s)\<lparr>is_data := (is_data (pt_store s))(i := None)\<rparr>) = (refs s)(i := refs s i - unat n)"
      using d by (auto simp: store_refs_def unat_saturating_sub)
    ultimately show ?thesis using i tab_wf_remove [OF W i] by (auto simp: pt_wf_def tab_def)
  next
    case False
    then have "tab (pt_forget_one H i n s) = (?st, pt_next_inode s, pt_cfg s)" using T by (simp add: Let_def)
    then show ?thesis using i R tab_wf_set_ref [OF W False] by (auto simp: pt_wf_def tab_def)
  qed
qed

end
