(* ===== verification/Passthrough_Session.thy ===== *)
theory Passthrough_Session
  imports Passthrough_Refs
begin

text \<open>
  Sessions of a client with the passthrough file system, with the references the client holds:
  the file system never loses an inode the client still refers to, and, as long as no
  \<^verbatim>\<open>create\<close> and no \<^verbatim>\<open>readdirplus\<close> fails half way, keeps no reference the client does not hold.
\<close>

section \<open>Counts of the client\<close>

text \<open>
  The store covers the counts \<open>C\<close> of the client; with \<open>exact\<close>, every count but the root's is
  the client's.
\<close>

definition covers :: "bool \<Rightarrow> (u64 \<Rightarrow> nat) \<Rightarrow> 'h pt \<Rightarrow> bool" where
  "covers exact C s \<longleftrightarrow>
     pt_wf s \<and> (\<forall>i. C i \<le> refs s i) \<and> (exact \<longrightarrow> (\<forall>i. i \<noteq> ROOT_ID \<longrightarrow> refs s i = C i))"

fun client_gets :: "(u64 \<Rightarrow> nat) \<Rightarrow> u64 res \<Rightarrow> u64 \<Rightarrow> nat" where
  "client_gets C (Ok i) = C(i := C i + 1)"
| "client_gets C (Err e) = C"
| "client_gets C Panic = C"

lemma covers_cong: "tab t = tab s \<Longrightarrow> covers b C t = covers b C s"
  by (frule tab_eqD) (simp add: covers_def pt_wf_def)

lemma covers_took:
  assumes c: "covers b C s" and t: "took s r s'" and C: "\<forall>i. C i + 1 < 2 ^ 64"
  shows "covers b (client_gets C r) s'"
proof -
  have C': "C i + 1 \<le> 2 ^ 64 - 1" for i using C by (metis Suc_eq_plus1 Suc_le_eq le_diff_conv2 less_or_eq_imp_le one_le_numeral one_le_power)
  show ?thesis using c t C' by (cases r) (auto simp: covers_def took_def take_ref_def)
qed

lemma covers_forget:
  assumes "covers b C s" and "unat n \<le> C i"
  shows "covers b (C(i := C i - unat n)) (pt_forget_one H i n s)"
  using assms forget_one_refs [of s H i n] by (auto simp: covers_def diff_le_mono intro: le_trans [OF diff_le_self])

text \<open>A state with room for \<open>k\<close> more lookups.\<close>

definition budget :: "bool \<Rightarrow> (u64 \<Rightarrow> nat) \<Rightarrow> nat \<Rightarrow> 'h pt \<Rightarrow> bool" where
  "budget b C k s \<longleftrightarrow> covers b C s \<and> unat (pt_next_inode s) + k < 2 ^ 64 \<and> (\<forall>i. C i + k < 2 ^ 64)"

lemma budget_cong: "tab t = tab s \<Longrightarrow> budget b C k t = budget b C k s"
  using covers_cong [of t s] tab_eqD [of t s] by (simp add: budget_def)

lemma budget_keep: "budget b C k u \<Longrightarrow> tab v = tab u \<Longrightarrow> budget b C k v"
  using budget_cong [of v u] by simp

lemma budget_mono: "budget b C k s \<Longrightarrow> j \<le> k \<Longrightarrow> budget b C j s"
  unfolding budget_def by (meson add_left_mono le_less_trans)

interpretation bud: pt_closed_handles "budget b C k" for b C k
  by unfold_locales (simp_all add: budget_cong [OF tab_simps(1)] budget_cong [OF tab_simps(2)] budget_cong [OF tab_simps(3)]
      budget_cong [OF tab_simps(4)])

lemma budget_one_ref:
  assumes b: "budget b C (Suc k) s" and m: "one_ref g s (r, s')"
  shows "covers b (client_gets C (res_map g r)) s'" and "unat (pt_next_inode s') + k < 2 ^ 64"
proof -
  have t: "took s (res_map g r) s'" using b m by (auto simp: budget_def one_ref_def covers_def)
  have "\<forall>i. C i + 1 < 2 ^ 64" using budget_mono [OF b, of 1] by (simp add: budget_def)
  with t show "covers b (client_gets C (res_map g r)) s'" using b covers_took [of b C s "res_map g r" s'] by (simp add: budget_def)
  show "unat (pt_next_inode s') + k < 2 ^ 64" using t b by (simp add: budget_def took_def)
qed

lemma next_forget: "covers b C s \<Longrightarrow> pt_next_inode (pt_forget_one H i n s) = pt_next_inode s"
  using forget_one_refs by (auto simp: covers_def)

lemma take_then_forget:
  assumes "covers b (C(i := C i + 1)) u" and "unat (pt_next_inode u) + k < 2 ^ 64" and "\<forall>i. C i + k < 2 ^ 64"
  shows "budget b C k (pt_forget_one H i 1 u)"
  using assms covers_forget [OF assms(1), of 1 i H] next_forget [OF assms(1), of H i 1] by (auto simp: budget_def fun_upd_idem)

section \<open>Directories\<close>

lemma readdir_entry_budget:
  assumes "budget b C (Suc k) (snd s)"
  shows "budget b C k (snd (snd (readdir_entry H i add de s)))"
proof -
  obtain c t where s: "s = (c, t)" by fastforce
  obtain r u where look: "do_lookup H i (de_name de) t = (r, u)" by fastforce
  note L = budget_one_ref [of b C k t e_inode r u] one_ref_do_lookup [of t H i "de_name de"]
  have C: "\<forall>i. C i + k < 2 ^ 64" and b: "budget b C k t" using budget_mono [OF assms, of k] s by (auto simp: budget_def)
  show ?thesis
  proof (cases r)
    case (Ok e)
    then have "budget b C k (pt_forget_one H (e_inode e) 1 u)"
      using L look assms s take_then_forget [OF _ _ C] by simp
    then show ?thesis
      using s look Ok b by (auto simp: readdir_entry_def pt_op_def Let_def split: prod.split)
  qed (use s look L assms b in \<open>auto simp: readdir_entry_def pt_op_def budget_def split: prod.split\<close>)
qed

text \<open>The entries \<^verbatim>\<open>readdirplus\<close> delivers, in a log beside the object of the caller.\<close>

definition logged ::
  "(dir_entry \<Rightarrow> entry \<Rightarrow> ('c, usize) op) \<Rightarrow> dir_entry \<Rightarrow> entry \<Rightarrow> ('c \<times> u64 list, usize) op" where
  "logged add de e = (\<lambda>(c, l).
     case add de e c of
       (Ok r, c) \<Rightarrow> (Ok r, (c, if r = 0 then l else l @ [e_inode e]))
     | (r, c) \<Rightarrow> (r, (c, l)))"

definition log_budget :: "bool \<Rightarrow> (u64 \<Rightarrow> nat) \<Rightarrow> nat \<Rightarrow> ('c \<times> u64 list) \<times> 'h pt \<Rightarrow> bool" where
  "log_budget b C k s \<longleftrightarrow> budget b (\<lambda>i. C i + count_list (snd (fst s)) i) k (snd s)"

lemma covers_weaken: "covers b C s \<Longrightarrow> (\<And>i. C' i \<le> C i) \<Longrightarrow> covers False C' s"
  by (auto simp: covers_def intro: le_trans)

lemma readdirplus_entry_budget:
  assumes "log_budget b C (Suc k) s" and exact: "b \<Longrightarrow> \<forall>de e c. is_ok (fst (add de e c))"
  shows "log_budget b C k (snd (readdirplus_entry H i (logged add) de s))"
proof -
  obtain c l t where s: "s = ((c, l), t)" by (metis prod.collapse)
  define D where "D = (\<lambda>i. C i + count_list l i)"
  obtain r u where look: "do_lookup H i (de_name de) t = (r, u)" by fastforce
  have B: "budget b D (Suc k) t" using assms(1) s by (simp add: log_budget_def D_def)
  note L = budget_one_ref [OF B, of e_inode r u] one_ref_do_lookup [of t H i "de_name de"]
  have C: "\<forall>i. D i + k < 2 ^ 64" and b: "budget b D k t" using budget_mono [OF B, of k] by (auto simp: budget_def)
  show ?thesis
  proof (cases r)
    case (Ok e)
    then have cov: "covers b (D(e_inode e := D (e_inode e) + 1)) u" and n: "unat (pt_next_inode u) + k < 2 ^ 64"
      using L look by simp_all
    have log: "(\<lambda>j. C j + count_list (l @ [e_inode e]) j) = D(e_inode e := D (e_inode e) + 1)"
      by (auto simp: D_def)
    obtain q c' where q: "add (de\<lparr>de_ino := st_ino (e_attr e)\<rparr>) e c = (q, c')" by fastforce
    have full: "budget b (D(e_inode e := D (e_inode e) + 1)) k u"
      using cov n B C by (auto simp: budget_def)
    have none: "budget b D k u" if "\<not> is_ok q"
    proof -
      have "\<not> b" using exact that q by (metis fst_conv)
      then show ?thesis using covers_weaken [OF cov, of D] n C by (auto simp: budget_def)
    qed
    show ?thesis
      using s look Ok q full none b take_then_forget [OF cov n C, of H] log
      by (cases q) (auto simp: readdirplus_entry_def pt_op_def logged_def log_budget_def D_def [symmetric])
  qed (use s look L b C in \<open>auto simp: readdirplus_entry_def pt_op_def log_budget_def D_def budget_def\<close>)
qed

text \<open>\<^verbatim>\<open>getdents64\<close> returns at most as many bytes as the buffer has.\<close>

definition getdents_bounded :: "'h host \<Rightarrow> bool" where
  "getdents_bounded H \<longleftrightarrow>
     (\<forall>fd sz h buf h'. h_getdents H fd sz h = (Inr buf, h') \<longrightarrow> length buf \<le> unat sz)"

lemma pt_op_host: "pt_op f (c, t) = (r, s') \<Longrightarrow> tab (snd (f t)) = tab t \<Longrightarrow> \<exists>u. s' = (c, u) \<and> tab u = tab t \<and> f t = (r, u)"
  by (auto simp: pt_op_def split: prod.splits)

lemma op_bind_two:
  assumes "A (snd p)" and "\<And>t. A t \<Longrightarrow> B t" and "\<And>x t. p = (Ok x, t) \<Longrightarrow> A t \<Longrightarrow> B (snd (f x t))"
  shows "B (snd (op_bind p f))"
  using assms by (cases p; cases "fst p") auto

lemma do_readdir_budget:
  assumes H: "getdents_bounded H"
    and add: "\<And>k de t. I (Suc k) t \<Longrightarrow> I k (snd (add de t))"
    and mono: "\<And>k j t. I k t \<Longrightarrow> j \<le> k \<Longrightarrow> I j t"
    and host: "\<And>k c u v. I k (c, u) \<Longrightarrow> tab v = tab u \<Longrightarrow> I k (c, v)"
    and s: "I (2 ^ 32) s"
  shows "I 0 (snd (pt_do_readdir H i fh sz off add s))"
proof -
  have keep_dir: "I k (snd (pt_op (get_dirdata H fh i O_RDONLY) t))" if "I k t" for k t
    using that host [of k "fst t" "snd t"] same.P_get_dirdata [OF refl, of H fh i O_RDONLY "snd t"]
    by (auto simp: pt_op_def split: prod.split)
  have keep_host: "I k (snd (pt_op (host_op (syscall (f :: ('a, i64) sys))) t))" if "I k t" for k t f
    using that host [of k "fst t" "snd t"] same.P_host_op [OF refl, of "syscall f" "snd t"]
    by (auto simp: pt_op_def split: prod.split)
  have loop: "I 0 (snd (op_bind (pt_op (host_op (syscall (h_getdents H fd sz))) t) (\<lambda>buf s. pt_readdir_loop add (length buf) buf s)))"
    if t: "I (2 ^ 32) t" for t fd
  proof (rule op_bind_two [where A = "I (2 ^ 32)"])
    show "I (2 ^ 32) (snd (pt_op (host_op (syscall (h_getdents H fd sz))) t))"
      using t host [of _ "fst t" "snd t"] same.P_host_op [OF refl, of "syscall (h_getdents H fd sz)" "snd t"]
      by (auto simp: pt_op_def split: prod.split)
    fix buf u assume p: "pt_op (host_op (syscall (h_getdents H fd sz))) t = (Ok buf, u)" and u: "I (2 ^ 32) u"
    obtain h h' where "h_getdents H fd sz h = (Inr buf, h')"
      using p by (cases t) (auto simp: pt_op_def host_op_def syscall_def split: prod.splits elim!: sys_res.elims)
    then have "length buf \<le> unat sz" using H unfolding getdents_bounded_def by blast
    moreover have "unat sz < 2 ^ 32" using unsigned_less [of sz] by simp
    ultimately have len: "length buf \<le> 2 ^ 32" by linarith
    show "I 0 (snd (pt_readdir_loop add (length buf) buf u))"
      by (rule pt_readdir_loop_budget [of I, OF add mono mono [OF u len]])
  qed (rule mono, simp_all)
  have drop: "I 0 (snd (finally_op (map_prod id (drop_data H d)) m t))" if "I 0 (snd (m t))" for d m t
    using that host [of 0 "fst (snd (m t))" "snd (snd (m t))"] same.P_drop_data [OF refl, of H d]
    by (auto simp: finally_op_def split: prod.split)
  show ?thesis
    using s mono [of _ s 0]
    by (auto simp: pt_do_readdir_def intro!: op_bind_two [where A = "I (2 ^ 32)" and B = "I 0"] keep_dir keep_host loop drop intro: mono)
qed

section \<open>Creation\<close>

definition created :: "bool \<Rightarrow> (u64 \<Rightarrow> nat) \<Rightarrow> nat \<Rightarrow> (entry \<times> 'x) res \<times> 'h pt \<Rightarrow> bool" where
  "created b C k p \<longleftrightarrow>
     covers (b \<and> is_ok (fst p)) (client_gets C (res_map (e_inode \<circ> fst) (fst p))) (snd p) \<and>
     unat (pt_next_inode (snd p)) + k < 2 ^ 64"

lemma created_bind:
  assumes "budget b C k s" and "tab (snd p) = tab s" and "\<And>x t. tab t = tab s \<Longrightarrow> created b C k (f x t)"
  shows "created b C k (op_bind p f)"
proof (cases p)
  case (Pair r t)
  then have "budget b C k t" using assms budget_cong [of t s b C k] by simp
  then show ?thesis using Pair assms(2,3) covers_weaken [of b C t C] by (cases r) (auto simp: created_def budget_def)
qed

lemma created_finally:
  assumes "created b C k (m s)" and "\<And>t. tab (h t) = tab t"
  shows "created b C k (finally_op h m s)"
  using assms(1) covers_cong [OF assms(2)] tab_eqD [OF assms(2)] by (auto simp: created_def finally_op_def split: prod.splits)

lemma created_with_file:
  assumes "budget b C k s" and "\<And>f t. tab t = tab s \<Longrightarrow> created b C k (body f t)"
  shows "created b C k (with_file H d body s)"
  unfolding with_file_def
  by (auto split: inode_handle.split intro!: assms created_bind created_finally same.P_host_op)

lemma close_keeps:
  "covers b C (close_fd H fd s) = covers b C s" "pt_next_inode (close_fd H fd s) = pt_next_inode s"
  using covers_cong [OF tab_close_fd [of H fd s]] tab_eqD [OF tab_close_fd [of H fd s]] by simp_all

lemma created_tail:
  assumes "covers b (C(e_inode e := C (e_inode e) + 1)) t" and "unat (pt_next_inode t) + k < 2 ^ 64"
    and "tab (snd p) = tab t" and "\<And>x u. tab (snd (f x u)) = tab u" and "\<And>x u y. fst (f x u) = Ok y \<Longrightarrow> fst y = e"
  shows "created b C k (op_bind p f)"
proof -
  obtain r u where p: "op_bind p f = (r, u)" by fastforce
  have u: "tab u = tab t" using p assms(3,4) by (cases p; cases "fst p") (auto, metis snd_conv)
  have c: "covers b (C(e_inode e := C (e_inode e) + 1)) u" and n: "unat (pt_next_inode u) + k < 2 ^ 64"
    using assms(1,2) covers_cong [OF u] tab_eqD [OF u] by simp_all
  show ?thesis
  proof (cases r)
    case (Ok y)
    then obtain x v where "f x v = (Ok y, u)" using p by auto
    then have "fst y = e" using assms(5) [of x v y] by simp
    then show ?thesis unfolding p created_def using c n Ok by simp
  next
    case (Err x)
    then show ?thesis unfolding p created_def using n covers_weaken [OF c, of C] by simp
  next
    case Panic
    then show ?thesis unfolding p created_def using n covers_weaken [OF c, of C] by simp
  qed
qed

lemma create_reply_fst: "fst (pt_create_reply H args e file s) = Ok y \<Longrightarrow> fst y = e"
  by (auto simp: pt_create_reply_def Let_def split: if_splits)

lemma create_created:
  assumes b: "budget b C (Suc k) s"
  shows "created b C k (pt_create H ctx i name args s)"
proof -
  have bk: "budget b C k t" if "tab t = tab s" for t
    using budget_mono [OF b, of k] budget_cong [OF that] by simp
  have go: "created b C k
      (op_bind (unless_ok (case new of Some f \<Rightarrow> close_fd H f | None \<Rightarrow> id) (do_lookup H i name) t) (\<lambda>e t.
        op_bind (create_open_file H ctx args new e t) (pt_create_reply H args e)))" if t: "tab t = tab s" for new t
  proof -
    obtain r u where look: "do_lookup H i name t = (r, u)" by fastforce
    have B: "budget b C (Suc k) t" using b budget_cong [OF t] by simp
    note L = budget_one_ref [OF B, of e_inode r u]
    have one: "one_ref e_inode t (r, u)" using one_ref_do_lookup [of t H i name] look by simp
    show ?thesis
    proof (cases r)
      case (Ok e)
      have "covers b (C(e_inode e := C (e_inode e) + 1)) u" using L(1) [OF one] Ok by simp
      then have "created b C k (op_bind (create_open_file H ctx args new e u) (pt_create_reply H args e))"
        by (rule created_tail [OF _ L(2) [OF one]])
          (simp_all add: same.P_create_open_file same.P_create_reply create_reply_fst)
      then show ?thesis using look Ok by (simp add: unless_ok_def)
    next
      case (Err x)
      then show ?thesis using look L [OF one] covers_weaken [of b C u C]
        by (auto simp: close_keeps unless_ok_def created_def split: option.split)
    next
      case Panic
      then show ?thesis using look L [OF one] covers_weaken [of b C u C]
        by (auto simp: close_keeps unless_ok_def created_def split: option.split)
    qed
  qed
  show ?thesis unfolding pt_create_def
    by (intro created_bind created_with_file bk go same.P_validate same.P_inode_get same.P_with_creds same.P_create_file_excl)
      simp_all
qed

section \<open>Sessions\<close>

text \<open>Requests that hand out no entry and take none back.\<close>

inductive quiet_call :: "'h host \<Rightarrow> ('c, 'h) lent_ops \<Rightarrow> 'h pt \<Rightarrow> 'h pt \<Rightarrow> bool" for H L where
  q_init: "\<not> cfg_do_import (pt_cfg s) \<Longrightarrow> quiet_call H L s (snd (pt_init H capable s))"
| q_getattr: "quiet_call H L s (snd (pt_getattr H ctx i h s))"
| q_setattr: "quiet_call H L s (snd (pt_setattr H ctx i a h valid s))"
| q_readlink: "quiet_call H L s (snd (pt_readlink H ctx i s))"
| q_unlink: "quiet_call H L s (snd (pt_unlink H ctx i name s))"
| q_rmdir: "quiet_call H L s (snd (pt_rmdir H ctx i name s))"
| q_rename: "quiet_call H L s (snd (pt_rename H ctx i oldname j newname flags s))"
| q_open: "quiet_call H L s (snd (pt_open H ctx i flags fuse_flags s))"
| q_read: "quiet_call H L s (snd (snd (pt_read H L ctx i fh c sz off owner flags s)))"
| q_write: "quiet_call H L s (snd (snd (pt_write H L ctx i fh c sz off owner delayed flags fuse_flags s)))"
| q_flush: "quiet_call H L s (snd (pt_flush H ctx i fh owner' s))"
| q_fsync: "quiet_call H L s (snd (pt_fsync H ctx i datasync fh s))"
| q_fallocate: "quiet_call H L s (snd (pt_fallocate H ctx i fh mode off len s))"
| q_release: "quiet_call H L s (snd (pt_release H ctx i flags fh fl flock owner s))"
| q_statfs: "quiet_call H L s (snd (pt_statfs H ctx i s))"
| q_setxattr: "quiet_call H L s (snd (pt_setxattr H ctx i name val flags s))"
| q_getxattr: "quiet_call H L s (snd (pt_getxattr H ctx i name sz s))"
| q_listxattr: "quiet_call H L s (snd (pt_listxattr H ctx i sz s))"
| q_removexattr: "quiet_call H L s (snd (pt_removexattr H ctx i name s))"
| q_opendir: "quiet_call H L s (snd (pt_opendir H ctx i flags s))"
| q_fsyncdir: "quiet_call H L s (snd (pt_fsyncdir H ctx i datasync fh s))"
| q_releasedir: "quiet_call H L s (snd (pt_releasedir H ctx i flags fh s))"
| q_setupmapping: "quiet_call H L s (snd (snd (pt_setupmapping H L ctx i fh fo len fl' mo c s)))"
| q_removemapping: "quiet_call H L s (snd (snd (pt_removemapping H L ctx i reqs c s)))"
| q_access: "quiet_call H L s (snd (pt_access H ctx i amask s))"
| q_lseek: "quiet_call H L s (snd (pt_lseek H ctx i fh off whence s))"

lemma quiet_tab: "quiet_call H L s s' \<Longrightarrow> tab s' = tab s"
  by (induction rule: quiet_call.induct)
    (simp_all add: same.P_host_methods same.P_fallocate same.P_mapping same.P_setattr same.P_handle_methods same.P_read same.P_write,
      simp add: pt_init_def Let_def tab_def)

text \<open>Requests that answer with one entry.\<close>

inductive entry_call :: "'h host \<Rightarrow> 'h pt \<Rightarrow> entry res \<Rightarrow> 'h pt \<Rightarrow> bool" for H where
  e_lookup: "pt_lookup H ctx i name s = (r, s') \<Longrightarrow> entry_call H s r s'"
| e_mkdir: "pt_mkdir H ctx i name mode umask s = (r, s') \<Longrightarrow> entry_call H s r s'"
| e_mknod: "pt_mknod H ctx i name mode rdev umask s = (r, s') \<Longrightarrow> entry_call H s r s'"
| e_symlink: "pt_symlink H ctx target i name s = (r, s') \<Longrightarrow> entry_call H s r s'"
| e_link: "pt_link H ctx i j name s = (r, s') \<Longrightarrow> entry_call H s r s'"

lemma entry_call_one_ref: "entry_call H s r s' \<Longrightarrow> one_ref e_inode s (r, s')"
  by (induction rule: entry_call.induct) (metis one_ref_methods)+

text \<open>The counters of inode numbers and of references are far from their ends.\<close>

definition within_limits :: "'h pt \<Rightarrow> (u64 \<Rightarrow> nat) \<Rightarrow> bool" where
  "within_limits s C \<longleftrightarrow> unat (pt_next_inode s) < 2 ^ 63 \<and> (\<forall>i. C i < 2 ^ 63)"

fun client_forgets :: "(u64 \<Rightarrow> nat) \<Rightarrow> (u64 \<times> u64) list \<Rightarrow> (u64 \<Rightarrow> nat) option" where
  "client_forgets C [] = Some C"
| "client_forgets C ((i, n) # reqs) =
     (if unat n \<le> C i then client_forgets (C(i := C i - unat n)) reqs else None)"

text \<open>
  A session: a new file system imports its root, and the client sends requests. \<open>session exact s C\<close>:
  the state \<open>s\<close> is reached and the client holds \<open>C i\<close> references to the inode \<open>i\<close>. The client
  gives back no more references than it holds. \<open>exact\<close> tells that no request failed after it had
  taken a reference.
\<close>

inductive session :: "'h host \<Rightarrow> ('c, 'h) lent_ops \<Rightarrow> bool \<Rightarrow> 'h pt \<Rightarrow> (u64 \<Rightarrow> nat) \<Rightarrow> bool" for H L where
  s_import: "pt_new H cfg h = (Ok s, h') \<Longrightarrow> \<not> cfg_use_host_ino cfg \<Longrightarrow> pt_import H s = (Ok (), s') \<Longrightarrow>
    session H L True s' (\<lambda>i. 0)"
| s_init: "pt_new H cfg h = (Ok s, h') \<Longrightarrow> \<not> cfg_use_host_ino cfg \<Longrightarrow> cfg_do_import cfg \<Longrightarrow>
    pt_init H capable s = (Ok fso, s') \<Longrightarrow> session H L True s' (\<lambda>i. 0)"
| s_quiet: "session H L exact s C \<Longrightarrow> quiet_call H L s s' \<Longrightarrow> session H L exact s' C"
| s_entry: "session H L exact s C \<Longrightarrow> within_limits s C \<Longrightarrow> entry_call H s r s' \<Longrightarrow>
    session H L exact s' (client_gets C (res_map e_inode r))"
| s_create: "session H L exact s C \<Longrightarrow> within_limits s C \<Longrightarrow> pt_create H ctx i name args s = (r, s') \<Longrightarrow>
    exact' = (exact \<and> (is_ok r \<or> pt_store s' = pt_store s)) \<Longrightarrow>
    session H L exact' s' (client_gets C (res_map (e_inode \<circ> fst) r))"
| s_forget: "session H L exact s C \<Longrightarrow> unat n \<le> C i \<Longrightarrow>
    session H L exact (pt_forget H ctx i n s) (C(i := C i - unat n))"
| s_batch_forget: "session H L exact s C \<Longrightarrow> client_forgets C reqs = Some C' \<Longrightarrow>
    session H L exact (pt_batch_forget H ctx reqs s) C'"
| s_readdir: "session H L exact s C \<Longrightarrow> within_limits s C \<Longrightarrow>
    session H L exact (snd (snd (pt_readdir H ctx i fh sz off add (c :: 'c) s))) C"
| s_readdirplus: "session H L exact s C \<Longrightarrow> within_limits s C \<Longrightarrow>
    pt_readdirplus H ctx i fh sz off (logged addp) (c :: 'c, []) s = (r, (c', delivered), s') \<Longrightarrow>
    exact' = (exact \<and> (\<forall>de e c. is_ok (fst (addp de e c)))) \<Longrightarrow>
    session H L exact' s' (\<lambda>i. C i + count_list delivered i)"

lemma limits_budget:
  assumes "covers b C s" and "within_limits s C" and "k \<le> 2 ^ 63"
  shows "budget b C k s"
  using assms unfolding budget_def within_limits_def by (auto intro: less_le_trans [OF add_less_le_mono])

lemma new_config_simps [simp]:
  "cfg_use_host_ino (new_config cfg) = cfg_use_host_ino cfg" "cfg_do_import (new_config cfg) = cfg_do_import cfg"
  by (simp_all add: new_config_def Let_def)

lemma new_pt: "pt_new H cfg h = (Ok s, h') \<Longrightarrow> \<not> cfg_use_host_ino cfg \<Longrightarrow>
  tab s = (inode_store_default, ROOT_ID + 1, pt_cfg s) \<and> \<not> cfg_use_host_ino (pt_cfg s) \<and> cfg_do_import (pt_cfg s) = cfg_do_import cfg"
  by (auto simp: pt_new_def new_state_def tab_def)

lemma import_covers:
  assumes new: "tab s = (inode_store_default, ROOT_ID + 1, cfg)" and "\<not> cfg_use_host_ino cfg"
    and imp: "pt_import H s = (Ok (), s')"
  shows "covers True (\<lambda>i. 0) s'"
proof -
  let ?body = "\<lambda>st handle t. (Ok (), inode_insert H
     \<lparr>id_inode = ROOT_ID, id_handle = handle, id_id = inode_id_from_stat st, id_refcount = 2, id_mode = st_mode (sx_st st)\<rparr>
     (t\<lparr>pt_host := h_umask H 0 (pt_host t)\<rparr>))"
  obtain fd ho st t where o: "open_file_and_handle H AT_FDCWD (cfg_root_dir (pt_cfg s)) s = (Ok (fd, ho, st), t)"
    and w: "with_new_handle H fd ho (?body st) t = (Ok (), s')"
    using imp by (auto simp: pt_import_def split: if_splits)
  have t: "tab t = tab s" using same.P_open_file_and_handle [OF refl] o by (metis snd_conv)
  from w show ?thesis
  proof (cases rule: with_new_handle_tab)
    case (run ih u u')
    let ?d = "\<lparr>id_inode = ROOT_ID, id_handle = ih, id_id = inode_id_from_stat st, id_refcount = 2, id_mode = st_mode (sx_st st)\<rparr>"
    have "tab u = (inode_store_default, ROOT_ID + 1, cfg)" using run(2) t new by simp
    then have u: "pt_store u = inode_store_default" "pt_next_inode u = ROOT_ID + 1" "pt_cfg u = cfg" by (simp_all add: tab_def)
    have "tab s' = (store_insert ?d inode_store_default, ROOT_ID + 1, cfg)"
      using run(3,4) u by (auto simp: inode_insert_def)
    then show ?thesis using assms(2)
      by (auto simp: covers_def pt_wf_def tab_def tab_wf.simps store_insert_def inode_store_default_def store_refs_def ROOT_ID_def
          split: option.splits if_splits)
  qed simp
qed

lemma covers_batch_forget:
  "covers b C s \<Longrightarrow> client_forgets C reqs = Some C' \<Longrightarrow> covers b C' (pt_batch_forget H ctx reqs s)"
proof (induction reqs arbitrary: C s)
  case (Cons a reqs)
  then show ?case using covers_forget [of b C s "snd a" "fst a" H]
    by (cases a) (auto simp: pt_batch_forget_def split: if_splits)
qed (simp add: pt_batch_forget_def)

theorem session_covers: "session H L exact s C \<Longrightarrow> getdents_bounded H \<Longrightarrow> covers exact C s"
proof (induction rule: session.induct)
  case (s_import cfg h s h' s')
  then show ?case using new_pt [of H cfg h s h'] import_covers by blast
next
  case (s_init cfg h s h' capable fso s')
  then obtain t where "pt_import H s = (Ok (), t)" "tab s' = tab t"
    using new_pt [of H cfg h s h'] by (auto simp: pt_init_def Let_def tab_def)
  then show ?case using new_pt [OF s_init(1,2)] import_covers covers_cong by metis
next
  case (s_quiet exact s C s')
  then show ?case using quiet_tab covers_cong by metis
next
  case (s_entry exact s C r s')
  then show ?case using budget_one_ref(1) [OF limits_budget entry_call_one_ref, of exact C s 0] by simp
next
  case (s_create exact s C ctx i name args r s' exact')
  then have cov: "covers exact C s" and new: "created exact C 0 (r, s')"
    using create_created [OF limits_budget, of exact C s 0 H ctx i name args] by simp_all
  show ?case
  proof (cases r)
    case (Err e)
    then show ?thesis using cov new s_create by (auto simp: created_def covers_def)
  next
    case Panic
    then show ?thesis using cov new s_create by (auto simp: created_def covers_def)
  next
    case (Ok y)
    then show ?thesis using new s_create(4) by (simp add: created_def fun_upd_def)
  qed
next
  case (s_forget exact s C n i ctx)
  then show ?case using covers_forget [of exact C s n i H] by (simp add: pt_forget_def fun_upd_def)
next
  case (s_batch_forget exact s C reqs C' ctx)
  then show ?case by (simp add: covers_batch_forget)
next
  case (s_readdir exact s C ctx i fh sz off add c)
  then have start: "budget exact C (2 ^ 32) s" by (intro limits_budget) simp_all
  have "budget exact C 0 (snd (snd (pt_do_readdir H i fh sz off (readdir_entry H i add) (c, s))))"
    by (rule do_readdir_budget [where I = "\<lambda>k t. budget exact C k (snd t)"])
      (use s_readdir.prems start readdir_entry_budget in \<open>auto intro: budget_mono budget_keep\<close>)
  then show ?case using s_readdir.IH s_readdir.prems by (simp add: pt_readdir_def budget_def)
next
  case (s_readdirplus exact s C ctx i fh sz off addp c r c' delivered s' exact')
  then have "covers exact' C s" using covers_weaken [of exact C s C] by (auto simp: covers_def)
  then have "log_budget exact' C (2 ^ 32) ((c, []), s)"
    using s_readdirplus(2) by (simp add: log_budget_def limits_budget)
  then have "log_budget exact' C 0 (snd (pt_do_readdir H i fh sz off (readdirplus_entry H i (logged addp)) ((c, []), s)))"
    by (rule do_readdir_budget [where I = "log_budget exact' C", rotated -1])
      (use s_readdirplus(4,6) in \<open>auto simp: log_budget_def intro: budget_mono budget_keep readdirplus_entry_budget [unfolded log_budget_def]\<close>)
  then show ?case
    using s_readdirplus(3) \<open>covers exact' C s\<close> by (auto simp: pt_readdirplus_def log_budget_def budget_def split: if_splits)
qed

section \<open>No reference is lost\<close>

text \<open>
  (C1) A session of a client with the passthrough file system, configured to allocate inode numbers
  itself (\<^verbatim>\<open>use_host_ino\<close> off, the default). For every inode, the file system holds at least as many
  references as the client: in particular an inode the client refers to is in the table and every
  request that names it finds it. As long as no request fails after it has taken a reference, the
  file system holds exactly the references of the client, for every inode but the root, which
  keeps those of the import: nothing else is kept that the client has given back. The client gives
  back no more than it holds, the counts and the allocated numbers stay below half of their range,
  and the host fills no more of a buffer with directory entries than it has. With \<^verbatim>\<open>use_host_ino\<close> on and file handles the property fails (\<open>reused_host_ino_resets_count\<close>).
\<close>

theorem session_keeps_references:
  assumes "session H L exact s C" and "getdents_bounded H"
  shows "(\<forall>i. C i \<le> refs s i) \<and> (\<forall>i. 0 < C i \<longrightarrow> (\<exists>d. inode_get i s = (Ok d, s) \<and> id_inode d = i)) \<and>
    (exact \<longrightarrow> (\<forall>i. i \<noteq> ROOT_ID \<longrightarrow> refs s i = C i))"
proof -
  have cov: "covers exact C s" by (rule session_covers [OF assms])
  have "\<exists>d. inode_get i s = (Ok d, s) \<and> id_inode d = i" if "0 < C i" for i
  proof -
    have "0 < refs s i" using cov that by (auto simp: covers_def intro: less_le_trans)
    then obtain d where "is_data (pt_store s) i = Some d" by (auto simp: store_refs_def split: option.splits)
    then show ?thesis using cov by (auto simp: covers_def pt_wf_def tab_def tab_wf.simps inode_get_def map_get_def store_get_def)
  qed
  then show ?thesis using cov by (simp add: covers_def)
qed

text \<open>
  A small host: its state is the list of the names that were opened, a descriptor is a position
  in it, and there are two files, the directory with inode number 1 and the file \<open>a\<close> in it.
\<close>

definition sample_statx :: "cname \<Rightarrow> statx_st" where
  "sample_statx name =
     \<lparr>stx_mask = 0x1fff, stx_blksize = 4096, stx_nlink = 1, stx_uid = 0, stx_gid = 0,
      stx_mode = (if name = ''a'' then 0x81a4 else 0x41ed), stx_ino = (if name = ''a'' then 2 else 1),
      stx_size = 8, stx_blocks = 1, stx_atime = (0, 0), stx_mtime = (0, 0), stx_ctime = (0, 0),
      stx_rdev_major = 0, stx_rdev_minor = 0, stx_dev_major = 0, stx_dev_minor = 1, stx_mnt_id = 7\<rparr>"

definition sample_host :: "cname list host" where
  "sample_host =
     \<lparr>h_openat = (\<lambda>dir name flags mode h. (Inr (int (length h)), h @ [name])),
      h_open = (\<lambda>p flags h. (Inl ENOENT, h)), h_close = (\<lambda>fd h. (Inr (), h)), h_dup = (\<lambda>fd h. (Inl EINVAL, h)),
      h_statx = (\<lambda>fd p h. (Inr (sample_statx (h ! nat fd)), h)), h_makedev = (\<lambda>a b. ucast b),
      h_fstatat = (\<lambda>fd p h. (Inr (stat64_zeroed\<lparr>st_size := 8\<rparr>), h)), h_fstatvfs = (\<lambda>fd h. (Inr statvfs64_zeroed, h)),
      h_name_to_handle = (\<lambda>fd p n h. (Inl (EOPNOTSUPP, 0), h)), h_open_by_handle = (\<lambda>m t bs flags h. (Inl EINVAL, h)),
      h_mountinfo_open = (\<lambda>h. (Inr (int (length h)), h @ [''mountinfo''])), h_mountinfo_read = (\<lambda>h. (Ok [], h)),
      h_umask = (\<lambda>m h. h), h_readlinkat = (\<lambda>fd p n h. (Inl EINVAL, h)), h_lseek = (\<lambda>fd off w h. (Inr off, h)),
      h_getdents = (\<lambda>fd n h. (Inr [], h)), h_fcntl_setfl = (\<lambda>fd flags h. (Inr (), h)),
      h_unlinkat = (\<lambda>fd n flags h. (Inr (), h)), h_mkdirat = (\<lambda>fd n m h. (Inr (), h)),
      h_mknodat = (\<lambda>fd n m r h. (Inr (), h)), h_symlinkat = (\<lambda>l fd n h. (Inr (), h)),
      h_linkat = (\<lambda>fd g n h. (Inr (), h)), h_renameat2 = (\<lambda>fd n g m flags h. (Inr (), h)),
      h_fchmod = (\<lambda>fd m h. (Inr (), h)), h_fchmodat = (\<lambda>fd n m h. (Inr (), h)), h_fchownat = (\<lambda>fd u g h. (Inr (), h)),
      h_ftruncate = (\<lambda>fd n h. (Inr (), h)), h_futimens = (\<lambda>fd t h. (Inr (), h)), h_utimensat = (\<lambda>fd n t h. (Inr (), h)),
      h_fsync = (\<lambda>fd h. (Inr (), h)), h_fdatasync = (\<lambda>fd h. (Inr (), h)), h_fallocate = (\<lambda>fd m a b h. (Inr (), h)),
      h_setxattr = (\<lambda>p n v flags h. (Inr (), h)), h_getxattr = (\<lambda>p n k h. (Inr (0, []), h)),
      h_listxattr = (\<lambda>p k h. (Inr (0, []), h)), h_removexattr = (\<lambda>p n h. (Inr (), h)),
      h_setresuid = (\<lambda>u h. (Inr (), h)), h_setresgid = (\<lambda>g h. (Inr (), h)), h_has_cap_fsetid = (\<lambda>h. (Inr True, h)),
      h_drop_cap_fsetid = (\<lambda>h. (Inr (), h)), h_raise_cap_fsetid = (\<lambda>h. (Inr (), h))\<rparr>"

definition sample_lent :: "(unit, cname list) lent_ops" where
  "sample_lent =
     \<lparr>l_write_from = (\<lambda>fd n off c h. (Ok 0, c, h)), l_read_to = (\<lambda>fd n off c h. (Ok 0, c, h)),
      l_map = (\<lambda>a b n flags fd c h. (Ok (), c, h)), l_unmap = (\<lambda>reqs c h. (Ok (), c, h))\<rparr>"

definition sample_new :: "cname list pt" where
  "sample_new = new_state pt_config_default 0 [''/proc/self/fd'', ''mountinfo'']"

definition sample_imported :: "cname list pt" where
  "sample_imported = snd (pt_import sample_host sample_new)"

definition sample_looked_up :: "cname list pt" where
  "sample_looked_up = snd (pt_lookup sample_host context_default ROOT_ID ''a'' sample_imported)"

lemma sample_bounded: "getdents_bounded sample_host"
  by (simp add: getdents_bounded_def sample_host_def)

lemma sample_new_eq: "pt_new sample_host pt_config_default [] = (Ok sample_new, [''/proc/self/fd'', ''mountinfo''])"
  by (simp add: pt_new_def sample_new_def new_config_def pt_config_default_def openat_def syscall_def sample_host_def unless_ok_def Let_def)

lemma sample_import_ok: "fst (pt_import sample_host sample_new) = Ok ()"
  by code_simp

lemma sample_lookup_ok: "res_map e_inode (fst (pt_lookup sample_host context_default ROOT_ID ''a'' sample_imported)) = Ok 2"
  by code_simp

lemma sample_session: "session sample_host sample_lent True sample_looked_up ((\<lambda>i. 0)(2 := 1))"
proof -
  let ?C = "\<lambda>i::u64. 0::nat"
  have imp: "session sample_host sample_lent True sample_imported ?C"
  proof (rule s_import [OF sample_new_eq])
    show "\<not> cfg_use_host_ino pt_config_default" by (simp add: pt_config_default_def)
    show "pt_import sample_host sample_new = (Ok (), sample_imported)"
      using sample_import_ok by (metis sample_imported_def prod.collapse)
  qed
  have "pt_next_inode sample_imported = 2" by code_simp
  then have lim: "within_limits sample_imported ?C" by (simp add: within_limits_def)
  obtain e where e: "pt_lookup sample_host context_default ROOT_ID ''a'' sample_imported = (Ok e, sample_looked_up)" and "e_inode e = 2"
    using sample_lookup_ok by (auto simp: sample_looked_up_def prod_eq_iff)
  then show ?thesis using s_entry [OF imp lim e_lookup [OF e]] by simp
qed

theorem session_keeps_references_witness:
  "\<exists>s C. session sample_host sample_lent True s C \<and> getdents_bounded sample_host \<and> C 2 = 1 \<and>
     refs s 2 = 1 \<and> (\<exists>d. inode_get 2 s = (Ok d, s) \<and> id_inode d = 2)"
  using session_keeps_references [OF sample_session sample_bounded] sample_session sample_bounded
  by (intro exI [of _ sample_looked_up] exI [of _ "(\<lambda>i. 0)(2 := 1)"]) (auto simp: ROOT_ID_def)

end
