(* ===== verification/Passthrough_Inv.thy ===== *)
theory Passthrough_Inv
  imports Passthrough_Session
begin

text \<open>
  An invariant of the passthrough file system that every request keeps, for every host and every
  configuration (with \<^verbatim>\<open>use_host_ino\<close> and file handles included): the entries of the inode store
  stand under their own numbers, within what the VFS can carry, with a reference count that is
  not zero; the root is there; and the configuration and the negotiated features are those of
  the start. It is what makes the search loop of \<^verbatim>\<open>do_lookup\<close> end. The last section follows a
  write that the sealing of sizes refuses.
\<close>

section \<open>The invariant\<close>

definition store_inv :: "inode_store \<Rightarrow> bool" where
  "store_inv st \<longleftrightarrow>
     is_data st ROOT_ID \<noteq> None \<and>
     (\<forall>i d. is_data st i = Some d \<longrightarrow> id_inode d = i \<and> i \<le> VFS_MAX_INO \<and> id_refcount d \<noteq> 0)"

definition pt_features :: "'h pt \<Rightarrow> pt_config \<times> rawfd \<times> bool list \<times> duration list" where
  "pt_features s =
     (pt_cfg s, pt_proc_self_fd s,
      [pt_writeback s, pt_no_open s, pt_no_opendir s, pt_killpriv_v2 s, pt_no_readdir s, pt_seal_size s, pt_perfile_dax s],
      [pt_dir_entry_timeout s, pt_dir_attr_timeout s])"

definition inodes_inv :: "pt_config \<times> rawfd \<times> bool list \<times> duration list \<Rightarrow> 'h pt \<Rightarrow> bool" where
  "inodes_inv f s \<longleftrightarrow> store_inv (pt_store s) \<and> pt_features s = f"

lemma pt_features_simps [simp]:
  "pt_features (s\<lparr>pt_host := h\<rparr>) = pt_features s"
  "pt_features (s\<lparr>pt_mounts := m\<rparr>) = pt_features s"
  "pt_features (s\<lparr>pt_handles := hs\<rparr>) = pt_features s"
  "pt_features (s\<lparr>pt_next_handle := n\<rparr>) = pt_features s"
  "pt_features (s\<lparr>pt_store := st\<rparr>) = pt_features s"
  "pt_features (s\<lparr>pt_gen := g\<rparr>) = pt_features s"
  "pt_features (s\<lparr>pt_next_inode := n\<rparr>) = pt_features s"
  by (simp_all add: pt_features_def)

interpretation inv_base: pt_closed_handles "inodes_inv f" for f
  by unfold_locales (auto simp: inodes_inv_def)

text \<open>Nothing but the store and the counters of inodes changes what the search finds.\<close>

interpretation same_store: pt_closed_handles "\<lambda>s'. pt_store s' = st \<and> pt_features s' = f" for st f
  by unfold_locales auto

section \<open>Lookups and forgets keep it\<close>

lemma store_inv_set_ref: "store_inv st \<Longrightarrow> n \<noteq> 0 \<Longrightarrow> store_inv (store_set_ref i n st)"
  by (auto simp: store_inv_def store_set_ref_def split: if_splits)

lemma store_inv_insert:
  "is_data st ROOT_ID \<noteq> None \<or> id_inode d = ROOT_ID \<Longrightarrow>
   (\<forall>i d. is_data st i = Some d \<longrightarrow> id_inode d = i \<and> i \<le> VFS_MAX_INO \<and> id_refcount d \<noteq> 0) \<Longrightarrow>
   id_inode d \<le> VFS_MAX_INO \<Longrightarrow> id_refcount d \<noteq> 0 \<Longrightarrow> store_inv (store_insert d st)"
  by (auto simp: store_inv_def store_insert_def)

lemma store_inv_remove: "store_inv st \<Longrightarrow> i \<noteq> ROOT_ID \<Longrightarrow> store_inv (snd (store_remove i keep (store_set_ref i n st)))"
  by (auto simp: store_inv_def store_remove_def store_set_ref_def Let_def split: option.splits if_splits)

lemma inodes_inv_insert:
  assumes "inodes_inv f s" and "id_inode d \<le> VFS_MAX_INO" and "id_refcount d \<noteq> 0"
  shows "inodes_inv f (inode_insert H d s)"
proof -
  have "store_inv (store_insert d (pt_store s))"
    using assms by (intro store_inv_insert) (simp_all add: inodes_inv_def store_inv_def)
  then have "inodes_inv f (s\<lparr>pt_store := store_insert d (pt_store s)\<rparr>)" using assms(1) by (simp add: inodes_inv_def)
  then show ?thesis unfolding inode_insert_def by (rule inv_base.P_drop_inode_data)
qed

lemma inodes_inv_allocate: "inodes_inv f s \<Longrightarrow> inodes_inv f (snd (allocate_inode k ho s))"
  by (auto simp: allocate_inode_def Let_def inodes_inv_def split: option.split prod.split)

lemma inodes_inv_lookup_locked:
  "inodes_inv f s \<Longrightarrow> get_alt_locked k ho (pt_store s) = None \<Longrightarrow> inodes_inv f (snd (lookup_locked H k ho mode handle s))"
  by (auto simp: lookup_locked_def intro!: inv_base.P_unless_ok inv_base.P_bind inodes_inv_allocate inodes_inv_insert
      inv_base.P_drop_inode_handle)

lemma inodes_inv_lookup: "inodes_inv f s \<Longrightarrow> inodes_inv f (snd (lookup_inode H fd ho st s))"
proof (cases "get_alt_locked (inode_id_from_stat st) ho (pt_store s)")
  case None
  assume inv: "inodes_inv f s"
  show ?thesis
  proof (cases ho)
    case (Some h)
    have "inodes_inv f (snd (lookup_locked H (inode_id_from_stat st) ho mode ih t))"
      if "to_openable_handle H h s = (Ok x, t)" for mode ih x t
      using that inv inv_base.P_to_openable_handle [OF inv, of H h] same_store.P_to_openable_handle [of s "pt_store s" "pt_features s" H h] None
      by (intro inodes_inv_lookup_locked) auto
    with Some None inv show ?thesis
      by (auto simp: lookup_inode_def with_new_handle_def
          intro!: inv_base.P_finally inv_base.P_bind inv_base.P_close_fd inv_base.P_to_openable_handle)
  qed (use None inv in \<open>auto simp: lookup_inode_def with_new_handle_def intro: inodes_inv_lookup_locked\<close>)
next
  case (Some d)
  assume "inodes_inv f s"
  with Some show ?thesis
    by (auto simp: lookup_inode_def intro!: inv_base.P_finally inv_base.P_close_fd)
      (auto simp: inodes_inv_def store_inv_set_ref)
qed

lemma inodes_inv_forget: "inodes_inv f s \<Longrightarrow> inodes_inv f (pt_forget_one H i n s)"
proof (cases "i = ROOT_ID \<or> store_get i (pt_store s) = None")
  case False
  assume inv: "inodes_inv f s"
  have "inodes_inv f (s\<lparr>pt_store := snd (store_remove i keep (store_set_ref i m (pt_store s)))\<rparr>)" for keep m
    using inv False by (auto simp: inodes_inv_def store_inv_remove)
  moreover have "inodes_inv f (s\<lparr>pt_store := store_set_ref i m (pt_store s)\<rparr>)" if "m \<noteq> 0" for m
    using inv that by (auto simp: inodes_inv_def store_inv_set_ref)
  ultimately show ?thesis
    using False by (auto simp: pt_forget_one_def Let_def split: prod.split intro!: inv_base.P_drop_inode_data)
       (metis snd_conv)
qed (auto simp: pt_forget_one_def)

interpretation inv: pt_closed_inodes "inodes_inv f" H for f H
  by unfold_locales (auto intro: inodes_inv_lookup inodes_inv_forget)

section \<open>Sequences of requests\<close>

text \<open>Any number of requests about any inodes, in any order.\<close>

definition requests :: "'h host \<Rightarrow> ('c, 'h) lent_ops \<Rightarrow> 'h pt \<Rightarrow> 'h pt \<Rightarrow> bool" where
  "requests H L = (\<lambda>s s'. \<exists>i. fs_call (pt_fs_ops H L) i s s')\<^sup>*\<^sup>*"

lemma requests_inv: "requests H L s s' \<Longrightarrow> inodes_inv f s \<Longrightarrow> inodes_inv f s'"
  unfolding requests_def by (induction rule: rtranclp_induct) (auto intro: inv.P_call)

lemma inodes_inv_root:
  assumes "pt_store s = inode_store_default \<and> pt_features s = f" and "id_inode d = ROOT_ID" and "id_refcount d \<noteq> 0"
  shows "inodes_inv f (inode_insert H d s)"
proof -
  have "store_inv (store_insert d inode_store_default)"
    using assms(2,3) by (intro store_inv_insert) (simp_all add: inode_store_default_def ROOT_ID_def VFS_MAX_INO_def)
  then have "inodes_inv f (s\<lparr>pt_store := store_insert d (pt_store s)\<rparr>)" using assms(1) by (simp add: inodes_inv_def)
  then show ?thesis unfolding inode_insert_def by (rule inv_base.P_drop_inode_data)
qed

lemma import_inv:
  assumes "pt_new H cfg h = (Ok s0, h')" and "pt_import H s0 = (Ok (), s)"
  shows "inodes_inv (pt_features s0) s"
proof -
  let ?Q = "\<lambda>t. pt_store t = inode_store_default \<and> pt_features t = pt_features s0"
  have s0: "?Q s0" using assms(1) by (auto simp: pt_new_def new_state_def)
  obtain fd ho st t where o: "open_file_and_handle H AT_FDCWD (cfg_root_dir (pt_cfg s0)) s0 = (Ok (fd, ho, st), t)"
    using assms(2) by (auto simp: pt_import_def split: if_splits)
  have t: "?Q t" using same_store.P_open_file_and_handle [OF s0, of H] o by (metis snd_conv)
  let ?ins = "\<lambda>handle s. inode_insert H
     \<lparr>id_inode = ROOT_ID, id_handle = handle, id_id = inode_id_from_stat st, id_refcount = 2, id_mode = st_mode (sx_st st)\<rparr>
     (s\<lparr>pt_host := h_umask H 0 (pt_host s)\<rparr>)"
  have ins: "inodes_inv (pt_features s0) (?ins handle u)" if "?Q u" for handle u
    using that by (intro inodes_inv_root) auto
  show ?thesis
  proof (cases ho)
    case None
    then show ?thesis using assms(2) o ins [OF t] by (auto simp: pt_import_def with_new_handle_def split: if_splits)
  next
    case (Some h)
    obtain m u where u: "to_openable_handle H h t = (Ok m, u)" and s: "s = close_fd H fd (?ins (IHandle h m) u)"
      using assms(2) o Some by (auto simp: pt_import_def with_new_handle_def finally_op_def split: if_splits prod.splits)
    have "?Q u" using same_store.P_to_openable_handle [OF t, of H h] u by simp
    then show ?thesis unfolding s by (intro inv_base.P_close_fd ins)
  qed
qed

lemma get_alt_inv:
  "store_inv st \<Longrightarrow> get_alt_locked k ho st = Some d \<Longrightarrow> id_refcount d \<noteq> 0"
  using get_alt_in [of k ho st d] by (auto simp: store_inv_def)

text \<open>
  (C35) After the import, whatever requests arrive about whatever inodes (any method the
  server calls but \<^verbatim>\<open>init\<close>, \<^verbatim>\<open>destroy\<close> and \<^verbatim>\<open>batch_forget\<close>), on every host and with every configuration: each entry of the inode table stands under its own number, which is one
  the VFS can carry, and has a reference count that is not zero; the root is in the table; and
  the configuration and the negotiated features are as they were. So the search loop of a
  lookup, which retries while it finds a count of zero, ends at the first try.
\<close>

theorem requests_keep_inodes:
  assumes "pt_new H cfg h = (Ok s0, h')" and "pt_import H s0 = (Ok (), s1)" and "requests H L s1 s"
  shows "(\<forall>i d. store_get i (pt_store s) = Some d \<longrightarrow> id_inode d = i \<and> i \<le> VFS_MAX_INO \<and> id_refcount d \<noteq> 0) \<and>
    store_get ROOT_ID (pt_store s) \<noteq> None \<and> pt_features s = pt_features s0 \<and>
    (\<forall>k ho d. get_alt_locked k ho (pt_store s) = Some d \<longrightarrow> id_refcount d \<noteq> 0)"
proof -
  have inv: "store_inv (pt_store s)" "pt_features s = pt_features s0"
    using requests_inv [OF assms(3) import_inv [OF assms(1,2)]] by (simp_all add: inodes_inv_def)
  have "id_refcount d \<noteq> 0" if "get_alt_locked k ho (pt_store s) = Some d" for k ho d
    using get_alt_inv [OF inv(1) that] .
  then show ?thesis using inv by (simp add: store_inv_def store_get_def)
qed


theorem requests_keep_inodes_witness:
  "\<exists>d. requests sample_host sample_lent sample_imported sample_looked_up \<and>
     store_get 2 (pt_store sample_looked_up) = Some d \<and> id_inode d = 2 \<and> id_refcount d \<noteq> 0 \<and>
     pt_features sample_looked_up = pt_features sample_new"
proof -
  have imp: "pt_import sample_host sample_new = (Ok (), sample_imported)"
    using sample_import_ok by (metis sample_imported_def prod.collapse)
  have "fs_call (pt_fs_ops sample_host sample_lent) ROOT_ID sample_imported sample_looked_up"
    using c_lookup [of "pt_fs_ops sample_host sample_lent" ROOT_ID sample_imported context_default "''a''"]
    by (simp add: sample_looked_up_def pt_fs_ops_def)
  then have req: "requests sample_host sample_lent sample_imported sample_looked_up"
    unfolding requests_def by blast
  have "map_option id_inode (store_get 2 (pt_store sample_looked_up)) = Some 2" by code_simp
  then show ?thesis using requests_keep_inodes [OF sample_new_eq imp req] req by auto
qed

section \<open>A refused write\<close>

lemma seal_write_refused:
  assumes "unat sz_f < unat off + unat (n :: u64)" and "unat off + unat n < 2 ^ 64"
  shows "seal_size_check OpWrite sz_f off n mode = Err (Os EPERM)"
proof -
  have "unat (n + off) = unat off + unat n" using assms(2) by (simp add: unat_word_ariths)
  then have "sz_f < n + off" using assms(1) by (simp add: word_less_nat_alt)
  moreover have "checked_add off n \<noteq> None" using assms(2) by (simp add: checked_add_def)
  ultimately show ?thesis by (simp add: seal_size_check_def)
qed

text \<open>
  (C38) With sealed sizes, a write that would extend the file is refused with \<^verbatim>\<open>EPERM\<close>, no byte is
  taken from the request, and the handle stays in the table; but the refusal drops the second
  owner of the descriptor that \<^verbatim>\<open>write\<close> makes with \<^verbatim>\<open>from_raw_fd\<close> before the check, so that the
  descriptor of the handle is closed on the host while the handle still names it.
\<close>

theorem sealed_write_closes_descriptor:
  assumes "pt_seal_size s" and "\<not> pt_no_open s" and "pt_handles s fh = Some d" and "hd_inode d = i" and "hd_flags d = flags"
    and "h_fstatat H (hd_file d) '''' (pt_host s) = (Inr st, h')"
    and "unat (st_size st) < unat off + unat (ucast sz :: u64)" and "unat off + unat (ucast sz :: u64) < 2 ^ 64"
  shows "pt_write H L ctx i fh c sz off owner delayed flags fuse_flags s =
      (Err (Os EPERM), c, s\<lparr>pt_host := close_file H (hd_file d) h'\<rparr>) \<and>
    pt_handles (s\<lparr>pt_host := close_file H (hd_file d) h'\<rparr>) fh = Some d"
  using assms seal_write_refused [OF assms(7,8)]
  by (simp add: pt_write_def pt_op_def get_data_def handles_get_def handle_get_def check_fd_flags_def host_op_def stat_fd_def
      syscall_def unless_ok_def finally_op_def drop_data_def close_fd_def)

definition sample_sealed :: "cname list pt" where
  "sample_sealed = sample_imported\<lparr>pt_seal_size := True, pt_no_open := False,
     pt_handles := [1 \<mapsto> \<lparr>hd_inode = 2, hd_file = 3, hd_flags = 2\<rparr>]\<rparr>"

theorem sealed_write_closes_descriptor_witness:
  "pt_write sample_host sample_lent context_default 2 1 () 1 8 None False 2 0 sample_sealed =
      (Err (Os EPERM), (), sample_sealed\<lparr>pt_host := close_file sample_host 3 (pt_host sample_sealed)\<rparr>) \<and>
   pt_handles (sample_sealed\<lparr>pt_host := close_file sample_host 3 (pt_host sample_sealed)\<rparr>) 1 =
      Some \<lparr>hd_inode = 2, hd_file = 3, hd_flags = 2\<rparr>"
  using sealed_write_closes_descriptor [of sample_sealed 1 "\<lparr>hd_inode = 2, hd_file = 3, hd_flags = 2\<rparr>" 2 2 sample_host
      "stat64_zeroed\<lparr>st_size := 8\<rparr>" "pt_host sample_sealed" 8 1 sample_lent context_default "()" None False 0]
  by (simp add: sample_sealed_def sample_host_def)

end
