(* ===== verification/Mpmc.thy ===== *)
theory Mpmc
  imports Fuse_Types "HOL-Library.Sublist"
begin

text \<open>
  The asynchronous channel of \<^verbatim>\<open>common/mpmc.rs\<close>. \<^verbatim>\<open>send\<close>, \<^verbatim>\<open>recv\<close> and \<^verbatim>\<open>close\<close> are threads: a program
  counter per atomic action of the source (an access to the flag, to the locked queue or to the
  notifier), and one function that makes the next action of a thread, or none when the thread is
  done or suspended in its \<^verbatim>\<open>await\<close>. A run interleaves the threads in any order.

  \<^verbatim>\<open>tokio::sync::Notify\<close> is a parameter (\<open>notify_ops\<close>). What the channel relies on is the
  documented behaviour of its futures, stated as the hypothesis \<open>notify_ok\<close>: an observation
  \<open>view\<close> of the notifier tells the state of each future, the futures that wait in their order,
  and whether a permit is stored, and each operation changes it as documented.
\<close>

section \<open>The notifier\<close>

record ('n, 'w) notify_ops =
  nt_new :: 'n
  nt_notified :: "'n \<Rightarrow> 'w \<times> 'n"
  nt_enable :: "'w \<Rightarrow> 'n \<Rightarrow> 'n"
  nt_poll :: "'w \<Rightarrow> 'n \<Rightarrow> bool \<times> 'n"
  nt_drop :: "'w \<Rightarrow> 'n \<Rightarrow> 'n"
  nt_notify_one :: "'n \<Rightarrow> 'n"
  nt_notify_waiters :: "'n \<Rightarrow> 'n"

text \<open>
  A future is created; enabling it takes the permit or puts it in line; it is notified alone or
  with all others; and it is ready for good once the notification was taken.
\<close>

datatype future = Absent | Created | Waiting | NotifiedOne | NotifiedAll | Ready

record 'w notify_view =
  permit :: bool
  waiting :: "'w list"
  fut :: "'w \<Rightarrow> future"

definition view_notify_one :: "'w notify_view \<Rightarrow> 'w notify_view" where
  "view_notify_one v =
     (case waiting v of
        [] \<Rightarrow> v\<lparr>permit := True\<rparr>
      | w # ws \<Rightarrow> v\<lparr>waiting := ws, fut := (fut v)(w := NotifiedOne)\<rparr>)"

definition view_notify_waiters :: "'w notify_view \<Rightarrow> 'w notify_view" where
  "view_notify_waiters v =
     v\<lparr>waiting := [],
       fut := (\<lambda>w. if fut v w = Waiting \<or> fut v w = Created then NotifiedAll else fut v w)\<rparr>"

definition view_enable :: "'w \<Rightarrow> 'w notify_view \<Rightarrow> 'w notify_view" where
  "view_enable w v =
     (case fut v w of
        Created \<Rightarrow>
          if permit v then v\<lparr>permit := False, fut := (fut v)(w := Ready)\<rparr>
          else v\<lparr>waiting := waiting v @ [w], fut := (fut v)(w := Waiting)\<rparr>
      | NotifiedOne \<Rightarrow> v\<lparr>fut := (fut v)(w := Ready)\<rparr>
      | NotifiedAll \<Rightarrow> v\<lparr>fut := (fut v)(w := Ready)\<rparr>
      | _ \<Rightarrow> v)"

text \<open>A dropped future leaves the line; a notification meant for one future goes to the next.\<close>

definition view_drop :: "'w \<Rightarrow> 'w notify_view \<Rightarrow> 'w notify_view" where
  "view_drop w v =
     (let v' = v\<lparr>waiting := removeAll w (waiting v), fut := (fut v)(w := Absent)\<rparr>
      in if fut v w = NotifiedOne then view_notify_one v' else v')"

definition notify_ok :: "('n, 'w) notify_ops \<Rightarrow> ('n \<Rightarrow> 'w notify_view) \<Rightarrow> bool" where
  "notify_ok nt view \<longleftrightarrow>
     view (nt_new nt) = \<lparr>permit = False, waiting = [], fut = (\<lambda>w. Absent)\<rparr> \<and>
     (\<forall>n w n'. nt_notified nt n = (w, n') \<longrightarrow>
        fut (view n) w = Absent \<and> view n' = (view n)\<lparr>fut := (fut (view n))(w := Created)\<rparr>) \<and>
     (\<forall>n w. view (nt_enable nt w n) = view_enable w (view n)) \<and>
     (\<forall>n w. fst (nt_poll nt w n) \<longleftrightarrow> fut (view_enable w (view n)) w = Ready) \<and>
     (\<forall>n w. view (snd (nt_poll nt w n)) = view_enable w (view n)) \<and>
     (\<forall>n w. view (nt_drop nt w n) = view_drop w (view n)) \<and>
     (\<forall>n. view (nt_notify_one nt n) = view_notify_one (view n)) \<and>
     (\<forall>n. view (nt_notify_waiters nt n) = view_notify_waiters (view n))"

section \<open>The channel and its threads\<close>

record ('n, 't) channel =
  closed :: bool
  notifier :: 'n
  requests_q :: "'t list"

definition channel_new :: "('n, 'w) notify_ops \<Rightarrow> ('n, 't) channel" where
  "channel_new nt = \<lparr>closed = False, notifier = nt_new nt, requests_q = []\<rparr>"

definition try_recv :: "('n, 't) channel \<Rightarrow> 't option \<times> ('n, 't) channel" where
  "try_recv c = (case requests_q c of [] \<Rightarrow> (None, c) | m # ms \<Rightarrow> (Some m, c\<lparr>requests_q := ms\<rparr>))"

definition flush_pending_prefetch_requests :: "('t \<Rightarrow> bool) \<Rightarrow> ('n, 't) channel \<Rightarrow> ('n, 't) channel" where
  "flush_pending_prefetch_requests f c = c\<lparr>requests_q := filter (\<lambda>t. \<not> f t) (requests_q c)\<rparr>"

definition chan_notify_waiters :: "('n, 'w) notify_ops \<Rightarrow> ('n, 't) channel \<Rightarrow> ('n, 't) channel" where
  "chan_notify_waiters nt c = c\<lparr>notifier := nt_notify_waiters nt (notifier c)\<rparr>"

text \<open>
  The places of \<^verbatim>\<open>recv\<close>: before it starts; the future to be enabled; the queue to be tried; the
  flag to be read; suspended; the future to be replaced; the future to be dropped with the
  result (\<open>None\<close> is the error \<^verbatim>\<open>BrokenPipe\<close>); returned; and dropped while it was suspended.
  Replacing the future (\<^verbatim>\<open>future.set\<close>) is one action: the new future is created and the old one,
  which is ready and so has nothing to pass on, is dropped.
\<close>

datatype ('w, 't) thread =
    RecvNew
  | RecvEnable 'w
  | RecvTry 'w
  | RecvClosed 'w
  | RecvAwait 'w
  | RecvReset 'w
  | RecvReturn 'w "'t option"
  | RecvDone "'t option"
  | RecvCancelled
  | SendLoad 't
  | SendPush 't
  | SendNotify
  | SendOk
  | SendErr 't
  | CloseStore
  | CloseNotify
  | CloseDone

fun recv_step :: "('n, 'w) notify_ops \<Rightarrow> ('w, 't) thread \<Rightarrow> ('n, 't) channel \<Rightarrow>
    (('w, 't) thread \<times> ('n, 't) channel) option" where
  "recv_step nt RecvNew c = (case nt_notified nt (notifier c) of (w, n) \<Rightarrow> Some (RecvEnable w, c\<lparr>notifier := n\<rparr>))"
| "recv_step nt (RecvEnable w) c = Some (RecvTry w, c\<lparr>notifier := nt_enable nt w (notifier c)\<rparr>)"
| "recv_step nt (RecvTry w) c =
     (case try_recv c of (Some m, c') \<Rightarrow> Some (RecvReturn w (Some m), c') | (None, c') \<Rightarrow> Some (RecvClosed w, c'))"
| "recv_step nt (RecvClosed w) c = Some (if closed c then RecvReturn w None else RecvAwait w, c)"
| "recv_step nt (RecvAwait w) c =
     (case nt_poll nt w (notifier c) of (True, n) \<Rightarrow> Some (RecvReset w, c\<lparr>notifier := n\<rparr>) | (False, n) \<Rightarrow> None)"
| "recv_step nt (RecvReset w) c =
     (case nt_notified nt (notifier c) of (w', n) \<Rightarrow> Some (RecvEnable w', c\<lparr>notifier := nt_drop nt w n\<rparr>))"
| "recv_step nt (RecvReturn w r) c = Some (RecvDone r, c\<lparr>notifier := nt_drop nt w (notifier c)\<rparr>)"
| "recv_step nt t c = None"

fun send_step :: "('n, 'w) notify_ops \<Rightarrow> ('w, 't) thread \<Rightarrow> ('n, 't) channel \<Rightarrow>
    (('w, 't) thread \<times> ('n, 't) channel) option" where
  "send_step nt (SendLoad m) c = Some (if closed c then SendErr m else SendPush m, c)"
| "send_step nt (SendPush m) c = Some (SendNotify, c\<lparr>requests_q := requests_q c @ [m]\<rparr>)"
| "send_step nt SendNotify c = Some (SendOk, c\<lparr>notifier := nt_notify_one nt (notifier c)\<rparr>)"
| "send_step nt t c = None"

fun close_step :: "('n, 'w) notify_ops \<Rightarrow> ('w, 't) thread \<Rightarrow> ('n, 't) channel \<Rightarrow>
    (('w, 't) thread \<times> ('n, 't) channel) option" where
  "close_step nt CloseStore c = Some (CloseNotify, c\<lparr>closed := True\<rparr>)"
| "close_step nt CloseNotify c = Some (CloseDone, chan_notify_waiters nt c)"
| "close_step nt t c = None"

text \<open>The next action of a thread.\<close>

definition thread_step :: "('n, 'w) notify_ops \<Rightarrow> ('w, 't) thread \<Rightarrow> ('n, 't) channel \<Rightarrow>
    (('w, 't) thread \<times> ('n, 't) channel) option" where
  "thread_step nt t c =
     (case recv_step nt t c of
        Some x \<Rightarrow> Some x
      | None \<Rightarrow> (case send_step nt t c of Some x \<Rightarrow> Some x | None \<Rightarrow> close_step nt t c))"

type_synonym ('n, 'w, 't) system = "('n, 't) channel \<times> ('w, 't) thread list"

text \<open>One action of one of the threads.\<close>

inductive act :: "('n, 'w) notify_ops \<Rightarrow> ('n, 'w, 't) system \<Rightarrow> ('n, 'w, 't) system \<Rightarrow> bool" for nt where
  "i < length ts \<Longrightarrow> thread_step nt (ts ! i) c = Some (t, c') \<Longrightarrow> act nt (c, ts) (c', ts[i := t])"

text \<open>The message an action puts into the queue, and the message a receiver has got.\<close>

fun pushes :: "('w, 't) thread \<Rightarrow> 't list" where
  "pushes (SendPush m) = [m]"
| "pushes t = []"

fun got :: "('w, 't) thread \<Rightarrow> 't list" where
  "got (RecvReturn w r) = (case r of Some m \<Rightarrow> [m] | None \<Rightarrow> [])"
| "got (RecvDone r) = (case r of Some m \<Rightarrow> [m] | None \<Rightarrow> [])"
| "got t = []"

text \<open>
  The log of deliveries has an entry for each message a caller gets, made from what the caller
  holds after the action: \<open>Some i\<close> is the receiver that is thread \<open>i\<close>, and \<open>None\<close> a caller of
  \<^verbatim>\<open>try_recv\<close>.
\<close>

definition delivery :: "nat \<Rightarrow> ('w, 't) thread \<Rightarrow> ('w, 't) thread \<Rightarrow> (nat option \<times> 't) list" where
  "delivery i t t' = (if got t = [] then map (Pair (Some i)) (got t') else [])"

definition try_delivery :: "('n, 't) channel \<Rightarrow> (nat option \<times> 't) list" where
  "try_delivery c = (case fst (try_recv c) of Some m \<Rightarrow> [(None, m)] | None \<Rightarrow> [])"

text \<open>What the log has for one receiver.\<close>

definition delivered_to :: "nat \<Rightarrow> (nat option \<times> 't) list \<Rightarrow> 't list" where
  "delivered_to i ks = map snd (filter (\<lambda>k. fst k = Some i) ks)"

text \<open>
  The states of a channel, with the messages that were put into the queue and the log of
  deliveries, in order: new calls arrive, threads act, a suspended receiver is dropped with
  its future, and other callers take a message, flush messages (which the first flag records) or
  notify all waiters.
\<close>

inductive reach :: "('n, 'w) notify_ops \<Rightarrow> bool \<Rightarrow> ('n, 'w, 't) system \<Rightarrow> 't list \<Rightarrow>
    (nat option \<times> 't) list \<Rightarrow> bool" for nt where
  reach_new: "reach nt False (channel_new nt, []) [] []"
| reach_recv: "reach nt b (c, ts) ps ks \<Longrightarrow> reach nt b (c, ts @ [RecvNew]) ps ks"
| reach_send: "reach nt b (c, ts) ps ks \<Longrightarrow> reach nt b (c, ts @ [SendLoad m]) ps ks"
| reach_close: "reach nt b (c, ts) ps ks \<Longrightarrow> reach nt b (c, ts @ [CloseStore]) ps ks"
| reach_act: "reach nt b (c, ts) ps ks \<Longrightarrow> i < length ts \<Longrightarrow> thread_step nt (ts ! i) c = Some (t, c') \<Longrightarrow>
    reach nt b (c', ts[i := t]) (ps @ pushes (ts ! i)) (ks @ delivery i (ts ! i) t)"
| reach_cancel: "reach nt b (c, ts) ps ks \<Longrightarrow> i < length ts \<Longrightarrow> ts ! i = RecvAwait w \<Longrightarrow>
    reach nt b (c\<lparr>notifier := nt_drop nt w (notifier c)\<rparr>, ts[i := RecvCancelled]) ps ks"
| reach_take: "reach nt b (c, ts) ps ks \<Longrightarrow> reach nt b (snd (try_recv c), ts) ps (ks @ try_delivery c)"
| reach_flush: "reach nt b (c, ts) ps ks \<Longrightarrow> reach nt True (flush_pending_prefetch_requests f c, ts) ps ks"
| reach_notify: "reach nt b (c, ts) ps ks \<Longrightarrow> reach nt b (chan_notify_waiters nt c, ts) ps ks"

section \<open>What a thread does to the view\<close>

type_synonym ('w, 't) vstate = "bool \<times> 'w notify_view \<times> 't list"

definition observe :: "('n \<Rightarrow> 'w notify_view) \<Rightarrow> ('n, 't) channel \<Rightarrow> ('w, 't) vstate" where
  "observe view c = (closed c, view (notifier c), requests_q c)"

inductive vstep :: "('w, 't) thread \<Rightarrow> ('w, 't) vstate \<Rightarrow> ('w, 't) thread \<Rightarrow> ('w, 't) vstate \<Rightarrow> bool" where
  v_new: "fut v w = Absent \<Longrightarrow> vstep RecvNew (cl, v, q) (RecvEnable w) (cl, v\<lparr>fut := (fut v)(w := Created)\<rparr>, q)"
| v_enable: "vstep (RecvEnable w) (cl, v, q) (RecvTry w) (cl, view_enable w v, q)"
| v_take: "vstep (RecvTry w) (cl, v, m # q) (RecvReturn w (Some m)) (cl, v, q)"
| v_empty: "vstep (RecvTry w) (cl, v, []) (RecvClosed w) (cl, v, [])"
| v_closed: "vstep (RecvClosed w) (True, v, q) (RecvReturn w None) (True, v, q)"
| v_open: "vstep (RecvClosed w) (False, v, q) (RecvAwait w) (False, v, q)"
| v_wake: "fut (view_enable w v) w = Ready \<Longrightarrow> vstep (RecvAwait w) (cl, v, q) (RecvReset w) (cl, view_enable w v, q)"
| v_reset: "fut v w' = Absent \<Longrightarrow>
    vstep (RecvReset w) (cl, v, q) (RecvEnable w') (cl, view_drop w (v\<lparr>fut := (fut v)(w' := Created)\<rparr>), q)"
| v_return: "vstep (RecvReturn w r) (cl, v, q) (RecvDone r) (cl, view_drop w v, q)"
| v_refused: "vstep (SendLoad m) (True, v, q) (SendErr m) (True, v, q)"
| v_load: "vstep (SendLoad m) (False, v, q) (SendPush m) (False, v, q)"
| v_push: "vstep (SendPush m) (cl, v, q) SendNotify (cl, v, q @ [m])"
| v_notify: "vstep SendNotify (cl, v, q) SendOk (cl, view_notify_one v, q)"
| v_store: "vstep CloseStore (cl, v, q) CloseNotify (True, v, q)"
| v_waiters: "vstep CloseNotify (cl, v, q) CloseDone (cl, view_notify_waiters v, q)"

lemma notify_okD:
  assumes "notify_ok nt view"
  shows "view (nt_new nt) = \<lparr>permit = False, waiting = [], fut = (\<lambda>w. Absent)\<rparr>"
    and "nt_notified nt n = (w, n') \<Longrightarrow> fut (view n) w = Absent \<and> view n' = (view n)\<lparr>fut := (fut (view n))(w := Created)\<rparr>"
    and "view (nt_enable nt w n) = view_enable w (view n)"
    and "nt_poll nt w n = (b, n') \<Longrightarrow> (b \<longleftrightarrow> fut (view_enable w (view n)) w = Ready) \<and> view n' = view_enable w (view n)"
    and "view (nt_drop nt w n) = view_drop w (view n)"
    and "view (nt_notify_one nt n) = view_notify_one (view n)"
    and "view (nt_notify_waiters nt n) = view_notify_waiters (view n)"
  using assms by (auto simp: notify_ok_def) (metis fst_conv snd_conv)+

lemma thread_step_observed:
  assumes ok: "notify_ok nt view" and step: "thread_step nt t c = Some (t', c')"
  shows "vstep t (observe view c) t' (observe view c')"
proof (cases t)
  case RecvNew
  obtain w n where "nt_notified nt (notifier c) = (w, n)" by fastforce
  with RecvNew step notify_okD(2) [OF ok this] show ?thesis
    by (auto simp: thread_step_def observe_def intro: v_new)
next
  case (RecvAwait w)
  obtain b n where "nt_poll nt w (notifier c) = (b, n)" by fastforce
  with RecvAwait step notify_okD(4) [OF ok this] show ?thesis
    by (cases b) (auto simp: thread_step_def observe_def intro: v_wake)
next
  case (RecvReset w)
  obtain w' n where "nt_notified nt (notifier c) = (w', n)" by fastforce
  with RecvReset step notify_okD(2) [OF ok this] notify_okD(5) [OF ok] show ?thesis
    by (auto simp: thread_step_def observe_def intro: v_reset)
qed (use step notify_okD [OF ok] in \<open>auto simp: thread_step_def observe_def try_recv_def chan_notify_waiters_def
    split: list.splits if_splits intro: vstep.intros\<close>)

section \<open>The invariant\<close>

fun thread_fut :: "('w, 't) thread \<Rightarrow> 'w option" where
  "thread_fut (RecvEnable w) = Some w"
| "thread_fut (RecvTry w) = Some w"
| "thread_fut (RecvClosed w) = Some w"
| "thread_fut (RecvAwait w) = Some w"
| "thread_fut (RecvReset w) = Some w"
| "thread_fut (RecvReturn w r) = Some w"
| "thread_fut t = None"

text \<open>What is known of the future of a thread at its place.\<close>

fun place_ok :: "('w, 't) thread \<Rightarrow> future \<Rightarrow> bool" where
  "place_ok (RecvEnable w) f \<longleftrightarrow> f = Created \<or> f = NotifiedAll"
| "place_ok (RecvReset w) f \<longleftrightarrow> f = Ready"
| "place_ok t f \<longleftrightarrow> f \<in> {Waiting, NotifiedOne, NotifiedAll, Ready}"

definition owned :: "'w notify_view \<Rightarrow> ('w, 't) thread list \<Rightarrow> bool" where
  "owned v ts \<longleftrightarrow>
     (\<forall>i j w. i < length ts \<and> j < length ts \<and> thread_fut (ts ! i) = Some w \<and> thread_fut (ts ! j) = Some w \<longrightarrow> i = j) \<and>
     (\<forall>w. fut v w \<noteq> Absent \<longleftrightarrow> (\<exists>i < length ts. thread_fut (ts ! i) = Some w)) \<and>
     (\<forall>i w. i < length ts \<and> thread_fut (ts ! i) = Some w \<longrightarrow> place_ok (ts ! i) (fut v w))"

definition line_ok :: "'w notify_view \<Rightarrow> bool" where
  "line_ok v \<longleftrightarrow> distinct (waiting v) \<and> (\<forall>w. w \<in> set (waiting v) \<longleftrightarrow> fut v w = Waiting) \<and> (permit v \<longrightarrow> waiting v = [])"

fun token :: "('w, 't) thread \<Rightarrow> nat" where
  "token (RecvEnable w) = 1"
| "token (RecvTry w) = 1"
| "token (RecvReset w) = 1"
| "token SendNotify = 1"
| "token t = 0"

text \<open>A receiver that found the queue empty and has no notification.\<close>

definition armed :: "'w notify_view \<Rightarrow> ('w, 't) thread list \<Rightarrow> bool" where
  "armed v ts \<longleftrightarrow> (\<exists>w. fut v w = Waiting \<and> (RecvClosed w \<in> set ts \<or> RecvAwait w \<in> set ts))"

definition tokens :: "'w notify_view \<Rightarrow> ('w, 't) thread list \<Rightarrow> nat" where
  "tokens v ts = sum_list (map token ts) + card {w. fut v w = NotifiedOne}"

definition chan_inv :: "('w, 't) vstate \<Rightarrow> ('w, 't) thread list \<Rightarrow> bool" where
  "chan_inv s ts \<longleftrightarrow>
     (case s of (cl, v, q) \<Rightarrow>
       owned v ts \<and> line_ok v \<and> (armed v ts \<longrightarrow> length q \<le> tokens v ts) \<and>
       (cl \<longrightarrow> (\<exists>w. fut v w = Waiting \<and> RecvAwait w \<in> set ts) \<longrightarrow> CloseNotify \<in> set ts))"


subsection \<open>Futures and their owners\<close>

text \<open>What a thread may find of its future changed by the others.\<close>

definition later :: "future \<Rightarrow> future \<Rightarrow> bool" where
  "later f f' \<longleftrightarrow> f' = f \<or> (f = Waiting \<and> f' = NotifiedOne) \<or> ((f = Waiting \<or> f = Created) \<and> f' = NotifiedAll)"

lemma later_refl [simp]: "later f f"
  by (simp add: later_def)

lemma later_place: "place_ok t f \<Longrightarrow> later f f' \<Longrightarrow> thread_fut t = Some w \<Longrightarrow> place_ok t f'"
  by (cases t) (auto simp: later_def)

lemma later_Absent: "later f f' \<Longrightarrow> f' = Absent \<longleftrightarrow> f = Absent"
  by (auto simp: later_def)

lemma owned_update:
  assumes own: "owned v ts" and i: "i < length ts"
    and others: "\<And>u. thread_fut (ts ! i) \<noteq> Some u \<Longrightarrow> thread_fut t' \<noteq> Some u \<Longrightarrow> later (fut v u) (fut v' u)"
    and old: "\<And>w. thread_fut (ts ! i) = Some w \<Longrightarrow> thread_fut t' \<noteq> Some w \<Longrightarrow> fut v' w = Absent"
    and new: "\<And>w. thread_fut t' = Some w \<Longrightarrow> place_ok t' (fut v' w) \<and> fut v' w \<noteq> Absent \<and>
      (thread_fut (ts ! i) \<noteq> Some w \<longrightarrow> fut v w = Absent)"
  shows "owned v' (ts[i := t'])"
proof -
  have inj: "i = j" if "j < length ts" "k < length ts" "thread_fut (ts ! j) = Some w" "thread_fut (ts ! k) = Some w" "k = i" for j k w
    using own that unfolding owned_def by blast
  have free: "thread_fut (ts ! j) \<noteq> Some w" if "thread_fut t' = Some w" "j < length ts" "j \<noteq> i" for j w
    using own that new [OF that(1)] i unfolding owned_def by metis
  have "thread_fut (ts[i := t'] ! j) = Some w \<and> thread_fut (ts[i := t'] ! k) = Some w \<longrightarrow> j = k"
    if "j < length ts" "k < length ts" for j k w
  proof (cases "j = i \<or> k = i")
    case True
    then show ?thesis using that free i by (auto simp: nth_list_update)
  next
    case False
    then show ?thesis using own that unfolding owned_def by (simp add: nth_list_update)
  qed
  moreover have "fut v' w \<noteq> Absent \<longleftrightarrow> (\<exists>j < length ts. thread_fut (ts[i := t'] ! j) = Some w)" for w
  proof (cases "thread_fut t' = Some w")
    case True
    then show ?thesis using new [OF True] i by (auto intro: exI [of _ i])
  next
    case False
    show ?thesis
    proof (cases "thread_fut (ts ! i) = Some w")
      case True
      then have "thread_fut (ts ! j) = Some w \<Longrightarrow> j < length ts \<Longrightarrow> j = i" for j using inj i by blast
      then show ?thesis using old [OF True False] False i by (auto simp: nth_list_update split: if_splits)
    next
      case other: False
      have "fut v w \<noteq> Absent \<longleftrightarrow> (\<exists>j < length ts. thread_fut (ts ! j) = Some w)" using own unfolding owned_def by blast
      moreover have "(\<exists>j < length ts. thread_fut (ts[i := t'] ! j) = Some w) \<longleftrightarrow> (\<exists>j < length ts. thread_fut (ts ! j) = Some w)"
        using False other i by (metis nth_list_update_eq nth_list_update_neq)
      ultimately show ?thesis using later_Absent [OF others [OF other False]] by simp
    qed
  qed
  moreover have "place_ok (ts[i := t'] ! j) (fut v' w)" if "j < length ts" "thread_fut (ts[i := t'] ! j) = Some w" for j w
  proof (cases "j = i")
    case False
    then have j: "thread_fut (ts ! j) = Some w" using that by simp
    then have "place_ok (ts ! j) (fut v w)" using own that(1) unfolding owned_def by blast
    moreover have "later (fut v w) (fut v' w)" using False j that(1) inj i free by (intro others) blast+
    ultimately show ?thesis using False j later_place by simp
  qed (use that i new in simp)
  ultimately show ?thesis unfolding owned_def by auto
qed


lemma owned_place: "owned v ts \<Longrightarrow> i < length ts \<Longrightarrow> thread_fut (ts ! i) = Some w \<Longrightarrow> place_ok (ts ! i) (fut v w) \<and> fut v w \<noteq> Absent"
  unfolding owned_def by blast

lemma owned_same:
  assumes own: "owned v ts" and i: "i < length ts" and "thread_fut t' = thread_fut (ts ! i)"
    and place: "\<And>f. place_ok (ts ! i) f \<Longrightarrow> place_ok t' f"
  shows "owned v (ts[i := t'])"
  using own i
proof (rule owned_update)
  fix w
  assume "thread_fut t' = Some w"
  then show "place_ok t' (fut v w) \<and> fut v w \<noteq> Absent \<and> (thread_fut (ts ! i) \<noteq> Some w \<longrightarrow> fut v w = Absent)"
    using owned_place [OF own i, of w] place assms(3) by simp
qed (use assms(3) in simp_all)

lemma line_hd: "line_ok v \<Longrightarrow> waiting v = w # ws \<Longrightarrow> fut v w = Waiting"
  by (auto simp: line_ok_def)

lemma later_notify_one: "line_ok v \<Longrightarrow> later (fut v u) (fut (view_notify_one v) u)"
  by (auto simp: view_notify_one_def later_def split: list.split dest: line_hd)

lemma line_notify_one: "line_ok v \<Longrightarrow> line_ok (view_notify_one v)"
  by (cases "waiting v") (auto simp: view_notify_one_def line_ok_def)

lemma line_remove:
  "line_ok v \<Longrightarrow> f \<noteq> Waiting \<Longrightarrow> line_ok (v\<lparr>waiting := removeAll w (waiting v), fut := (fut v)(w := f)\<rparr>)"
  by (auto simp: line_ok_def distinct_removeAll)

lemma line_drop: "line_ok v \<Longrightarrow> line_ok (view_drop w v)"
  by (auto simp: view_drop_def Let_def intro!: line_notify_one line_remove)

lemma fut_drop_self: "line_ok v \<Longrightarrow> fut (view_drop w v) w = Absent"
  using later_notify_one [OF line_remove, of v Absent w w] by (auto simp: view_drop_def Let_def later_def)

lemma later_drop: "line_ok v \<Longrightarrow> u \<noteq> w \<Longrightarrow> later (fut v u) (fut (view_drop w v) u)"
  using later_notify_one [OF line_remove, of v Absent w u] by (auto simp: view_drop_def Let_def)

lemma line_create: "line_ok v \<Longrightarrow> fut v w = Absent \<Longrightarrow> line_ok (v\<lparr>fut := (fut v)(w := Created)\<rparr>)"
  by (auto simp: line_ok_def)

lemma line_enable: "line_ok v \<Longrightarrow> line_ok (view_enable w v)"
  by (auto simp: view_enable_def line_ok_def split: future.split)

lemma fut_enable_other [simp]: "u \<noteq> w \<Longrightarrow> fut (view_enable w v) u = fut v u"
  by (auto simp: view_enable_def split: future.split)

lemma fut_enable_self: "fut v w \<noteq> Absent \<Longrightarrow> fut (view_enable w v) w \<in> {Waiting, Ready}"
  by (cases "fut v w") (auto simp: view_enable_def)

lemma line_waiters: "line_ok v \<Longrightarrow> line_ok (view_notify_waiters v)"
  by (auto simp: view_notify_waiters_def line_ok_def)

lemma later_waiters: "later (fut v u) (fut (view_notify_waiters v) u)"
  by (auto simp: view_notify_waiters_def later_def)

lemma vstep_owned:
  assumes "vstep t (cl, v, q) t' (cl', v', q')" and own: "owned v ts" and line: "line_ok v"
    and i: "i < length ts" "ts ! i = t"
  shows "owned v' (ts[i := t']) \<and> line_ok v'"
  using assms(1)
proof cases
  case (v_new w)
  then show ?thesis using line i own by (intro conjI owned_update [OF own i(1)]) (auto intro!: line_create split: if_splits)
next
  case (v_enable w)
  then have "fut v w \<noteq> Absent" using owned_place [OF own i(1), of w] i by simp
  then show ?thesis using v_enable line i own fut_enable_self [of v w] by (intro conjI owned_update [OF own i(1)]) (auto intro: line_enable)
next
  case (v_wake w)
  then show ?thesis using line i own by (intro conjI owned_update [OF own i(1)]) (auto intro: line_enable)
next
  case (v_reset w' w)
  let ?v = "v\<lparr>fut := (fut v)(w' := Created)\<rparr>"
  have ww: "w \<noteq> w'" using owned_place [OF own i(1), of w] v_reset i by auto
  have l: "line_ok ?v" using line v_reset by (simp add: line_create)
  have "fut ?v w = Ready" using owned_place [OF own i(1), of w] v_reset i ww by auto
  then have "fut (view_drop w ?v) = (fut ?v)(w := Absent)" by (auto simp: view_drop_def)
  then show ?thesis using v_reset i own ww line_drop [OF l] by (intro conjI owned_update [OF own i(1)]) (auto split: if_splits)
next
  case (v_return w r)
  then show ?thesis using line i own by (intro conjI owned_update [OF own i(1)]) (auto intro: line_drop later_drop fut_drop_self)
next
  case v_notify
  then show ?thesis using line i own by (intro conjI owned_update [OF own i(1)]) (auto intro: line_notify_one later_notify_one)
next
  case v_waiters
  then show ?thesis using line i own by (intro conjI owned_update [OF own i(1)]) (auto intro: line_waiters later_waiters)
qed (use line i in \<open>auto intro!: owned_same [OF own i(1)]\<close>)


text \<open>The other futures only get notified.\<close>

lemma vstep_later:
  assumes "vstep t (cl, v, q) t' (cl', v', q')" and "line_ok v" and "thread_fut t \<noteq> Some u" and "thread_fut t' \<noteq> Some u"
  shows "later (fut v u) (fut v' u)"
  using assms(1)
proof cases
  case (v_reset w' w)
  with assms have "later (fut (v\<lparr>fut := (fut v)(w' := Created)\<rparr>) u) (fut v' u)"
    by (simp only:) (rule later_drop, auto intro: line_create)
  with v_reset assms(4) show ?thesis by simp
qed (use assms in \<open>auto intro: later_drop later_notify_one later_waiters\<close>)

subsection \<open>Tokens\<close>

lemma sum_list_update_nat:
  fixes f :: "'a \<Rightarrow> nat"
  shows "i < length ts \<Longrightarrow> sum_list (map f (ts[i := t'])) + f (ts ! i) = sum_list (map f ts) + f t'"
proof (induction ts arbitrary: i)
  case (Cons x ts)
  then show ?case by (cases i) auto
qed simp

definition singled :: "'w notify_view \<Rightarrow> 'w set" where
  "singled v = {w. fut v w = NotifiedOne}"

lemma owned_finite_futures: "owned v ts \<Longrightarrow> finite {w. fut v w \<noteq> Absent}"
proof -
  assume own: "owned v ts"
  have "Some w \<in> thread_fut ` set ts" if "w \<in> {w. fut v w \<noteq> Absent}" for w
  proof -
    from that have "fut v w \<noteq> Absent" by simp
    then obtain i where "i < length ts" "thread_fut (ts ! i) = Some w" using own unfolding owned_def by blast
    then show ?thesis by (metis image_eqI nth_mem)
  qed
  then have "Some ` {w. fut v w \<noteq> Absent} \<subseteq> thread_fut ` set ts" by (rule image_subsetI)
  then have "finite (Some ` {w. fut v w \<noteq> Absent})" by (rule finite_subset) simp
  then show ?thesis by (rule finite_imageD) simp
qed

lemma owned_finite: "owned v ts \<Longrightarrow> finite (singled v)"
  by (rule finite_subset [OF _ owned_finite_futures]) (auto simp: singled_def)

lemma singled_notify: "line_ok v \<Longrightarrow> waiting v = w # ws \<Longrightarrow> singled (view_notify_one v) = insert w (singled v) \<and> w \<notin> singled v"
  using line_hd [of v w ws] by (auto simp: singled_def view_notify_one_def)

lemma singled_drop:
  assumes "line_ok v" and fin: "finite (singled v)" and u: "fut v u = Waiting"
  shows "card (singled (view_drop w v)) = card (singled v) \<or> fut v w = Waiting \<and> u = w"
proof (cases "fut v w = NotifiedOne")
  case True
  let ?v = "v\<lparr>waiting := removeAll w (waiting v), fut := (fut v)(w := Absent)\<rparr>"
  have "u \<in> set (waiting ?v)" using assms True by (auto simp: line_ok_def)
  then obtain x xs where x: "waiting ?v = x # xs" by (cases "waiting ?v") auto
  have "singled (view_drop w v) = insert x (singled ?v)" "x \<notin> singled ?v"
    using singled_notify [OF line_remove [OF assms(1), of Absent w], of x xs] x True by (simp_all add: view_drop_def)
  moreover have "singled ?v = singled v - {w}" by (auto simp: singled_def)
  moreover have "w \<in> singled v" using True by (simp add: singled_def)
  ultimately show ?thesis using fin card_Suc_Diff1 [of "singled v" w] by (simp add: card_insert_disjoint)
next
  case False
  then have "singled (view_drop w v) = singled v" by (auto simp: singled_def view_drop_def)
  then show ?thesis by simp
qed

lemma armed_iff:
  "armed v ts \<longleftrightarrow> (\<exists>j < length ts. \<exists>w. fut v w = Waiting \<and> (ts ! j = RecvClosed w \<or> ts ! j = RecvAwait w))"
  by (auto simp: armed_def in_set_conv_nth)

lemma armed_back:
  assumes st: "vstep t (cl, v, q) t' (cl', v', q')" and own: "owned v ts" and line: "line_ok v"
    and i: "i < length ts" "ts ! i = t" and "armed v' (ts[i := t'])"
  shows "q' = [] \<or> (\<exists>j < length ts. \<exists>w. fut v w = Waiting \<and> fut v' w = Waiting \<and>
     (ts ! j = RecvClosed w \<or> ts ! j = RecvAwait w) \<and> (thread_fut t = Some w \<longrightarrow> thread_fut t' = Some w))"
proof -
  obtain j w where j: "j < length ts" "fut v' w = Waiting" "ts[i := t'] ! j = RecvClosed w \<or> ts[i := t'] ! j = RecvAwait w"
    using assms(6) by (auto simp: armed_iff)
  show ?thesis
  proof (cases "j = i")
    case True
    with j i have "t' = RecvClosed w \<or> t' = RecvAwait w" by simp
    with st j(2) i show ?thesis by (auto elim: vstep.cases)
  next
    case False
    then have tj: "ts ! j = RecvClosed w \<or> ts ! j = RecvAwait w" using j(3) by simp
    then have own_j: "thread_fut (ts ! j) = Some w" "thread_fut (ts[i := t'] ! j) = Some w" using False by auto
    have 1: "thread_fut t \<noteq> Some w" using own False j(1) i own_j(1) unfolding owned_def by metis
    have "owned v' (ts[i := t'])" using vstep_owned [OF st own line i] by simp
    then have "thread_fut (ts[i := t'] ! i) \<noteq> Some w"
      using own_j(2) False j(1) i(1) unfolding owned_def by (metis length_list_update)
    then have "thread_fut t' \<noteq> Some w" using i(1) by simp
    then have "later (fut v w) (fut v' w)" using vstep_later [OF st line 1] by simp
    then have "fut v w = Waiting" using j(2) by (auto simp: later_def)
    with j tj 1 show ?thesis by blast
  qed
qed


lemma vstep_tokens:
  assumes st: "vstep t (cl, v, q) t' (cl', v', q')" and own: "owned v ts" and line: "line_ok v"
    and i: "i < length ts" "ts ! i = t" and tok: "armed v ts \<longrightarrow> length q \<le> tokens v ts" and "armed v' (ts[i := t'])"
  shows "length q' \<le> tokens v' (ts[i := t'])"
proof (cases "q' = []")
  case False
  with armed_back [OF st own line i assms(7)] obtain j u where
    u: "j < length ts" "fut v u = Waiting" "fut v' u = Waiting" "ts ! j = RecvClosed u \<or> ts ! j = RecvAwait u"
      "thread_fut t = Some u \<longrightarrow> thread_fut t' = Some u"
    by blast
  then have le: "length q \<le> sum_list (map token ts) + card (singled v)"
    using tok by (auto simp: armed_iff tokens_def singled_def)
  have sum: "sum_list (map token (ts[i := t'])) + token t = sum_list (map token ts) + token t'"
    using sum_list_update_nat [where f = token, OF i(1), of t'] i(2) by simp
  have fin: "finite (singled v)" using own by (rule owned_finite)
  have "length q' + token t + card (singled v) \<le> length q + token t' + card (singled v')"
    using st
  proof cases
    case (v_new w)
    then have "singled v' = singled v" by (auto simp: singled_def split: if_splits)
    with v_new show ?thesis by simp
  next
    case (v_enable w)
    then have "fut v w = Created \<or> fut v w = NotifiedAll" using owned_place [OF own i(1), of w] i by simp
    then have "singled (view_enable w v) = singled v" by (auto simp: singled_def view_enable_def split: if_splits)
    with v_enable show ?thesis by simp
  next
    case (v_wake w)
    have "singled (view_enable w v) = singled v - {w}"
      using v_wake by (cases "fut v w") (auto simp: singled_def view_enable_def split: if_splits)
    with v_wake fin show ?thesis using card_Diff1_le [of "singled v" w] card_Suc_Diff1 [of "singled v" w]
      by (cases "w \<in> singled v") auto
  next
    case (v_reset w' w)
    then have "fut v w = Ready" using owned_place [OF own i(1), of w] i by simp
    then have "singled v' = singled v" using v_reset by (auto simp: singled_def view_drop_def split: if_splits)
    with v_reset show ?thesis by simp
  next
    case (v_return w r)
    then have "card (singled (view_drop w v)) = card (singled v)"
      using singled_drop [OF line fin u(2), of w] u(5) by auto
    with v_return show ?thesis by simp
  next
    case v_notify
    have "u \<in> set (waiting v)" using line u(2) by (simp add: line_ok_def)
    then obtain x xs where "waiting v = x # xs" by (cases "waiting v") auto
    with v_notify singled_notify [OF line this] fin show ?thesis by simp
  next
    case v_waiters
    with u(3) show ?thesis by (simp add: view_notify_waiters_def split: if_splits)
  qed (use False in auto)
  with le sum have "length q' \<le> sum_list (map token (ts[i := t'])) + card (singled v')" by linarith
  then show ?thesis by (simp only: tokens_def singled_def)
qed simp

lemma vstep_closing:
  assumes st: "vstep t (cl, v, q) t' (cl', v', q')" and own: "owned v ts" and line: "line_ok v"
    and i: "i < length ts" "ts ! i = t"
    and inv: "cl \<longrightarrow> (\<exists>w. fut v w = Waiting \<and> RecvAwait w \<in> set ts) \<longrightarrow> CloseNotify \<in> set ts"
    and "cl'" and w: "fut v' w = Waiting" "RecvAwait w \<in> set (ts[i := t'])"
  shows "CloseNotify \<in> set (ts[i := t'])"
proof -
  obtain j where j: "j < length ts" "ts[i := t'] ! j = RecvAwait w"
    using w(2) by (auto simp: in_set_conv_nth)
  show ?thesis
  proof (cases "t' = CloseNotify \<or> t = CloseNotify")
    case True
    then show ?thesis
    proof
      assume "t' = CloseNotify"
      then show ?thesis using i(1) by (simp add: set_update_memI)
    next
      assume "t = CloseNotify"
      with st w(1) show ?thesis by (auto elim!: vstep.cases simp: view_notify_waiters_def split: if_splits)
    qed
  next
    case False
    have cl: "cl" using st False \<open>cl'\<close> by (auto elim: vstep.cases)
    have ji: "j \<noteq> i" using st cl j i by (auto elim: vstep.cases)
    have "armed v' (ts[i := t'])" using w by (auto simp: armed_def)
    have "thread_fut (ts ! j) = Some w" using ji j(2) by simp
    then have 1: "thread_fut t \<noteq> Some w" using own ji j(1) i unfolding owned_def by metis
    have "owned v' (ts[i := t'])" using vstep_owned [OF st own line i] by simp
    then have "thread_fut (ts[i := t'] ! i) \<noteq> Some w"
      using j ji i(1) unfolding owned_def by (metis length_list_update thread_fut.simps(4))
    then have "later (fut v w) (fut v' w)" using vstep_later [OF st line 1] i(1) by simp
    then have "fut v w = Waiting" using w(1) by (auto simp: later_def)
    moreover have "RecvAwait w \<in> set ts" using ji j by (metis nth_list_update_neq nth_mem)
    ultimately have "CloseNotify \<in> set ts" using inv cl by blast
    then obtain k where "k < length ts" "ts ! k = CloseNotify" by (auto simp: in_set_conv_nth)
    then show ?thesis using False i by (metis length_list_update nth_list_update_neq nth_mem)
  qed
qed

lemma vstep_inv:
  assumes "vstep t s t' s'" and "chan_inv s ts" and "i < length ts" and "ts ! i = t"
  shows "chan_inv s' (ts[i := t'])"
proof -
  obtain cl v q cl' v' q' where s: "s = (cl, v, q)" "s' = (cl', v', q')" by (metis prod_cases3)
  note st = assms(1) [unfolded s] and inv = assms(2) [unfolded s chan_inv_def prod.case]
  from inv have own: "owned v ts" and line: "line_ok v" by simp_all
  show ?thesis
    using vstep_owned [OF st own line assms(3,4)] vstep_tokens [OF st own line assms(3,4)]
      vstep_closing [OF st own line assms(3,4)] inv
    by (auto simp: s chan_inv_def)
qed


subsection \<open>Every state of a channel\<close>

lemma armed_append [simp]: "thread_fut t = None \<Longrightarrow> armed v (ts @ [t]) = armed v ts"
  by (auto simp: armed_def)

lemma owned_append:
  assumes "owned v ts" and "thread_fut t = None"
  shows "owned v (ts @ [t])"
proof -
  have "(\<exists>i < length (ts @ [t]). thread_fut ((ts @ [t]) ! i) = Some w) \<longleftrightarrow> (\<exists>i < length ts. thread_fut (ts ! i) = Some w)" for w
    using assms(2) by (auto simp: nth_append less_Suc_eq)
  then show ?thesis using assms by (auto simp: owned_def nth_append less_Suc_eq)
qed

lemma inv_append: "chan_inv s ts \<Longrightarrow> thread_fut t = None \<Longrightarrow> chan_inv s (ts @ [t])"
  by (auto simp: chan_inv_def owned_append tokens_def)

lemma inv_fewer: "chan_inv (cl, v, q) ts \<Longrightarrow> length q' \<le> length q \<Longrightarrow> chan_inv (cl, v, q') ts"
  by (auto simp: chan_inv_def)

lemma owned_frame:
  assumes own: "owned v ts" and later: "\<And>u. later (fut v u) (fut v' u)"
  shows "owned v' ts"
proof -
  have "fut v' w \<noteq> Absent \<longleftrightarrow> fut v w \<noteq> Absent" for w using later_Absent [OF later] by simp
  moreover have "place_ok (ts ! i) (fut v' w)" if "i < length ts" "thread_fut (ts ! i) = Some w" for i w
    using later_place [OF _ later that(2)] owned_place [OF own that] by simp
  ultimately show ?thesis using own by (simp add: owned_def)
qed

lemma inv_waiters: "chan_inv (cl, v, q) ts \<Longrightarrow> chan_inv (cl, view_notify_waiters v, q) ts"
proof -
  assume inv: "chan_inv (cl, v, q) ts"
  have none: "fut (view_notify_waiters v) w \<noteq> Waiting" for w by (simp add: view_notify_waiters_def)
  have "owned (view_notify_waiters v) ts"
    using inv by (auto simp: chan_inv_def intro: owned_frame later_waiters)
  then show ?thesis using inv none by (auto simp: chan_inv_def armed_def line_waiters)
qed

text \<open>
  A receiver that is dropped while it is suspended leaves the notifier as one that returns.
\<close>

lemma inv_swap:
  assumes inv: "chan_inv (cl, v, q) ts" and i: "i < length ts" and "thread_fut t' = thread_fut (ts ! i)"
    and "\<And>f. place_ok (ts ! i) f \<Longrightarrow> place_ok t' f" and tok: "token t' = token (ts ! i)"
    and t': "\<And>w. t' \<noteq> RecvClosed w" "\<And>w. t' \<noteq> RecvAwait w" and "ts ! i \<noteq> CloseNotify"
  shows "chan_inv (cl, v, q) (ts[i := t'])"
proof -
  have "armed v ts" if "armed v (ts[i := t'])"
    using that t' set_update_subset_insert [of ts i t'] by (fastforce simp: armed_def)
  moreover have "RecvAwait w \<in> set ts" if "RecvAwait w \<in> set (ts[i := t'])" for w
    using that t' set_update_subset_insert [of ts i t'] by auto
  moreover have "CloseNotify \<in> set (ts[i := t'])" if "CloseNotify \<in> set ts"
    using that assms(8) i by (metis in_set_conv_nth length_list_update nth_list_update_neq nth_mem)
  moreover have "tokens v (ts[i := t']) = tokens v ts"
    using sum_list_update_nat [where f = token, OF i, of t'] tok by (simp add: tokens_def)
  ultimately show ?thesis
    using inv owned_same [OF _ i assms(3,4)] unfolding chan_inv_def by auto
qed

lemma inv_cancel:
  assumes inv: "chan_inv (cl, v, q) ts" and i: "i < length ts" "ts ! i = RecvAwait w"
  shows "chan_inv (cl, view_drop w v, q) (ts[i := RecvCancelled])"
proof -
  let ?r = "RecvReturn w None"
  have "chan_inv (cl, v, q) (ts[i := ?r])"
    by (rule inv_swap [OF inv i(1)]) (simp_all add: i)
  with v_return have "chan_inv (cl, view_drop w v, q) ((ts[i := ?r])[i := RecvDone None])"
    by (rule vstep_inv) (simp_all add: i)
  then have "chan_inv (cl, view_drop w v, q) (ts[i := RecvDone None])" by simp
  then have "chan_inv (cl, view_drop w v, q) ((ts[i := RecvDone None])[i := RecvCancelled])"
    by (rule inv_swap) (simp_all add: i)
  then show ?thesis by simp
qed

lemma reach_inv:
  assumes ok: "notify_ok nt view"
  shows "reach nt b s ps ks \<Longrightarrow> chan_inv (observe view (fst s)) (snd s)"
proof (induction rule: reach.induct)
  case reach_new
  show ?case
    by (simp add: chan_inv_def observe_def channel_new_def notify_okD [OF ok] owned_def line_ok_def armed_def)
next
  case (reach_act b c ts ps ks i t c')
  then show ?case using thread_step_observed [OF ok reach_act.hyps(3)] by (simp add: vstep_inv)
next
  case (reach_take b c ts ps ks)
  then show ?case by (auto simp: observe_def try_recv_def split: list.split elim: inv_fewer)
next
  case (reach_flush b c ts ps ks f)
  then show ?case by (auto simp: observe_def flush_pending_prefetch_requests_def elim: inv_fewer)
qed (auto simp: observe_def chan_notify_waiters_def notify_okD [OF ok] inv_append inv_waiters inv_cancel)

lemma act_inv:
  assumes ok: "notify_ok nt view" and "act nt s s'" and "chan_inv (observe view (fst s)) (snd s)"
  shows "chan_inv (observe view (fst s')) (snd s')"
  using assms(2)
proof cases
  case (1 i ts c t c')
  with assms(3) thread_step_observed [OF ok 1(4)] show ?thesis by (simp add: vstep_inv)
qed

section \<open>Runs end\<close>

fun closing :: "('w, 't) thread \<Rightarrow> nat" where
  "closing CloseStore = 2"
| "closing CloseNotify = 1"
| "closing t = 0"

fun rank :: "('w, 't) thread \<Rightarrow> nat" where
  "rank RecvNew = 7"
| "rank (RecvEnable w) = 6"
| "rank (RecvTry w) = 5"
| "rank (RecvClosed w) = 4"
| "rank (RecvAwait w) = 3"
| "rank (RecvReset w) = 2"
| "rank (RecvReturn w r) = 2"
| "rank (SendLoad m) = 14"
| "rank (SendPush m) = 13"
| "rank SendNotify = 12"
| "rank t = 0"

text \<open>Futures that make their owner go round once more, and the permit.\<close>

definition hot :: "'w notify_view \<Rightarrow> 'w set" where
  "hot v = {w. fut v w \<in> {NotifiedOne, NotifiedAll, Ready}}"

definition energy :: "'w notify_view \<Rightarrow> nat" where
  "energy v = card (hot v) + (if permit v then 1 else 0)"

definition effort :: "'w notify_view \<Rightarrow> ('w, 't) thread list \<Rightarrow> nat \<times> nat" where
  "effort v ts = (sum_list (map closing ts), sum_list (map rank ts) + 10 * energy v)"

lemma owned_finite_hot: "owned v ts \<Longrightarrow> finite (hot v)"
  by (rule finite_subset [OF _ owned_finite_futures]) (auto simp: hot_def)

lemma energy_notify: "finite (hot v) \<Longrightarrow> energy (view_notify_one v) \<le> energy v + 1"
proof (cases "waiting v")
  case (Cons w ws)
  assume "finite (hot v)"
  moreover have "hot (view_notify_one v) = insert w (hot v)" using Cons by (auto simp: hot_def view_notify_one_def)
  ultimately show ?thesis using Cons by (simp add: energy_def view_notify_one_def card_insert_if)
qed (simp add: energy_def view_notify_one_def hot_def)

lemma energy_drop:
  assumes fin: "finite (hot v)"
  shows "energy (view_drop w v) \<le> energy v" and "fut v w = Ready \<Longrightarrow> energy (view_drop w v) < energy v"
proof -
  let ?v = "v\<lparr>waiting := removeAll w (waiting v), fut := (fut v)(w := Absent)\<rparr>"
  have hot: "hot ?v = hot v - {w}" by (auto simp: hot_def split: if_splits)
  have less: "energy ?v < energy v" if "w \<in> hot v"
    using fin that card_Suc_Diff1 [of "hot v" w] by (simp add: energy_def hot)
  have le: "energy ?v \<le> energy v" using fin by (simp add: energy_def hot card_Diff1_le)
  show "energy (view_drop w v) \<le> energy v"
  proof (cases "fut v w = NotifiedOne")
    case True
    then have "w \<in> hot v" by (simp add: hot_def)
    moreover have "energy (view_notify_one ?v) \<le> energy ?v + 1" using fin hot by (intro energy_notify) simp
    ultimately show ?thesis using True less by (simp add: view_drop_def)
  qed (use le in \<open>simp add: view_drop_def\<close>)
  show "energy (view_drop w v) < energy v" if "fut v w = Ready"
    using less that by (simp add: view_drop_def hot_def)
qed

lemma energy_enable: "finite (hot v) \<Longrightarrow> energy (view_enable w v) \<le> energy v"
proof (cases "fut v w")
  case Created
  assume fin: "finite (hot v)"
  have "hot (v\<lparr>permit := False, fut := (fut v)(w := Ready)\<rparr>) = insert w (hot v)"
    "hot (v\<lparr>waiting := waiting v @ [w], fut := (fut v)(w := Waiting)\<rparr>) = hot v"
    using Created by (auto simp: hot_def split: if_splits)
  then show ?thesis using Created fin by (auto simp: view_enable_def energy_def card_insert_if)
next
  case NotifiedOne
  then have "hot (v\<lparr>fut := (fut v)(w := Ready)\<rparr>) = hot v" by (auto simp: hot_def split: if_splits)
  then show ?thesis using NotifiedOne by (simp add: view_enable_def energy_def)
next
  case NotifiedAll
  then have "hot (v\<lparr>fut := (fut v)(w := Ready)\<rparr>) = hot v" by (auto simp: hot_def split: if_splits)
  then show ?thesis using NotifiedAll by (simp add: view_enable_def energy_def)
qed (simp_all add: view_enable_def)

lemma energy_create: "fut v w = Absent \<Longrightarrow> energy (v\<lparr>fut := (fut v)(w := Created)\<rparr>) = energy v"
proof -
  assume "fut v w = Absent"
  then have "hot (v\<lparr>fut := (fut v)(w := Created)\<rparr>) = hot v" by (auto simp: hot_def split: if_splits)
  then show ?thesis by (simp add: energy_def)
qed

lemma vstep_effort:
  assumes st: "vstep t (cl, v, q) t' (cl', v', q')" and own: "owned v ts" and i: "i < length ts" "ts ! i = t"
  shows "(effort v' (ts[i := t']), effort v ts) \<in> less_than <*lex*> less_than"
proof -
  have fin: "finite (hot v)" using own by (rule owned_finite_hot)
  have "closing t' < closing t \<or> closing t' = closing t \<and> rank t' + 10 * energy v' < rank t + 10 * energy v"
    using st
  proof cases
    case (v_reset w' w)
    let ?v = "v\<lparr>fut := (fut v)(w' := Created)\<rparr>"
    have "fut v w = Ready" using owned_place [OF own i(1), of w] v_reset i by simp
    then have w: "fut ?v w = Ready" using v_reset by auto
    have "hot ?v \<subseteq> hot v" by (auto simp: hot_def split: if_splits)
    then have "energy (view_drop w ?v) < energy ?v" using w fin by (intro energy_drop(2)) (auto intro: finite_subset)
    then show ?thesis using v_reset energy_create [of v w'] by simp
  next
    case (v_enable w)
    then show ?thesis using energy_enable [OF fin, of w] by simp
  next
    case (v_wake w)
    then show ?thesis using energy_enable [OF fin, of w] by simp
  next
    case (v_return w r)
    then show ?thesis using energy_drop(1) [OF fin, of w] by simp
  next
    case v_notify
    then show ?thesis using energy_notify [OF fin] by simp
  qed (auto simp: energy_create)
  then show ?thesis
    using sum_list_update_nat [where f = closing, OF i(1), of t'] sum_list_update_nat [where f = rank, OF i(1), of t'] i(2)
    by (auto simp: effort_def)
qed

lemma act_effort:
  assumes ok: "notify_ok nt view" and "act nt s s'" and inv: "chan_inv (observe view (fst s)) (snd s)"
  shows "(effort (view (notifier (fst s'))) (snd s'), effort (view (notifier (fst s))) (snd s)) \<in> less_than <*lex*> less_than"
  using assms(2)
proof cases
  case (1 i ts c t c')
  with inv show ?thesis
    using vstep_effort [OF thread_step_observed [OF ok 1(4), unfolded observe_def] _ 1(3)]
    by (auto simp: chan_inv_def observe_def)
qed

lemma act_terminates:
  assumes ok: "notify_ok nt view" and inv: "chan_inv (observe view (fst s)) (snd s)"
  shows "\<not> (\<exists>f. f 0 = s \<and> (\<forall>k. act nt (f k) (f (Suc k))))"
proof
  assume "\<exists>f. f 0 = s \<and> (\<forall>k. act nt (f k) (f (Suc k)))"
  then obtain f where f: "f 0 = s" "\<And>k. act nt (f k) (f (Suc k))" by blast
  have inv_k: "chan_inv (observe view (fst (f k))) (snd (f k))" for k
    by (induction k) (use f inv act_inv [OF ok f(2)] in auto)
  let ?e = "\<lambda>k. effort (view (notifier (fst (f k)))) (snd (f k))"
  have "wf (less_than <*lex*> less_than)" by auto
  then obtain k where "(?e (Suc k), ?e k) \<notin> less_than <*lex*> less_than" by (rule wf_no_infinite_down_chainE)
  then show False using act_effort [OF ok f(2) inv_k] by blast
qed

section \<open>Where runs end\<close>

lemma stopped_thread:
  "thread_step nt t c = None \<Longrightarrow> (\<exists>w. t = RecvAwait w) \<or> token t = 0 \<and> thread_fut t = None \<and> t \<noteq> CloseNotify"
  by (cases t; cases "requests_q c") (simp_all add: thread_step_def try_recv_def split: prod.splits)

lemma blocked_threads:
  assumes ok: "notify_ok nt view" and inv: "chan_inv (observe view c) ts" and fin: "\<And>s'. \<not> act nt (c, ts) s'"
    and t: "t \<in> set ts"
  shows "(\<exists>w. t = RecvAwait w \<and> fut (view (notifier c)) w = Waiting) \<or> token t = 0 \<and> thread_fut t = None \<and> t \<noteq> CloseNotify"
proof -
  obtain i where i: "i < length ts" "ts ! i = t" using t by (auto simp: in_set_conv_nth)
  have none: "thread_step nt t c = None"
  proof (cases "thread_step nt t c")
    case (Some x)
    then have "act nt (c, ts) (snd x, ts[i := fst x])" using i by (intro act.intros) simp_all
    with fin show ?thesis by blast
  qed
  show ?thesis
  proof (cases t)
    case (RecvAwait w)
    then have "place_ok t (fut (view (notifier c)) w)" using owned_place [of _ ts i w] inv i by (auto simp: chan_inv_def observe_def)
    moreover obtain b n where p: "nt_poll nt w (notifier c) = (b, n)" by fastforce
    then have "\<not> b" using none RecvAwait by (cases b) (auto simp: thread_step_def)
    then have "fut (view_enable w (view (notifier c))) w \<noteq> Ready" using notify_okD(4) [OF ok p] by simp
    ultimately show ?thesis using RecvAwait by (auto simp: view_enable_def)
  qed (use stopped_thread [OF none] in simp_all)
qed

lemma blocked_empty:
  assumes ok: "notify_ok nt view" and inv: "chan_inv (observe view c) ts" and fin: "\<And>s'. \<not> act nt (c, ts) s'"
    and w: "RecvAwait w \<in> set ts"
  shows "requests_q c = [] \<and> \<not> closed c"
proof -
  let ?v = "view (notifier c)"
  note blocked = blocked_threads [OF ok inv fin]
  have wait: "fut ?v w = Waiting" using blocked [OF w] by auto
  have own: "owned ?v ts" and tok: "armed ?v ts \<longrightarrow> length (requests_q c) \<le> tokens ?v ts"
    and cl: "closed c \<longrightarrow> (\<exists>w. fut ?v w = Waiting \<and> RecvAwait w \<in> set ts) \<longrightarrow> CloseNotify \<in> set ts"
    using inv by (simp_all add: chan_inv_def observe_def)
  have "token t = 0" if "t \<in> set ts" for t using blocked [OF that] by auto
  then have sum: "sum_list (map token ts) = 0" by (simp add: sum_list_eq_0_iff)
  have "fut ?v u \<noteq> NotifiedOne" for u
  proof
    assume u: "fut ?v u = NotifiedOne"
    then have "fut ?v u \<noteq> Absent" by simp
    then obtain i where i: "i < length ts" "thread_fut (ts ! i) = Some u" using own unfolding owned_def by blast
    with blocked [OF nth_mem [OF i(1)]] u show False by auto
  qed
  then have none: "{w. fut ?v w = NotifiedOne} = {}" by simp
  have "armed ?v ts" using wait w by (auto simp: armed_def)
  then have "requests_q c = []" using tok unfolding tokens_def sum none by simp
  moreover have "CloseNotify \<notin> set ts" using blocked [of CloseNotify] by auto
  ultimately show ?thesis using cl wait w by blast
qed

lemma acts_inv:
  "(act nt)\<^sup>*\<^sup>* s s' \<Longrightarrow> notify_ok nt view \<Longrightarrow> chan_inv (observe view (fst s)) (snd s) \<Longrightarrow> chan_inv (observe view (fst s')) (snd s')"
  by (induction rule: rtranclp_induct) (auto intro: act_inv)

section \<open>First in, first out\<close>

lemma thread_step_queue:
  "thread_step nt t c = Some (t', c') \<Longrightarrow> map snd (delivery i t t') @ requests_q c' = requests_q c @ pushes t"
  by (cases t)
    (auto simp: thread_step_def try_recv_def chan_notify_waiters_def delivery_def
      split: prod.splits list.splits if_splits bool.splits option.splits)

lemma thread_step_got:
  "thread_step nt t c = Some (t', c') \<Longrightarrow> got t' = got t @ map snd (delivery i t t')"
  by (cases t)
    (auto simp: thread_step_def try_recv_def delivery_def split: prod.splits list.splits if_splits bool.splits option.splits)

lemma reach_queue:
  "reach nt b s ps ks \<Longrightarrow>
     subseq (map snd ks @ requests_q (fst s)) ps \<and> (\<not> b \<longrightarrow> map snd ks @ requests_q (fst s) = ps)"
proof (induction rule: reach.induct)
  case (reach_act b c ts ps ks i t c')
  then have "map snd (ks @ delivery i (ts ! i) t) @ requests_q c' = (map snd ks @ requests_q c) @ pushes (ts ! i)"
    using thread_step_queue by simp
  moreover have "subseq ((map snd ks @ requests_q c) @ pushes (ts ! i)) (ps @ pushes (ts ! i))"
    using reach_act.IH by (intro list_emb_append_mono) simp_all
  ultimately show ?case using reach_act.IH by (simp del: map_append)
next
  case (reach_take b c ts ps ks)
  then show ?case by (cases "requests_q c") (auto simp: try_recv_def try_delivery_def)
next
  case (reach_flush b c ts ps ks f)
  have "subseq (map snd ks @ filter (\<lambda>t. \<not> f t) (requests_q c)) (map snd ks @ requests_q c)"
    by (intro list_emb_append_mono subseq_filter_left subseq_order.refl)
  with reach_flush show ?case by (auto simp: flush_pending_prefetch_requests_def intro: subseq_order.trans)
qed (auto simp: channel_new_def chan_notify_waiters_def)

lemma delivered_to_append: "delivered_to i (ks @ ks') = delivered_to i ks @ delivered_to i ks'"
  by (simp add: delivered_to_def)

lemma delivered_to_delivery [simp]:
  "delivered_to j (delivery i t t') = (if j = i then map snd (delivery i t t') else [])"
  by (auto simp: delivered_to_def delivery_def comp_def)

lemma delivered_to_try [simp]: "delivered_to j (try_delivery c) = []"
  by (auto simp: delivered_to_def try_delivery_def split: option.split)

lemma reach_delivered:
  "reach nt b s ps ks \<Longrightarrow> delivered_to i ks = (if i < length (snd s) then got (snd s ! i) else [])"
proof (induction rule: reach.induct)
  case (reach_act b c ts ps ks j t c')
  then show ?case using thread_step_got [OF reach_act.hyps(3), of j] by (auto simp: delivered_to_append nth_list_update)
next
  case (reach_cancel b c ts ps ks j w)
  then show ?case by (auto simp: nth_list_update)
qed (auto simp: delivered_to_append nth_append, auto simp: delivered_to_def)

section \<open>A notifier\<close>

text \<open>
  A notifier that numbers its futures and keeps their states in a list behaves as documented: the
  hypothesis on the notifier can be met.
\<close>

type_synonym list_notify = "bool \<times> nat list \<times> future list"

definition fut_of :: "future list \<Rightarrow> nat \<Rightarrow> future" where
  "fut_of fs w = (if w < length fs then fs ! w else Absent)"

definition set_fut :: "nat \<Rightarrow> future \<Rightarrow> future list \<Rightarrow> future list" where
  "set_fut w f fs = (if w < length fs then fs[w := f] else fs @ replicate (w - length fs) Absent @ [f])"

fun list_view :: "list_notify \<Rightarrow> nat notify_view" where
  "list_view (p, ws, fs) = \<lparr>permit = p, waiting = ws, fut = fut_of fs\<rparr>"

fun list_notify_one :: "list_notify \<Rightarrow> list_notify" where
  "list_notify_one (p, [], fs) = (True, [], fs)"
| "list_notify_one (p, w # ws, fs) = (p, ws, set_fut w NotifiedOne fs)"

fun list_enable :: "nat \<Rightarrow> list_notify \<Rightarrow> list_notify" where
  "list_enable w (p, ws, fs) =
     (case fut_of fs w of
        Created \<Rightarrow> if p then (False, ws, set_fut w Ready fs) else (p, ws @ [w], set_fut w Waiting fs)
      | NotifiedOne \<Rightarrow> (p, ws, set_fut w Ready fs)
      | NotifiedAll \<Rightarrow> (p, ws, set_fut w Ready fs)
      | _ \<Rightarrow> (p, ws, fs))"

fun list_drop :: "nat \<Rightarrow> list_notify \<Rightarrow> list_notify" where
  "list_drop w (p, ws, fs) =
     (let n = (p, removeAll w ws, set_fut w Absent fs) in if fut_of fs w = NotifiedOne then list_notify_one n else n)"

definition list_notify :: "(list_notify, nat) notify_ops" where
  "list_notify =
     \<lparr>nt_new = (False, [], []),
      nt_notified = (\<lambda>(p, ws, fs). (length fs, (p, ws, fs @ [Created]))),
      nt_enable = list_enable,
      nt_poll = (\<lambda>w n. (fut (list_view (list_enable w n)) w = Ready, list_enable w n)),
      nt_drop = list_drop,
      nt_notify_one = list_notify_one,
      nt_notify_waiters = (\<lambda>(p, ws, fs). (p, [], map (\<lambda>f. if f = Waiting \<or> f = Created then NotifiedAll else f) fs))\<rparr>"

lemma fut_of_set [simp]: "fut_of (set_fut w f fs) = (fut_of fs)(w := f)"
  by (auto simp: fun_eq_iff fut_of_def set_fut_def nth_append nth_list_update)

lemma list_notify_one_view: "list_view (list_notify_one n) = view_notify_one (list_view n)"
  by (cases n rule: list_notify_one.cases) (auto simp: view_notify_one_def)

lemma list_enable_view: "list_view (list_enable w n) = view_enable w (list_view n)"
  by (cases n) (auto simp: view_enable_def split: future.split)

lemma list_drop_view: "list_view (list_drop w n) = view_drop w (list_view n)"
  by (cases n) (auto simp: view_drop_def Let_def list_notify_one_view)

lemma list_waiters_view:
  "fut_of (map (\<lambda>f. if f = Waiting \<or> f = Created then NotifiedAll else f) fs) w =
     (if fut_of fs w = Waiting \<or> fut_of fs w = Created then NotifiedAll else fut_of fs w)"
  by (simp add: fut_of_def)

lemma list_notified_view: "fut_of (fs @ [Created]) = (fut_of fs)(length fs := Created)"
  by (auto simp: fut_of_def fun_eq_iff nth_append)

lemma list_notify_ok: "notify_ok list_notify list_view"
  by (auto simp: notify_ok_def list_notify_def list_notify_one_view list_enable_view list_drop_view list_waiters_view
      list_notified_view view_notify_waiters_def fun_eq_iff simp del: list_enable.simps list_drop.simps)
    (simp_all add: fut_of_def)

text \<open>A receiver waits on the new channel; then a message is sent.\<close>

lemma list_notify_run:
  "\<exists>c. reach list_notify False (c, [RecvAwait 0, SendNotify]) [5 :: nat] [] \<and> requests_q c = [5]"
proof -
  let ?c = "\<lambda>ws fs q. \<lparr>closed = False, notifier = (False, ws, fs), requests_q = q\<rparr> :: (list_notify, nat) channel"
  note run = thread_step_def list_notify_def try_recv_def set_fut_def fut_of_def delivery_def
  have "reach list_notify False (?c [] [] [], [RecvNew]) [] []"
    using reach_recv [OF reach_new [of list_notify]] by (simp add: channel_new_def list_notify_def)
  from reach_act [OF this, of 0 "RecvEnable 0" "?c [] [Created] []"]
  have "reach list_notify False (?c [] [Created] [], [RecvEnable 0]) [] []" by (simp add: run)
  from reach_act [OF this, of 0 "RecvTry 0" "?c [0] [Waiting] []"]
  have "reach list_notify False (?c [0] [Waiting] [], [RecvTry 0]) [] []" by (simp add: run)
  from reach_act [OF this, of 0 "RecvClosed 0" "?c [0] [Waiting] []"]
  have "reach list_notify False (?c [0] [Waiting] [], [RecvClosed 0]) [] []" by (simp add: run)
  from reach_act [OF this, of 0 "RecvAwait 0" "?c [0] [Waiting] []"]
  have "reach list_notify False (?c [0] [Waiting] [], [RecvAwait 0]) [] []" by (simp add: run)
  from reach_send [OF this, of 5]
  have "reach list_notify False (?c [0] [Waiting] [], [RecvAwait 0, SendLoad 5]) [] []" by simp
  from reach_act [OF this, of 1 "SendPush 5" "?c [0] [Waiting] []"]
  have "reach list_notify False (?c [0] [Waiting] [], [RecvAwait 0, SendPush 5]) [] []" by (simp add: run)
  from reach_act [OF this, of 1 "SendNotify" "?c [0] [Waiting] [5]"]
  have "reach list_notify False (?c [0] [Waiting] [5], [RecvAwait 0, SendNotify]) [5] []" by (simp add: run)
  then show ?thesis by (intro exI) (rule conjI, assumption, simp)
qed

text \<open>A message is sent; then a receiver gets it and a caller of \<^verbatim>\<open>try_recv\<close> finds nothing.\<close>

lemma list_notify_received:
  "\<exists>c. reach list_notify False (c, [SendOk, RecvDone (Some 5)]) [5 :: nat] [(Some 1, 5)] \<and> requests_q c = []"
proof -
  let ?c = "\<lambda>p fs q. \<lparr>closed = False, notifier = (p, [], fs), requests_q = q\<rparr> :: (list_notify, nat) channel"
  note run = thread_step_def list_notify_def try_recv_def set_fut_def fut_of_def delivery_def
  have "reach list_notify False (?c False [] [], [SendLoad 5]) [] []"
    using reach_send [OF reach_new [of list_notify]] by (simp add: channel_new_def list_notify_def)
  from reach_act [OF this, of 0 "SendPush 5" "?c False [] []"]
  have "reach list_notify False (?c False [] [], [SendPush 5]) [] []" by (simp add: run)
  from reach_act [OF this, of 0 "SendNotify" "?c False [] [5]"]
  have "reach list_notify False (?c False [] [5], [SendNotify]) [5] []" by (simp add: run)
  from reach_act [OF this, of 0 "SendOk" "?c True [] [5]"]
  have "reach list_notify False (?c True [] [5], [SendOk]) [5] []" by (simp add: run)
  from reach_recv [OF this]
  have "reach list_notify False (?c True [] [5], [SendOk, RecvNew]) [5] []" by simp
  from reach_act [OF this, of 1 "RecvEnable 0" "?c True [Created] [5]"]
  have "reach list_notify False (?c True [Created] [5], [SendOk, RecvEnable 0]) [5] []" by (simp add: run)
  from reach_act [OF this, of 1 "RecvTry 0" "?c False [Ready] [5]"]
  have "reach list_notify False (?c False [Ready] [5], [SendOk, RecvTry 0]) [5] []" by (simp add: run)
  from reach_act [OF this, of 1 "RecvReturn 0 (Some 5)" "?c False [Ready] []"]
  have "reach list_notify False (?c False [Ready] [], [SendOk, RecvReturn 0 (Some 5)]) [5] [(Some 1, 5)]" by (simp add: run)
  from reach_act [OF this, of 1 "RecvDone (Some 5)" "?c False [Absent] []"]
  have "reach list_notify False (?c False [Absent] [], [SendOk, RecvDone (Some 5)]) [5] [(Some 1, 5)]" by (simp add: run)
  then show ?thesis by (intro exI) (rule conjI, assumption, simp)
qed

section \<open>Properties\<close>

text \<open>
  (C36) No message is left behind while somebody waits for it. From every state of the channel,
  whatever calls of \<^verbatim>\<open>send\<close>, \<^verbatim>\<open>recv\<close> and \<^verbatim>\<open>close\<close> are under way and however their actions were
  interleaved, the calls cannot go on acting forever, and where they come to rest with a receiver
  still suspended the queue is empty and the channel is open: each queued message was delivered,
  and a close woke every receiver. The hypothesis is the documented behaviour of
  \<^verbatim>\<open>tokio::sync::Notify\<close>.
\<close>

theorem channel_delivers:
  assumes "notify_ok nt view" and "reach nt b s ps ks"
  shows "\<not> (\<exists>f. f 0 = s \<and> (\<forall>k. act nt (f k) (f (Suc k)))) \<and>
    (\<forall>c ts. (act nt)\<^sup>*\<^sup>* s (c, ts) \<and> (\<forall>s'. \<not> act nt (c, ts) s') \<and> (\<exists>w. RecvAwait w \<in> set ts) \<longrightarrow>
       requests_q c = [] \<and> \<not> closed c)"
proof -
  note inv = reach_inv [OF assms]
  have "requests_q c = [] \<and> \<not> closed c"
    if "(act nt)\<^sup>*\<^sup>* s (c, ts)" "\<forall>s'. \<not> act nt (c, ts) s'" "RecvAwait w \<in> set ts" for c ts w
    using blocked_empty [OF assms(1), of c ts w] acts_inv [OF that(1) assms(1) inv] that(2,3) by simp
  then show ?thesis using act_terminates [OF assms(1) inv] by blast
qed

theorem channel_delivers_witness:
  "\<exists>c. reach list_notify False (c, [RecvAwait 0, SendNotify]) [5 :: nat] [] \<and> requests_q c = [5] \<and>
     \<not> (\<exists>f. f 0 = (c, [RecvAwait 0, SendNotify]) \<and> (\<forall>k. act list_notify (f k) (f (Suc k)))) \<and>
     (\<forall>c' ts. (act list_notify)\<^sup>*\<^sup>* (c, [RecvAwait 0, SendNotify]) (c', ts) \<and> (\<forall>s'. \<not> act list_notify (c', ts) s') \<and>
        (\<exists>w. RecvAwait w \<in> set ts) \<longrightarrow> requests_q c' = [] \<and> \<not> closed c')"
  using list_notify_run channel_delivers [OF list_notify_ok] by metis

text \<open>
  (C37) The channel is a queue: the messages its receivers got, in the order they got them,
  followed by those still in the queue, are the messages put into it in their order, none twice
  and none invented; only a flush leaves messages out. The log is made from what the callers
  get: a call of \<^verbatim>\<open>recv\<close> that has returned, or is about to, has exactly the message logged for it,
  and a call that is under way, was dropped or returned the error has none.
\<close>

theorem channel_fifo:
  assumes "reach nt b (c, ts) ps ks"
  shows "subseq (map snd ks @ requests_q c) ps \<and> (\<not> b \<longrightarrow> map snd ks @ requests_q c = ps) \<and>
    (\<forall>i < length ts. delivered_to i ks = got (ts ! i))"
  using reach_queue [OF assms] reach_delivered [OF assms] by simp

theorem channel_fifo_witness:
  "\<exists>c. reach list_notify False (c, [SendOk, RecvDone (Some 5)]) [5 :: nat] [(Some 1, 5)] \<and>
     subseq (map snd [(Some (1 :: nat), 5)] @ requests_q c) [5] \<and> map snd [(Some (1 :: nat), 5)] @ requests_q c = [5] \<and>
     delivered_to 1 [(Some 1, 5 :: nat)] = got ([SendOk, RecvDone (Some 5)] ! 1 :: (nat, nat) thread)"
proof -
  obtain c where c: "reach list_notify False (c, [SendOk, RecvDone (Some 5)]) [5 :: nat] [(Some 1, 5)]"
    using list_notify_received by blast
  from channel_fifo [OF this] c show ?thesis by (intro exI [of _ c]) auto
qed

end
