(* ===== verification/File_Io.thy ===== *)
theory File_Io
  imports Writers
begin

text \<open>
  The adapters around \<^verbatim>\<open>vm_memory::VolatileSlice\<close> (\<^verbatim>\<open>common/file_buf.rs\<close>) and the traits that move
  data between files and such slices (\<^verbatim>\<open>common/file_traits.rs\<close>): the default methods with their
  loops, the implementation for files by system calls, and the vectored methods of the
  asynchronous trait, which start four operations at a time.

  The methods a type must provide are a record of functions over a state; the system calls and
  the methods of \<^verbatim>\<open>VolatileSlice\<close> are parameters. \<^verbatim>\<open>usize\<close> values are words.
\<close>

section \<open>Slices\<close>

datatype buf_error = OutOfBounds usize | BufOverflow usize usize

record fvslice =
  fv_addr :: usize
  fv_size :: usize

definition fv_new :: "usize \<Rightarrow> usize \<Rightarrow> fvslice" where
  "fv_new addr sz = \<lparr>fv_addr = addr, fv_size = sz\<rparr>"

definition fv_from_raw_ptr :: "usize \<Rightarrow> usize \<Rightarrow> fvslice" where
  "fv_from_raw_ptr addr sz = fv_new addr sz"

definition fv_from_volatile_slice :: "vslice \<Rightarrow> fvslice" where
  "fv_from_volatile_slice s = fv_new (of_nat (sl_addr s)) (of_nat (sl_len s))"

definition as_volatile_slice :: "fvslice \<Rightarrow> vslice" where
  "as_volatile_slice s = \<lparr>sl_addr = unat (fv_addr s), sl_len = unat (fv_size s)\<rparr>"

definition fv_is_empty :: "fvslice \<Rightarrow> bool" where
  "fv_is_empty s \<longleftrightarrow> fv_size s = 0"

definition checked_sub :: "usize \<Rightarrow> usize \<Rightarrow> usize option" where
  "checked_sub a b = (if b \<le> a then Some (a - b) else None)"

definition fv_offset :: "usize \<Rightarrow> fvslice \<Rightarrow> buf_error + fvslice" where
  "fv_offset count s =
     (case checked_add (fv_addr s) count of
        None \<Rightarrow> Inl (BufOverflow (fv_addr s) count)
      | Some new_addr \<Rightarrow>
          (case checked_sub (fv_size s) count of
             None \<Rightarrow> Inl (OutOfBounds new_addr)
           | Some new_size \<Rightarrow> Inr (fv_new new_addr new_size)))"

text \<open>
  \<^verbatim>\<open>impl Bytes for FileVolatileSlice\<close> hands over to the methods of \<^verbatim>\<open>VolatileSlice\<close> of the
  \<^verbatim>\<open>vm-memory\<close> crate. The methods that read give back the buffer they filled.
\<close>

record ('m, 'e) vslice_bytes =
  vb_write :: "vslice \<Rightarrow> bytes \<Rightarrow> usize \<Rightarrow> 'm \<Rightarrow> ('e + usize) \<times> 'm"
  vb_read :: "vslice \<Rightarrow> bytes \<Rightarrow> usize \<Rightarrow> 'm \<Rightarrow> ('e + usize) \<times> bytes"
  vb_write_slice :: "vslice \<Rightarrow> bytes \<Rightarrow> usize \<Rightarrow> 'm \<Rightarrow> ('e + unit) \<times> 'm"
  vb_read_slice :: "vslice \<Rightarrow> bytes \<Rightarrow> usize \<Rightarrow> 'm \<Rightarrow> ('e + unit) \<times> bytes"

definition fv_write :: "('m, 'e) vslice_bytes \<Rightarrow> fvslice \<Rightarrow> bytes \<Rightarrow> usize \<Rightarrow> 'm \<Rightarrow> ('e + usize) \<times> 'm" where
  "fv_write V s buf addr m = vb_write V (as_volatile_slice s) buf addr m"

definition fv_read :: "('m, 'e) vslice_bytes \<Rightarrow> fvslice \<Rightarrow> bytes \<Rightarrow> usize \<Rightarrow> 'm \<Rightarrow> ('e + usize) \<times> bytes" where
  "fv_read V s buf addr m = vb_read V (as_volatile_slice s) buf addr m"

definition fv_write_slice :: "('m, 'e) vslice_bytes \<Rightarrow> fvslice \<Rightarrow> bytes \<Rightarrow> usize \<Rightarrow> 'm \<Rightarrow> ('e + unit) \<times> 'm" where
  "fv_write_slice V s buf addr m = vb_write_slice V (as_volatile_slice s) buf addr m"

text \<open>\<^verbatim>\<open>read_slice\<close> calls \<^verbatim>\<open>write_slice\<close>: the buffer stays as it is and the memory changes.\<close>

definition fv_read_slice :: "('m, 'e) vslice_bytes \<Rightarrow> fvslice \<Rightarrow> bytes \<Rightarrow> usize \<Rightarrow> 'm \<Rightarrow> ('e + unit) \<times> bytes \<times> 'm" where
  "fv_read_slice V s buf addr m =
     (case vb_write_slice V (as_volatile_slice s) buf addr m of (r, m') \<Rightarrow> (r, buf, m'))"

text \<open>\<^verbatim>\<open>FileVolatileBuf\<close>: a buffer without a lifetime, of which the first \<^verbatim>\<open>size\<close> bytes are valid.\<close>

record fvbuf =
  vbf_addr :: usize
  vbf_size :: usize
  vbf_cap :: usize

definition borrow_as_buf :: "bool \<Rightarrow> fvslice \<Rightarrow> fvbuf" where
  "borrow_as_buf inited s = \<lparr>vbf_addr = fv_addr s, vbf_size = (if inited then fv_size s else 0), vbf_cap = fv_size s\<rparr>"

definition vbf_from_raw_ptr :: "usize \<Rightarrow> usize \<Rightarrow> usize \<Rightarrow> fvbuf res" where
  "vbf_from_raw_ptr addr sz cap = (if sz \<le> cap then Ok \<lparr>vbf_addr = addr, vbf_size = sz, vbf_cap = cap\<rparr> else Panic)"

definition vbf_io_slice :: "fvbuf \<Rightarrow> fvslice" where
  "vbf_io_slice b = fv_new (vbf_addr b) (vbf_size b)"

definition vbf_io_slice_mut :: "fvbuf \<Rightarrow> fvslice" where
  "vbf_io_slice_mut b = fv_new (vbf_addr b + vbf_size b) (vbf_cap b - vbf_size b)"

definition vbf_set_size :: "usize \<Rightarrow> fvbuf \<Rightarrow> fvbuf" where
  "vbf_set_size sz b = (if sz \<le> vbf_cap b then b\<lparr>vbf_size := sz\<rparr> else b)"

section \<open>Files\<close>

text \<open>The required methods of \<^verbatim>\<open>FileReadWriteVolatile\<close>.\<close>

record 's file_ops =
  f_read_volatile :: "fvslice \<Rightarrow> ('s, usize) op"
  f_write_volatile :: "fvslice \<Rightarrow> ('s, usize) op"
  f_read_at_volatile :: "fvslice \<Rightarrow> u64 \<Rightarrow> ('s, usize) op"
  f_write_at_volatile :: "fvslice \<Rightarrow> u64 \<Rightarrow> ('s, usize) op"

definition read_vectored_volatile :: "'s file_ops \<Rightarrow> fvslice list \<Rightarrow> ('s, usize) op" where
  "read_vectored_volatile F bufs s =
     (case find (\<lambda>b. \<not> fv_is_empty b) bufs of Some b \<Rightarrow> f_read_volatile F b s | None \<Rightarrow> (Ok 0, s))"

definition write_vectored_volatile :: "'s file_ops \<Rightarrow> fvslice list \<Rightarrow> ('s, usize) op" where
  "write_vectored_volatile F bufs s =
     (case find (\<lambda>b. \<not> fv_is_empty b) bufs of Some b \<Rightarrow> f_write_volatile F b s | None \<Rightarrow> (Ok 0, s))"

definition read_vectored_at_volatile :: "'s file_ops \<Rightarrow> fvslice list \<Rightarrow> u64 \<Rightarrow> ('s, usize) op" where
  "read_vectored_at_volatile F bufs offset s =
     (case bufs of sl # _ \<Rightarrow> f_read_at_volatile F sl offset s | [] \<Rightarrow> (Ok 0, s))"

definition write_vectored_at_volatile :: "'s file_ops \<Rightarrow> fvslice list \<Rightarrow> u64 \<Rightarrow> ('s, usize) op" where
  "write_vectored_at_volatile F bufs offset s =
     (case bufs of sl # _ \<Rightarrow> f_write_at_volatile F sl offset s | [] \<Rightarrow> (Ok 0, s))"

lemma fv_offset_size: "fv_offset n s = Inr s' \<Longrightarrow> unat (fv_size s') = unat (fv_size s) - unat n \<and> n \<le> fv_size s"
  by (auto simp: fv_offset_def fv_new_def checked_sub_def unat_sub split: option.splits if_splits)

text \<open>
  The loops of \<^verbatim>\<open>read_exact_volatile\<close> and \<^verbatim>\<open>write_all_volatile\<close>, over the one call they repeat and
  the kind of the error when it makes no progress. Each turn shortens the slice.
\<close>

function transfer_all :: "error_kind \<Rightarrow> (fvslice \<Rightarrow> ('s, usize) op) \<Rightarrow> fvslice \<Rightarrow> ('s, unit) op" where
  "transfer_all stuck call sl s =
     (if fv_is_empty sl then (Ok (), s)
      else
        (case call sl s of
           (Ok n, s) \<Rightarrow>
             if n = 0 then (Err (Custom stuck), s)
             else (case fv_offset n sl of Inr sl \<Rightarrow> transfer_all stuck call sl s | Inl _ \<Rightarrow> (Panic, s))
         | (Err e, s) \<Rightarrow> (Err e, s)
         | (Panic, s) \<Rightarrow> (Panic, s)))"
  by pat_completeness auto

termination
proof (relation "measure (\<lambda>(_, _, sl, _). unat (fv_size sl))")
  show "wf (measure (\<lambda>(_, _, sl, _). unat (fv_size sl)))" by simp
next
  fix stuck call sl s p r t n sl'
  assume "\<not> fv_is_empty sl" "(r, t) = p" "r = Ok n" "n \<noteq> 0" "fv_offset n sl = Inr sl'"
  then show "((stuck, call, sl', t), stuck, call, sl, s) \<in> measure (\<lambda>(_, _, sl, _). unat (fv_size sl))"
    using fv_offset_size [of n sl sl'] unat_gt_0 [of n] by (auto simp: word_le_nat_alt)
qed

definition read_exact_volatile :: "'s file_ops \<Rightarrow> fvslice \<Rightarrow> ('s, unit) op" where
  "read_exact_volatile F sl = transfer_all UnexpectedEof (f_read_volatile F) sl"

definition write_all_volatile :: "'s file_ops \<Rightarrow> fvslice \<Rightarrow> ('s, unit) op" where
  "write_all_volatile F sl = transfer_all WriteZero (f_write_volatile F) sl"

fun io_error_kind_interrupted :: "io_error \<Rightarrow> bool" where
  "io_error_kind_interrupted (Os e) \<longleftrightarrow> e = EINTR"
| "io_error_kind_interrupted (Custom k) \<longleftrightarrow> k = Interrupted"

text \<open>
  The loops at an offset repeat an interrupted call. They may go on forever when every call is
  interrupted, in which case the value is \<open>None\<close>.
\<close>

partial_function (option) transfer_all_at ::
  "error_kind \<Rightarrow> (fvslice \<Rightarrow> u64 \<Rightarrow> ('s, usize) op) \<Rightarrow> fvslice \<Rightarrow> u64 \<Rightarrow> 's \<Rightarrow> (unit res \<times> 's) option" where
  "transfer_all_at stuck call sl offset s =
     (if fv_is_empty sl then Some (Ok (), s)
      else
        (case call sl offset s of
           (Ok n, s) \<Rightarrow>
             if n = 0 then Some (Err (Custom stuck), s)
             else
               (case (fv_offset n sl, checked_add offset n) of
                  (Inr sl, Some offset) \<Rightarrow> transfer_all_at stuck call sl offset s
                | _ \<Rightarrow> Some (Panic, s))
         | (Err e, s) \<Rightarrow>
             if io_error_kind_interrupted e then transfer_all_at stuck call sl offset s else Some (Err e, s)
         | (Panic, s) \<Rightarrow> Some (Panic, s)))"

definition read_exact_at_volatile :: "'s file_ops \<Rightarrow> fvslice \<Rightarrow> u64 \<Rightarrow> 's \<Rightarrow> (unit res \<times> 's) option" where
  "read_exact_at_volatile F sl offset = transfer_all_at UnexpectedEof (f_read_at_volatile F) sl offset"

definition write_all_at_volatile :: "'s file_ops \<Rightarrow> fvslice \<Rightarrow> u64 \<Rightarrow> 's \<Rightarrow> (unit res \<times> 's) option" where
  "write_all_at_volatile F sl offset = transfer_all_at WriteZero (f_write_at_volatile F) sl offset"

section \<open>The implementation for files\<close>

text \<open>
  The macro \<^verbatim>\<open>volatile_impl\<close>: one system call per method. The vectored methods pass all buffers to
  one call and make none for an empty list.
\<close>

record 'h file_calls =
  c_read :: "fvslice \<Rightarrow> ('h, usize) op"
  c_readv :: "fvslice list \<Rightarrow> ('h, usize) op"
  c_write :: "fvslice \<Rightarrow> ('h, usize) op"
  c_writev :: "fvslice list \<Rightarrow> ('h, usize) op"
  c_pread64 :: "fvslice \<Rightarrow> i64 \<Rightarrow> ('h, usize) op"
  c_preadv64 :: "fvslice list \<Rightarrow> i64 \<Rightarrow> ('h, usize) op"
  c_pwrite64 :: "fvslice \<Rightarrow> i64 \<Rightarrow> ('h, usize) op"
  c_pwritev64 :: "fvslice list \<Rightarrow> i64 \<Rightarrow> ('h, usize) op"

definition file_volatile_ops :: "'h file_calls \<Rightarrow> 'h file_ops" where
  "file_volatile_ops C =
     \<lparr>f_read_volatile = c_read C, f_write_volatile = c_write C,
      f_read_at_volatile = (\<lambda>sl offset. c_pread64 C sl (ucast offset)),
      f_write_at_volatile = (\<lambda>sl offset. c_pwrite64 C sl (ucast offset))\<rparr>"

definition file_read_vectored :: "'h file_calls \<Rightarrow> fvslice list \<Rightarrow> ('h, usize) op" where
  "file_read_vectored C bufs s = (if bufs = [] then (Ok 0, s) else c_readv C bufs s)"

definition file_write_vectored :: "'h file_calls \<Rightarrow> fvslice list \<Rightarrow> ('h, usize) op" where
  "file_write_vectored C bufs s = (if bufs = [] then (Ok 0, s) else c_writev C bufs s)"

definition file_read_vectored_at :: "'h file_calls \<Rightarrow> fvslice list \<Rightarrow> u64 \<Rightarrow> ('h, usize) op" where
  "file_read_vectored_at C bufs offset s = (if bufs = [] then (Ok 0, s) else c_preadv64 C bufs (ucast offset) s)"

definition file_write_vectored_at :: "'h file_calls \<Rightarrow> fvslice list \<Rightarrow> u64 \<Rightarrow> ('h, usize) op" where
  "file_write_vectored_at C bufs offset s = (if bufs = [] then (Ok 0, s) else c_pwritev64 C bufs (ucast offset) s)"

section \<open>Four at a time\<close>

text \<open>
  The operations that \<^verbatim>\<open>join!\<close> runs together: they are started in order, each at the offset after
  the capacities of the buffers before it, and all of them are carried out. Offsets and counts
  are added with wrap-around.
\<close>

type_synonym 's at_op = "fvbuf \<Rightarrow> u64 \<Rightarrow> 's \<Rightarrow> (usize res \<times> fvbuf) \<times> 's"

fun join_ops :: "'s at_op \<Rightarrow> fvbuf list \<Rightarrow> u64 \<Rightarrow> 's \<Rightarrow> (usize res \<times> fvbuf) list \<times> 's" where
  "join_ops call [] offset s = ([], s)"
| "join_ops call (b # bs) offset s =
     (case call b offset s of (r, s) \<Rightarrow> (case join_ops call bs (offset + vbf_cap b) s of (rs, s) \<Rightarrow> (r # rs, s)))"

text \<open>
  The matches on the results, in order: an error or a short count ends the method with that
  result (\<open>Inl\<close>); otherwise it goes on with the count (\<open>Inr\<close>). The buffers come back replaced.
\<close>

fun take_results :: "(usize res \<times> fvbuf) list \<Rightarrow> usize \<Rightarrow> fvbuf list \<Rightarrow> (usize res + usize) \<times> fvbuf list" where
  "take_results ((r, buf) # rs) count (b # bs) =
     (case r of
        Err e \<Rightarrow> (Inl (Err e), b # bs)
      | Panic \<Rightarrow> (Inl Panic, b # bs)
      | Ok cnt \<Rightarrow>
          if cnt < vbf_cap buf then (Inl (Ok (count + cnt)), buf # bs)
          else (case take_results rs (count + cnt) bs of (x, bs') \<Rightarrow> (x, buf # bs')))"
| "take_results rs count bs = (Inr count, bs)"

fun vectored_loop :: "'s at_op \<Rightarrow> u64 \<Rightarrow> usize \<Rightarrow> fvbuf list \<Rightarrow> 's \<Rightarrow> (usize res \<times> fvbuf list) \<times> 's" where
  "vectored_loop call offset count (b1 # b2 # b3 # b4 # bufs) s =
     (case join_ops call [b1, b2, b3, b4] offset s of
        (rs, s) \<Rightarrow>
          (case take_results rs count [b1, b2, b3, b4] of
             (Inl r, bs) \<Rightarrow> ((r, bs @ bufs), s)
           | (Inr count, bs) \<Rightarrow>
               (case vectored_loop call (offset + vbf_cap b1 + vbf_cap b2 + vbf_cap b3 + vbf_cap b4) count bufs s of
                  ((r, bs'), s) \<Rightarrow> ((r, bs @ bs'), s))))"
| "vectored_loop call offset count bufs s =
     (case join_ops call bufs offset s of
        (rs, s) \<Rightarrow>
          (case take_results rs count bufs of
             (Inl r, bs) \<Rightarrow> ((r, bs), s)
           | (Inr count, bs) \<Rightarrow> ((Ok count, bs), s)))"

definition vectored_at :: "'s at_op \<Rightarrow> fvbuf list \<Rightarrow> u64 \<Rightarrow> 's \<Rightarrow> (usize res \<times> fvbuf list) \<times> 's" where
  "vectored_at call bufs offset s =
     (case bufs of
        [] \<Rightarrow> ((Ok 0, bufs), s)
      | [b] \<Rightarrow> (case call b offset s of ((res, buf), s) \<Rightarrow> ((res, [buf]), s))
      | _ \<Rightarrow> vectored_loop call offset 0 bufs s)"

record 's async_file_ops =
  a_read_at_volatile :: "'s at_op"
  a_write_at_volatile :: "'s at_op"


definition async_write_vectored_at_volatile ::
  "'s async_file_ops \<Rightarrow> fvbuf list \<Rightarrow> u64 \<Rightarrow> 's \<Rightarrow> (usize res \<times> fvbuf list) \<times> 's" where
  "async_write_vectored_at_volatile A = vectored_at (a_write_at_volatile A)"

section \<open>One buffer after the other\<close>








subsection \<open>A file as one buffer\<close>


definition total_cap :: "fvbuf list \<Rightarrow> nat" where
  "total_cap bufs = sum_list (map (\<lambda>b. unat (vbf_cap b)) bufs)"


fun scatter :: "bytes \<Rightarrow> fvbuf list \<Rightarrow> memory \<Rightarrow> memory" where
  "scatter xs [] m = m"
| "scatter xs (b # bs) m =
     scatter (drop (unat (vbf_cap b)) xs) bs (mem_store (unat (vbf_addr b)) (take (unat (vbf_cap b)) xs) m)"


lemma total_cap_simps [simp]:
  "total_cap [] = 0" "total_cap (b # bs) = unat (vbf_cap b) + total_cap bs" "total_cap (bs @ cs) = total_cap bs + total_cap cs"
  by (simp_all add: total_cap_def)

lemma mem_store_Nil [simp]: "mem_store a [] m = m"
  by (auto simp: mem_store_def fun_eq_iff)

lemma scatter_Nil [simp]: "scatter [] bs m = m"
  by (induction bs) auto







section \<open>Reading exactly\<close>

text \<open>
  The documented behaviour of a positioned read from a file that nobody else writes: it fills a
  part of the slice with the bytes at the offset, not nothing before the end of the file, or it
  is interrupted, which happens \<open>left\<close> more times at most. Other errors of the system call are
  left out.
\<close>

definition reads_at ::
  "(fvslice \<Rightarrow> u64 \<Rightarrow> ('s, usize) op) \<Rightarrow> ('s \<Rightarrow> memory) \<Rightarrow> ('s \<Rightarrow> bytes) \<Rightarrow> ('s \<Rightarrow> nat) \<Rightarrow> bool" where
  "reads_at call mem content left \<longleftrightarrow>
     (\<forall>sl offset s r s'. call sl offset s = (r, s') \<longrightarrow>
        content s' = content s \<and> r \<noteq> Panic \<and>
        (\<forall>e. r = Err e \<longrightarrow> io_error_kind_interrupted e \<and> mem s' = mem s \<and> left s' < left s) \<and>
        (\<forall>n. r = Ok n \<longrightarrow>
           n \<le> fv_size sl \<and> unat n \<le> length (content s) - unat offset \<and> left s' \<le> left s \<and>
           (n = 0 \<longrightarrow> fv_size sl = 0 \<or> length (content s) \<le> unat offset) \<and>
           mem s' = mem_store (unat (fv_addr sl)) (take (unat n) (drop (unat offset) (content s))) (mem s)))"

lemma mem_store_append: "mem_store (a + length xs) ys (mem_store a xs m) = mem_store a (xs @ ys) m"
  by (auto simp: mem_store_def fun_eq_iff nth_append)

lemma fv_offset_ok:
  assumes "n \<le> fv_size sl" and "unat (fv_addr sl) + unat (fv_size sl) < 2 ^ 64"
  shows "\<exists>sl'. fv_offset n sl = Inr sl' \<and> unat (fv_addr sl') = unat (fv_addr sl) + unat n \<and>
    unat (fv_size sl') = unat (fv_size sl) - unat n"
proof -
  have "unat n \<le> unat (fv_size sl)" using assms(1) by (simp add: word_le_nat_alt)
  then show ?thesis using assms
    by (auto simp: fv_offset_def checked_add_def checked_sub_def fv_new_def unat_sub unat_plus_if')
qed

text \<open>What a completed transfer leaves.\<close>

definition filled :: "('s \<Rightarrow> memory) \<Rightarrow> ('s \<Rightarrow> bytes) \<Rightarrow> error_kind \<Rightarrow> fvslice \<Rightarrow> nat \<Rightarrow> 's \<Rightarrow> unit res \<Rightarrow> 's \<Rightarrow> bool" where
  "filled mem content stuck sl offset s r s' \<longleftrightarrow>
     r = (if offset + unat (fv_size sl) \<le> length (content s) \<or> fv_size sl = 0 then Ok () else Err (Custom stuck)) \<and>
     content s' = content s \<and>
     mem s' = mem_store (unat (fv_addr sl)) (take (unat (fv_size sl)) (drop offset (content s))) (mem s)"

lemma filled_step:
  assumes "filled mem content stuck sl' (offset + unat n) t r s'" and "n \<noteq> 0"
    and n: "unat n \<le> unat (fv_size sl)" "unat n \<le> length (content s) - offset" "content t = content s"
    and mem: "mem t = mem_store (unat (fv_addr sl)) (take (unat n) (drop offset (content s))) (mem s)"
    and sl': "unat (fv_addr sl') = unat (fv_addr sl) + unat n" "unat (fv_size sl') = unat (fv_size sl) - unat n"
  shows "filled mem content stuck sl offset s r s'"
proof -
  let ?a = "take (unat n) (drop offset (content s))"
  have pos: "0 < unat n" using assms(2) by (simp add: unat_gt_0)
  have len: "length ?a = unat n" using n(2) by simp
  have "?a @ take (unat (fv_size sl) - unat n) (drop (offset + unat n) (content s)) =
      take (unat (fv_size sl)) (drop offset (content s))"
    using n(1) take_add [of "unat n" "unat (fv_size sl) - unat n" "drop offset (content s)"] by (simp add: add.commute)
  then have "mem s' = mem_store (unat (fv_addr sl)) (take (unat (fv_size sl)) (drop offset (content s))) (mem s)"
    using assms(1) mem_store_append [of "unat (fv_addr sl)" ?a] unfolding filled_def n(3) mem sl' len by simp
  moreover have "fv_size sl' = 0 \<longleftrightarrow> unat (fv_size sl) = unat n"
    using sl'(2) n(1) by (simp add: unat_eq_0 [symmetric])
  moreover have "fv_size sl \<noteq> 0" using n(1) pos by auto
  ultimately show ?thesis
    using assms(1) n sl'(2) pos by (auto simp: filled_def)
qed

lemma transfer_all_at_reads:
  assumes "reads_at call mem content left"
  shows "unat (fv_addr sl) + unat (fv_size sl) < 2 ^ 64 \<Longrightarrow> unat offset + unat (fv_size sl) < 2 ^ 64 \<Longrightarrow>
    \<exists>r s'. transfer_all_at stuck call sl offset s = Some (r, s') \<and> filled mem content stuck sl (unat offset) s r s'"
proof (induction "left s + unat (fv_size sl)" arbitrary: sl offset s rule: less_induct)
  case less
  obtain r t where c: "call sl offset s = (r, t)" by fastforce
  note ok = assms [unfolded reads_at_def, rule_format, OF c]
  show ?case
  proof (cases "fv_is_empty sl")
    case True
    then show ?thesis by (subst transfer_all_at.simps) (simp add: fv_is_empty_def filled_def)
  next
    case ne: False
    show ?thesis
    proof (cases r)
      case (Err e)
      with ok have "io_error_kind_interrupted e" "mem t = mem s" "left t < left s" "content t = content s" by auto
      with less.hyps [of t sl offset] less.prems c Err ne show ?thesis
        by (subst transfer_all_at.simps) (simp add: filled_def)
    next
      case (Ok n)
      with ok have n: "n \<le> fv_size sl" "unat n \<le> length (content s) - unat offset" "left t \<le> left s" "content t = content s"
        "n = 0 \<Longrightarrow> fv_size sl = 0 \<or> length (content s) \<le> unat offset"
        "mem t = mem_store (unat (fv_addr sl)) (take (unat n) (drop (unat offset) (content s))) (mem s)" by auto
      have le: "unat n \<le> unat (fv_size sl)" using n(1) by (simp add: word_le_nat_alt)
      have pos: "0 < unat (fv_size sl)" using ne by (simp add: fv_is_empty_def unat_gt_0)
      show ?thesis
      proof (cases "n = 0")
        case True
        then have "length (content s) \<le> unat offset" using n(5) pos by auto
        then show ?thesis using True n(4,6) c Ok ne pos
          by (subst transfer_all_at.simps) (auto simp: filled_def)
      next
        case False
        obtain sl' where sl': "fv_offset n sl = Inr sl'" "unat (fv_addr sl') = unat (fv_addr sl) + unat n"
          "unat (fv_size sl') = unat (fv_size sl) - unat n" using fv_offset_ok [OF n(1) less.prems(1)] by blast
        have off: "checked_add offset n = Some (offset + n)" "unat (offset + n) = unat offset + unat n"
          using le less.prems(2) by (simp_all add: checked_add_def unat_plus_if')
        have "left t + unat (fv_size sl') < left s + unat (fv_size sl)"
          using n(3) sl'(3) le False unat_gt_0 [of n] by linarith
        from less.hyps [OF this, of "offset + n"] obtain r s' where
          "transfer_all_at stuck call sl' (offset + n) t = Some (r, s')" "filled mem content stuck sl' (unat offset + unat n) t r s'"
          using less.prems sl'(2,3) off(2) le by auto
        then show ?thesis using filled_step [OF _ False le n(2,4,6) sl'(2,3)] c Ok ne False off(1) sl'(1)
          by (subst transfer_all_at.simps) auto
      qed
    qed (use ok in simp)
  qed
qed

text \<open>
  (C39) Reading exactly at an offset, from a file whose reads do not fail except by an
  interruption, returns however often the calls are interrupted or give only a part: when the file has enough bytes the result is \<^verbatim>\<open>Ok\<close> and the slice holds exactly the bytes
  of the file from the offset on; when it has not, the result is \<^verbatim>\<open>UnexpectedEof\<close> and the slice
  begins with what the file had. Nothing outside of the slice changes.
\<close>

theorem read_exact_at_correct:
  assumes "reads_at (f_read_at_volatile F) mem content left"
    and "unat (fv_addr sl) + unat (fv_size sl) < 2 ^ 64" and "unat offset + unat (fv_size sl) < 2 ^ 64"
  shows "\<exists>s'. read_exact_at_volatile F sl offset s =
        Some (if unat offset + unat (fv_size sl) \<le> length (content s) \<or> fv_size sl = 0 then Ok () else Err (Custom UnexpectedEof), s') \<and>
      content s' = content s \<and>
      mem s' = mem_store (unat (fv_addr sl)) (take (unat (fv_size sl)) (drop (unat offset) (content s))) (mem s)"
  using transfer_all_at_reads [OF assms, of UnexpectedEof s] by (auto simp: read_exact_at_volatile_def filled_def)

text \<open>A file that gives two bytes at most and is interrupted as often as its state says.\<close>

fun sample_pread :: "fvslice \<Rightarrow> u64 \<Rightarrow> (memory \<times> bytes \<times> nat, usize) op" where
  "sample_pread sl offset (m, c, k) =
     (if 0 < k then (Err (Os EINTR), (m, c, k - 1))
      else
        (let n = min (min 2 (unat (fv_size sl))) (length c - unat offset)
         in (Ok (of_nat n), (mem_store (unat (fv_addr sl)) (take n (drop (unat offset) c)) m, c, k))))"

definition sample_file :: "(memory \<times> bytes \<times> nat) file_ops" where
  "sample_file = \<lparr>f_read_volatile = (\<lambda>sl s. (Ok 0, s)), f_write_volatile = (\<lambda>sl s. (Ok 0, s)),
     f_read_at_volatile = sample_pread, f_write_at_volatile = (\<lambda>sl offset s. (Ok 0, s))\<rparr>"

lemma sample_reads: "reads_at sample_pread fst (fst \<circ> snd) (snd \<circ> snd)"
proof -
  have u: "unat (of_nat (min (min 2 a) b) :: usize) = min (min 2 a) b" for a b
    unfolding unat_of_nat by (intro mod_less) (simp add: min_def)
  have le: "of_nat (min (min 2 (unat x)) b) \<le> x" for x :: usize and b
    unfolding word_le_nat_alt u by simp
  have z: "x = 0 \<or> b = 0" if "of_nat (min (min 2 (unat x)) b) = (0 :: usize)" for x :: usize and b
    using that u [of "unat x" b] by (auto simp: min_def unat_eq_0 split: if_splits)
  show ?thesis using z by (force simp: reads_at_def Let_def u le)
qed

theorem read_exact_at_correct_witness:
  "\<exists>s'. read_exact_at_volatile sample_file \<lparr>fv_addr = 100, fv_size = 3\<rparr> 1 (\<lambda>i. 0, [1, 2, 3, 4, 5], 2) = Some (Ok (), s') \<and>
     fst s' = mem_store 100 [2, 3, 4] (\<lambda>i. 0)"
  using read_exact_at_correct [of sample_file, where mem = fst and content = "fst \<circ> snd" and left = "snd \<circ> snd"
      and sl = "\<lparr>fv_addr = 100, fv_size = 3\<rparr>" and offset = 1 and s = "(\<lambda>i. 0, [1, 2, 3, 4, 5], 2)"] sample_reads
  by (auto simp: sample_file_def)





end
