(* ===== verification/Spec2Isabelle.thy ===== *)
theory Spec2Isabelle
  imports Pseudo_Fs Vfs Vfs_Ops Xattr_Map Server_Vfs Passthrough_Inv Mpmc File_Io
begin

text \<open>
  A verification library for fuse-backend-rs, a user space implementation of FUSE and virtio-fs
  file systems. Paths below are relative to \<^verbatim>\<open>src/src/\<close>.

  \<^bold>\<open>The program.\<close> A transport (\<^verbatim>\<open>transport/\<close>: the FUSE device or a virtio queue) gives the bytes of
  a request as a \<^verbatim>\<open>Reader\<close> and takes the reply through a \<^verbatim>\<open>Writer\<close>. The server (\<^verbatim>\<open>api/server/\<close>)
  decodes the request by the structures of the protocol (\<^verbatim>\<open>abi/\<close>), calls a method of the trait
  \<^verbatim>\<open>FileSystem\<close> (\<^verbatim>\<open>api/filesystem/\<close>) and encodes the answer. One implementation of the trait is the
  union file system (\<^verbatim>\<open>api/vfs/\<close>), which routes a request by the upper 8 bits of the inode number
  to a backend or to the pseudo file system (\<^verbatim>\<open>api/pseudo_fs.rs\<close>), the tree of the mount points.
  Another is the passthrough file system (\<^verbatim>\<open>passthrough/\<close>), which serves a directory of the host
  by system calls. Beside them stand the maps of extended attribute names
  (\<^verbatim>\<open>passthrough/xattrmap.rs\<close>), the asynchronous channel (\<^verbatim>\<open>common/mpmc.rs\<close>) and the buffers and
  traits of file input and output (\<^verbatim>\<open>common/file_buf.rs\<close>, \<^verbatim>\<open>common/file_traits.rs\<close>).

  \<^bold>\<open>Conventions\<close> (\<open>Fuse_Prelude\<close>). A Rust \<open>uN\<close> or \<open>iN\<close> is a word of that width. \<^verbatim>\<open>io::Result\<close> is
  \<open>'a res\<close>, with a constructor for a panic: an \<^verbatim>\<open>unwrap\<close> on an error, a failed assertion or an
  index out of range is the value \<open>Panic\<close>. An operation that changes a state is a function from
  the state to the result and the new state, and keeps the changes made before an error. What the
  sources only call is a parameter: the kernel (\<open>host\<close>), the FUSE device (\<open>device\<close>), the snapshot
  codec, \<^verbatim>\<open>tokio::sync::Notify\<close>, the methods of \<^verbatim>\<open>VolatileSlice\<close> in \<open>File_Io\<close>, and the file
  systems behind the server and the VFS.

  \<^bold>\<open>The theories.\<close>

  \<^item> \<open>Fuse_Prelude\<close>, \<open>Fuse_Interfaces\<close>: the shared types and lemmas; the contracts between the
    components as locales. \<open>mount_tree\<close> is what the VFS needs of the pseudo file system,
    \<open>byte_source\<close> what the server needs of a reader, \<open>byte_sink\<close> what it needs of a writer.
    Each is interpreted in the theory of the component that provides it (\<open>Pseudo_Fs\<close>,
    \<open>Io_Buffers\<close>, and \<open>Writers\<close> for both writers).
  \<^item> \<open>Byte_Codec\<close>, \<open>Fuse_Types\<close>, \<open>Fuse_Abi\<close>: the structures of \<^verbatim>\<open>abi/fuse_abi_linux.rs\<close>,
    \<^verbatim>\<open>abi/virtio_fs.rs\<close> and \<^verbatim>\<open>api/filesystem/mod.rs\<close>, the trait \<^verbatim>\<open>FileSystem\<close> as the record
    \<open>fs_ops\<close> with its default methods, and the byte layout of every structure as a codec that
    satisfies the contract \<open>byte_valued\<close> (encoding and decoding are inverse).
  \<^item> \<open>Io_Buffers\<close>, \<open>Writers\<close>: \<^verbatim>\<open>IoBuffers\<close>, \<^verbatim>\<open>Reader\<close> and \<^verbatim>\<open>Writer\<close> over an explicit memory, so
    that slices may overlap. A reader refines the sequence of its bytes, however it is scattered;
    a writer never exceeds its room.
  \<^item> \<open>Server\<close>: the handlers of \<^verbatim>\<open>api/server/sync_io.rs\<close>, one definition \<open>srv_\<dots>\<close> each, and
    \<open>handle_message\<close>. \<open>Server_Spec\<close> gives the meaning of an encoded request as a call and an
    answer and proves that the server implements it; \<open>Server_Replies\<close> shows for arbitrary bytes
    that at most one reply is sent; \<open>Server_Calls\<close> that at most one method is called, which one,
    and about which inode.
  \<^item> \<open>Pseudo_Fs\<close>: the tree of mount points, with its well-formedness, mounting and walking of
    paths, eviction, directory pages, saving and restoring.
  \<^item> \<open>Vfs\<close>, \<open>Vfs_Ops\<close>: inode numbers, slots, \<^verbatim>\<open>mount\<close>, \<^verbatim>\<open>umount\<close>, identity mapping, saving and
    restoring, and every method of \<^verbatim>\<open>impl FileSystem for Vfs\<close>. The mount invariant holds in all
    reachable states; a request touches one backend; what a lookup returns is routed back; an
    inode of an unmounted backend is inert.
  \<^item> \<open>Server_Vfs\<close>: the server over the VFS, where these properties hold of whole messages.
  \<^item> \<open>Passthrough_Inodes\<close>, \<open>Passthrough_Host\<close>, \<open>Passthrough\<close>, \<open>Passthrough_Fs\<close>: the tables, the
    wrappers of the system calls, \<^verbatim>\<open>PassthroughFs\<close> and every method of its \<^verbatim>\<open>FileSystem\<close>.
    \<open>Passthrough_Closed\<close> states what a method may do to the state as three locales, each
    extending the one before; \<open>Passthrough_Refs\<close>, \<open>Passthrough_Session\<close> and \<open>Passthrough_Inv\<close>
    instantiate them for the count of references against what the client holds and for the
    invariant of the inode table.
  \<^item> \<open>Xattr_Map\<close>: the rule language with its parser and the two translations of names.
  \<^item> \<open>Mpmc\<close>: \<^verbatim>\<open>send\<close>, \<^verbatim>\<open>recv\<close> and \<^verbatim>\<open>close\<close> as threads with a step per atomic action, in every
    interleaving, under the documented behaviour of \<^verbatim>\<open>Notify\<close> (\<open>notify_ok\<close>), which a concrete
    notifier satisfies: no message is left while a receiver waits, and the channel is a queue.
  \<^item> \<open>File_Io\<close>: the default methods of \<^verbatim>\<open>FileReadWriteVolatile\<close>, the methods of files over the
    system calls, and the vectored methods of the asynchronous trait, with the exact effect on
    the memory.

  \<^bold>\<open>Bounds and loops.\<close> There is no fuel. Loops over lists and counters are structural or have a
  termination proof; the search for a free slot tries each index once. The transfer loop of \<open>File_Io\<close>,
  which an endless series of interruptions keeps going, is a \<^theory_text>\<open>partial_function\<close> into
  options, and the theorem shows that it returns on the files it speaks about. The search loop of
  \<^verbatim>\<open>do_lookup\<close> retries while it finds a count of zero; as no other thread runs in this model, a
  retry would never end and is the value \<open>Panic\<close>; \<open>Passthrough_Inv\<close> shows that it does not occur.

  \<^bold>\<open>Idealisations.\<close> Apart from the channel, operations run one after the other: the locks and the
  compare-and-exchange loops succeed at the first attempt. Log output and the metrics hook are left
  out, and so are the \<^verbatim>\<open>debug_assert\<close>s. Reads of a file in the theorems of \<open>File_Io\<close> either give
  bytes of the file or, for the loop, are interrupted; other errors of the file end the loop and
  are in the definitions, but not in these theorems.

  \<^bold>\<open>Not modelled.\<close>

  \<^item> The overlay file system (\<^verbatim>\<open>overlayfs/\<close>, \<^verbatim>\<open>api/filesystem/overlay.rs\<close>,
    \<^verbatim>\<open>passthrough/overlay.rs\<close>), a further implementation of the trait; the theorems on the server
    and the VFS take it as a parameter like any backend.
  \<^item> The asynchronous server and file systems (\<^verbatim>\<open>async_io.rs\<close>) and \<^verbatim>\<open>common/async_file.rs\<close>,
    \<^verbatim>\<open>common/async_runtime.rs\<close>, which repeat the synchronous code over futures of other crates.
  \<^item> The sessions (\<^verbatim>\<open>transport/fusedev/\<close>), which mount and wait by system calls; the walk over the
    descriptors of the virtio queue, which other crates make.
  \<^item> \<^verbatim>\<open>transport/fs_cache_req_handler.rs\<close>, a trait that is implemented outside of the crate;
    \<^verbatim>\<open>passthrough/credentials.rs\<close>, which no module declares; and the declarations for macOS.
\<close>

end
